(* ===== verification/Prelude.thy ===== *)
theory Prelude
  imports Main "HOL-Library.Word" "HOL-Library.AList" "HOL-Library.Char_ord"
    "HOL-Library.List_Lexorder"
begin

text \<open>
  Shared vocabulary of the development: the names of the machine types, the shape of a
  C++ computation that may throw, association lists for \<open>std::unordered_map\<close>, and the
  generic lemmas on words and lists that the component theories use.
\<close>

section \<open>Machine types\<close>

type_synonym u64 = "64 word"
type_synonym i32 = "32 word"
type_synonym byte = "8 word"
type_synonym addr = "64 word"

text \<open>Process memory: one byte per address.  The null pointer is address 0.\<close>

type_synonym memory = "addr \<Rightarrow> byte"

abbreviation nullptr :: addr where
  "nullptr \<equiv> 0"

section \<open>Collections of rewrite rules\<close>

named_theorems prog_simps \<open>how a computation runs, step by step\<close>
named_theorems text_simps \<open>facts on the strings the program prints and parses\<close>

section \<open>Computations that may throw\<close>

text \<open>
  A C++ exception carries a message (\<open>what()\<close>), or is not derived from
  \<open>std::exception\<close>.  \<open>Abort\<close> is not an exception: an \<open>assert\<close> that fails ends the
  process, so nothing after it runs.  A computation maps a state to its outcome and the
  state it leaves: the effects that happened before a throw stay.
\<close>

datatype exn = Std_Exception string | Other_Exception | Abort

type_synonym ('w, 'a) prog = "'w \<Rightarrow> (exn + 'a) \<times> 'w"

definition done_with :: "'a \<Rightarrow> ('w, 'a) prog" where
  "done_with x w = (Inr x, w)"

definition throw :: "exn \<Rightarrow> ('w, 'a) prog" where
  "throw e w = (Inl e, w)"

definition and_then :: "('w, 'a) prog \<Rightarrow> ('a \<Rightarrow> ('w, 'b) prog) \<Rightarrow> ('w, 'b) prog" where
  "and_then m f w = (case m w of (Inl e, w') \<Rightarrow> (Inl e, w') | (Inr x, w') \<Rightarrow> f x w')"

fun for_each :: "('a \<Rightarrow> ('w, unit) prog) \<Rightarrow> 'a list \<Rightarrow> ('w, unit) prog" where
  "for_each f [] = done_with ()"
| "for_each f (x # xs) = and_then (f x) (\<lambda>_. for_each f xs)"

text \<open>The statements of a block, one after the other.\<close>

fun run_all :: "('w, unit) prog list \<Rightarrow> ('w, unit) prog" where
  "run_all [] = done_with ()"
| "run_all (m # ms) = and_then m (\<lambda>_. run_all ms)"

text \<open>A loop that hands a value from one iteration to the next.\<close>

fun fold_each :: "('a \<Rightarrow> 's \<Rightarrow> ('w, 's) prog) \<Rightarrow> 'a list \<Rightarrow> 's \<Rightarrow> ('w, 's) prog" where
  "fold_each f [] s = done_with s"
| "fold_each f (x # xs) s = and_then (f x s) (fold_each f xs)"

lemma done_with_run [prog_simps]: "done_with x w = (Inr x, w)"
  by (simp add: done_with_def)

lemma throw_run [prog_simps]: "throw e w = (Inl e, w)"
  by (simp add: throw_def)

lemma and_then_Inl: "m w = (Inl e, w') \<Longrightarrow> and_then m f w = (Inl e, w')"
  by (simp add: and_then_def)

lemma and_then_Inr: "m w = (Inr x, w') \<Longrightarrow> and_then m f w = f x w'"
  by (simp add: and_then_def)

lemma and_then_Inr_E:
  assumes "and_then m f w = (Inr y, w2)"
  obtains x w1 where "m w = (Inr x, w1)" and "f x w1 = (Inr y, w2)"
  using assms by (auto simp: and_then_def split: prod.splits sum.splits)

lemma and_then_done_with [simp]: "and_then (done_with x) f = f x"
  by (rule ext) (simp add: and_then_def done_with_def)

lemma and_then_throw [simp]: "and_then (throw e) f = throw e"
  by (rule ext) (simp add: and_then_def throw_def)

lemma and_then_done [simp]: "and_then m done_with = m"
  by (rule ext) (simp add: and_then_def done_with_def split: prod.splits sum.splits)

lemma and_then_assoc: "and_then (and_then m f) g = and_then m (\<lambda>x. and_then (f x) g)"
  by (rule ext) (simp add: and_then_def split: prod.splits sum.splits)

lemma for_each_append: "for_each f (xs @ ys) = and_then (for_each f xs) (\<lambda>_. for_each f ys)"
  by (induction xs) (simp_all add: and_then_assoc)

section \<open>Simulations\<close>

text \<open>
  The contract between a component and its abstract specification: every operation keeps
  the component's invariant, and the abstract view of its result is the specified one.
  The client runs any sequence of operations.
\<close>

locale simulation =
  fixes step :: "'e \<Rightarrow> 's \<Rightarrow> 's"
    and spec :: "'e \<Rightarrow> 'a \<Rightarrow> 'a"
    and view :: "'s \<Rightarrow> 'a"
    and ok :: "'s \<Rightarrow> bool"
  assumes ok_step: "ok s \<Longrightarrow> ok (step e s)"
    and view_step: "ok s \<Longrightarrow> view (step e s) = spec e (view s)"
begin

lemma ok_fold: "ok s \<Longrightarrow> ok (fold step es s)"
  by (induction es arbitrary: s) (simp_all add: ok_step)

lemma view_fold: "ok s \<Longrightarrow> view (fold step es s) = fold spec es (view s)"
  by (induction es arbitrary: s) (simp_all add: ok_step view_step)

end

section \<open>Association lists\<close>

text \<open>
  \<open>std::unordered_map\<close> is an association list with distinct keys: \<open>map_of\<close> looks up,
  \<open>AList.update\<close> assigns, \<open>AList.delete\<close> erases.  The container leaves its iteration
  order unspecified, so facts about what an iteration visits are stated up to order.
\<close>

abbreviation keys_of :: "('k \<times> 'v) list \<Rightarrow> 'k list" where
  "keys_of m \<equiv> List.map fst m"

lemma distinct_keys_mem_map_of:
  "distinct (keys_of m) \<Longrightarrow> (k, v) \<in> set m \<longleftrightarrow> map_of m k = Some v"
  by (metis map_of_eq_Some_iff)

section \<open>Words\<close>

lemma unat_add_no_wrap:
  fixes a b :: "'w::len word"
  assumes "unat a + unat b < 2 ^ LENGTH('w)"
  shows "unat (a + b) = unat a + unat b"
  using assms by (simp add: unat_word_ariths)

lemma unat_sub_le:
  fixes a b :: "'w::len word"
  assumes "b \<le> a"
  shows "unat (a - b) = unat a - unat b"
  using assms by (simp add: unat_sub_if' word_le_nat_alt)

lemma unat_mult_no_wrap:
  fixes a b :: "'w::len word"
  assumes "unat a * unat b < 2 ^ LENGTH('w)"
  shows "unat (a * b) = unat a * unat b"
  using assms by (simp add: unat_word_ariths)

lemma unat_lt64 [simp]: "unat (x :: u64) < 18446744073709551616"
  using unsigned_less [of x] by simp

section \<open>Byte ranges of memory\<close>

text \<open>
  \<open>std::memcpy\<close> out of and into memory: address arithmetic wraps as pointers do, and a
  range is at most as long as the address space.
\<close>

definition read_bytes :: "memory \<Rightarrow> addr \<Rightarrow> nat \<Rightarrow> byte list" where
  "read_bytes m a n = List.map (\<lambda>i. m (a + of_nat i)) [0..<n]"

definition write_bytes :: "addr \<Rightarrow> byte list \<Rightarrow> memory \<Rightarrow> memory" where
  "write_bytes a bs m = (\<lambda>x. if unat (x - a) < length bs then bs ! unat (x - a) else m x)"

lemma length_read_bytes [simp]: "length (read_bytes m a n) = n"
  by (simp add: read_bytes_def)

lemma read_bytes_0 [simp]: "read_bytes m a 0 = []"
  by (simp add: read_bytes_def)

lemma read_write_bytes:
  assumes "length bs \<le> 2 ^ 64"
  shows "read_bytes (write_bytes a bs m) a (length bs) = bs"
proof (rule nth_equalityI)
  fix i assume "i < length (read_bytes (write_bytes a bs m) a (length bs))"
  then have "i < length bs" by simp
  then have "unat (of_nat i :: addr) = i" using assms by (simp add: unat_of_nat)
  with \<open>i < length bs\<close> show "read_bytes (write_bytes a bs m) a (length bs) ! i = bs ! i"
    by (simp add: read_bytes_def write_bytes_def)
qed simp

text \<open>Writing back what memory already holds changes nothing.\<close>

lemma write_read_bytes_same:
  "write_bytes a (read_bytes m a n) m = m"
  by (rule ext) (simp add: write_bytes_def read_bytes_def)

text \<open>\<open>std::vector::resize\<close>: the new elements are zero.\<close>

definition resize :: "nat \<Rightarrow> byte list \<Rightarrow> byte list" where
  "resize n bs = take n bs @ replicate (n - length bs) 0"

lemma length_resize [simp]: "length (resize n bs) = n"
  by (simp add: resize_def)

lemma resize_eq_Nil [simp]: "resize n bs = [] \<longleftrightarrow> n = 0"
  by (metis length_0_conv length_resize)

end
