(* ===== verification/Alloc_Tracker.thy ===== *)
theory Alloc_Tracker
  imports Prelude
begin

text \<open>
  \<open>AllocationTracker\<close> (\<open>src/krepe/capture/allocation_tracker.hpp\<close> and \<open>.cpp\<close>): the
  allocations that are alive, by memory space and pointer, the pointers that the functor's
  views hold (registered by the compiler plugin), and the snapshot of the allocations to
  dump.  The mutex makes every operation atomic: an operation is a function on the state.
\<close>

section \<open>State\<close>

record allocation_record =
  ar_label :: string
  ar_space :: string
  ar_p_data :: addr
  ar_size :: u64
  ar_reported_size :: u64
  ar_data_size_known :: bool

record active_allocation =
  aa_ptr :: addr
  aa_record :: allocation_record

record allocation_snapshot =
  sn_active_bytes :: u64
  sn_allocations :: "active_allocation list"

record allocation_tracker =
  used_allocations :: "(string \<times> addr list) list"
  active_allocations :: "(string \<times> (addr \<times> allocation_record) list) list"

definition empty_tracker :: allocation_tracker where
  "empty_tracker = \<lparr>used_allocations = [], active_allocations = []\<rparr>"

text \<open>\<open>operator[]\<close> of a map whose values are containers: an absent entry is empty.\<close>

definition entry :: "('k \<times> 'v list) list \<Rightarrow> 'k \<Rightarrow> 'v list" where
  "entry m k = (case map_of m k of None \<Rightarrow> [] | Some v \<Rightarrow> v)"

section \<open>Operations\<close>

definition record_allocation ::
  "string \<Rightarrow> string \<Rightarrow> addr \<Rightarrow> addr \<Rightarrow> u64 \<Rightarrow> u64 \<Rightarrow> bool \<Rightarrow> allocation_tracker \<Rightarrow> allocation_tracker"
where
  "record_allocation label space ptr p_data sz reported_size data_size_known t =
     (if ptr = nullptr then t
      else
        let r = \<lparr>ar_label = label, ar_space = space, ar_p_data = p_data, ar_size = sz,
                 ar_reported_size = reported_size, ar_data_size_known = data_size_known\<rparr>
        in t\<lparr>active_allocations :=
               AList.update space (AList.update ptr r (entry (active_allocations t) space))
                 (active_allocations t)\<rparr>)"

definition record_deallocation :: "string \<Rightarrow> addr \<Rightarrow> allocation_tracker \<Rightarrow> allocation_tracker" where
  "record_deallocation space ptr t =
     (if ptr = nullptr then t
      else case map_of (active_allocations t) space of
        None \<Rightarrow> t
      | Some m \<Rightarrow>
          let m' = AList.delete ptr m in
          t\<lparr>active_allocations :=
              (if m' = [] then AList.delete space (active_allocations t)
               else AList.update space m' (active_allocations t))\<rparr>)"

definition record_used_allocation :: "string \<Rightarrow> addr \<Rightarrow> allocation_tracker \<Rightarrow> allocation_tracker" where
  "record_used_allocation space ptr t =
     t\<lparr>used_allocations :=
         AList.update space (entry (used_allocations t) space @ [ptr]) (used_allocations t)\<rparr>"

definition clear_used_allocations :: "allocation_tracker \<Rightarrow> allocation_tracker" where
  "clear_used_allocations t =
     t\<lparr>used_allocations := List.map (\<lambda>(space, pointers). (space, [])) (used_allocations t)\<rparr>"

text \<open>
  \<open>std::lower_bound\<close> on a sorted vector: the elements from the first one that is not
  below the key.
\<close>

definition lower_bound :: "addr list \<Rightarrow> addr \<Rightarrow> addr list" where
  "lower_bound pointers key = dropWhile (\<lambda>q. q < key) pointers"

text \<open>The test of the plugin build: a registered pointer lies in the allocation.\<close>

definition uses_record :: "addr list \<Rightarrow> allocation_record \<Rightarrow> bool" where
  "uses_record pointers r =
     (case lower_bound pointers (ar_p_data r) of
        [] \<Rightarrow> False
      | used_ptr # _ \<Rightarrow> used_ptr \<le> ar_p_data r + ar_size r)"

definition push_allocation :: "addr \<times> allocation_record \<Rightarrow> allocation_snapshot \<Rightarrow> allocation_snapshot" where
  "push_allocation e s =
     s\<lparr>sn_active_bytes := sn_active_bytes s + ar_size (snd e),
       sn_allocations := sn_allocations s @ [\<lparr>aa_ptr = fst e, aa_record = snd e\<rparr>]\<rparr>"

definition push_allocations ::
  "(addr \<times> allocation_record) list \<Rightarrow> allocation_snapshot \<Rightarrow> allocation_snapshot" where
  "push_allocations es s = fold push_allocation es s"

text \<open>
  The loop over \<open>used_allocations_\<close>: it sorts each vector in place, and \<open>operator[]\<close>
  leaves an empty entry in \<open>active_allocations_\<close> for a space that has none.
\<close>

fun snapshot_used ::
  "(string \<times> addr list) list \<Rightarrow> (string \<times> (addr \<times> allocation_record) list) list \<Rightarrow>
   allocation_snapshot \<Rightarrow>
   allocation_snapshot \<times> (string \<times> addr list) list \<times> (string \<times> (addr \<times> allocation_record) list) list"
where
  "snapshot_used [] act s = (s, [], act)"
| "snapshot_used ((space, pointers) # us) act s =
     (let sorted_pointers = sort pointers;
          act' = AList.update space (entry act space) act;
          s' = push_allocations
                 (List.filter (\<lambda>e. uses_record sorted_pointers (snd e)) (entry act' space)) s;
          (s'', us', act'') = snapshot_used us act' s'
      in (s'', (space, sorted_pointers) # us', act''))"

definition snapshot :: "bool \<Rightarrow> allocation_tracker \<Rightarrow> allocation_snapshot \<times> allocation_tracker" where
  "snapshot has_compiler_plugins t =
     (let s0 = \<lparr>sn_active_bytes = 0, sn_allocations = []\<rparr> in
      if has_compiler_plugins
      then (let (s, us, act) = snapshot_used (used_allocations t) (active_allocations t) s0
            in (s, t\<lparr>used_allocations := us, active_allocations := act\<rparr>))
      else (push_allocations (concat (List.map snd (active_allocations t))) s0, t))"

section \<open>What the state means\<close>

definition live :: "allocation_tracker \<Rightarrow> string \<Rightarrow> addr \<Rightarrow> allocation_record option" where
  "live t space ptr = map_of (entry (active_allocations t) space) ptr"

definition registered :: "allocation_tracker \<Rightarrow> string \<Rightarrow> addr set" where
  "registered t space = set (entry (used_allocations t) space)"

definition space_kept :: "string \<Rightarrow> (addr \<times> allocation_record) list \<Rightarrow> bool" where
  "space_kept space m \<longleftrightarrow>
     distinct (keys_of m) \<and> (\<forall>e \<in> set m. fst e \<noteq> nullptr \<and> ar_space (snd e) = space)"

definition well_kept :: "(string \<times> (addr \<times> allocation_record) list) list \<Rightarrow> bool" where
  "well_kept act \<longleftrightarrow> distinct (keys_of act) \<and> (\<forall>e \<in> set act. space_kept (fst e) (snd e))"

definition tracker_inv :: "allocation_tracker \<Rightarrow> bool" where
  "tracker_inv t \<longleftrightarrow> distinct (keys_of (used_allocations t)) \<and> well_kept (active_allocations t)"

section \<open>Looking up after an update\<close>

lemma entry_update [simp]:
  "entry (AList.update k v m) k' = (if k' = k then v else entry m k')"
  by (simp add: entry_def update_conv')

lemma entry_delete [simp]:
  "entry (AList.delete k m) k' = (if k' = k then [] else entry m k')"
  by (simp add: entry_def delete_conv')

lemma entry_Nil [simp]: "entry [] k = []"
  by (simp add: entry_def)

lemma entry_clear [simp]:
  "entry (List.map (\<lambda>(space, pointers). (space, [])) us) k = []"
  by (induction us) (auto simp: entry_def)

section \<open>The invariant is kept\<close>

lemma update_subset: "set (AList.update k v m) \<subseteq> insert (k, v) (set m)"
  by (induction m) auto

lemma delete_subset: "set (AList.delete k m) \<subseteq> set m"
  by (auto simp: AList.delete_eq)

lemma space_kept_Nil [simp]: "space_kept space []"
  by (simp add: space_kept_def)

lemma space_kept_update:
  "space_kept space m \<Longrightarrow> ptr \<noteq> nullptr \<Longrightarrow> ar_space r = space \<Longrightarrow>
   space_kept space (AList.update ptr r m)"
  using update_subset [of ptr r m] by (auto simp: space_kept_def distinct_update)

lemma space_kept_delete: "space_kept space m \<Longrightarrow> space_kept space (AList.delete ptr m)"
  using delete_subset [of ptr m] by (auto simp: space_kept_def distinct_delete)

lemma well_kept_update:
  "well_kept act \<Longrightarrow> space_kept space m \<Longrightarrow> well_kept (AList.update space m act)"
  using update_subset [of space m act] by (auto simp: well_kept_def distinct_update)

lemma well_kept_delete: "well_kept act \<Longrightarrow> well_kept (AList.delete space act)"
  using delete_subset [of space act] by (auto simp: well_kept_def distinct_delete)

lemma space_kept_entry: "well_kept act \<Longrightarrow> space_kept space (entry act space)"
  by (auto simp: well_kept_def entry_def split: option.splits dest!: map_of_SomeD)

lemmas kept_intros = space_kept_update space_kept_delete well_kept_update well_kept_delete
  space_kept_entry

lemma tracker_inv_empty: "tracker_inv empty_tracker"
  by (simp add: tracker_inv_def empty_tracker_def well_kept_def)

lemma tracker_inv_record_allocation:
  "tracker_inv t \<Longrightarrow> tracker_inv (record_allocation l space ptr d z rz k t)"
  by (auto simp: tracker_inv_def record_allocation_def Let_def intro!: kept_intros)

lemma tracker_inv_record_deallocation:
  "tracker_inv t \<Longrightarrow> tracker_inv (record_deallocation space ptr t)"
  using space_kept_entry [of "active_allocations t" space]
  by (auto simp: tracker_inv_def record_deallocation_def Let_def entry_def
      intro!: kept_intros split: option.splits)

lemma tracker_inv_record_used_allocation:
  "tracker_inv t \<Longrightarrow> tracker_inv (record_used_allocation space ptr t)"
  by (auto simp: tracker_inv_def record_used_allocation_def distinct_update)

lemma tracker_inv_clear_used_allocations:
  "tracker_inv t \<Longrightarrow> tracker_inv (clear_used_allocations t)"
  by (auto simp: tracker_inv_def clear_used_allocations_def comp_def case_prod_beta)

section \<open>What the operations do to the live allocations\<close>

lemma live_empty_tracker [simp]: "live empty_tracker space ptr = None"
  by (simp add: live_def empty_tracker_def)

lemma registered_empty_tracker [simp]: "registered empty_tracker space = {}"
  by (simp add: registered_def empty_tracker_def)

lemma live_null: "tracker_inv t \<Longrightarrow> live t space nullptr = None"
  using space_kept_entry [of "active_allocations t" space]
  by (auto simp: tracker_inv_def live_def space_kept_def map_of_eq_None_iff)

lemma live_record_allocation:
  "live (record_allocation l space ptr d z rz k t) space' ptr' =
     (if ptr \<noteq> nullptr \<and> space' = space \<and> ptr' = ptr
      then Some \<lparr>ar_label = l, ar_space = space, ar_p_data = d, ar_size = z,
                 ar_reported_size = rz, ar_data_size_known = k\<rparr>
      else live t space' ptr')"
  by (simp add: live_def record_allocation_def Let_def update_conv')

lemma entry_record_deallocation:
  "entry (active_allocations (record_deallocation space ptr t)) space' =
     (if ptr \<noteq> nullptr \<and> space' = space
      then AList.delete ptr (entry (active_allocations t) space)
      else entry (active_allocations t) space')"
proof (cases "map_of (active_allocations t) space")
  case None
  then have "entry (active_allocations t) space = []" by (simp add: entry_def)
  with None show ?thesis by (auto simp: record_deallocation_def)
next
  case (Some m)
  then have "entry (active_allocations t) space = m" by (simp add: entry_def)
  with Some show ?thesis by (auto simp: record_deallocation_def Let_def)
qed

lemma live_record_deallocation:
  "tracker_inv t \<Longrightarrow>
   live (record_deallocation space ptr t) space' ptr' =
     (if space' = space \<and> ptr' = ptr then None else live t space' ptr')"
  using live_null [of t space]
  by (auto simp: live_def entry_record_deallocation delete_conv')

lemma live_used [simp]:
  "live (record_used_allocation space ptr t) = live t"
  "live (clear_used_allocations t) = live t"
  by (auto simp: live_def record_used_allocation_def clear_used_allocations_def fun_eq_iff)

lemma registered_ops [simp]:
  "registered (record_allocation l space ptr d z rz k t) = registered t"
  "registered (record_deallocation space ptr t) = registered t"
  "registered (clear_used_allocations t) = (\<lambda>_. {})"
  by (auto simp: registered_def record_allocation_def record_deallocation_def Let_def
      clear_used_allocations_def fun_eq_iff split: option.splits)

lemma registered_record_used_allocation:
  "registered (record_used_allocation space ptr t) space' =
     (if space' = space then insert ptr (registered t space) else registered t space')"
  by (auto simp: registered_def record_used_allocation_def)

section \<open>What a snapshot holds\<close>

text \<open>Sorting and \<open>lower_bound\<close> find a registered pointer inside the allocation, if any.\<close>

lemma uses_record_iff:
  "uses_record (sort pointers) r \<longleftrightarrow>
     (\<exists>u \<in> set pointers. ar_p_data r \<le> u \<and> u \<le> ar_p_data r + ar_size r)"
proof -
  have "(case dropWhile (\<lambda>q. q < k) ps of [] \<Rightarrow> False | q # _ \<Rightarrow> q \<le> hi) \<longleftrightarrow>
      (\<exists>u \<in> set ps. k \<le> u \<and> u \<le> hi)" if "sorted ps" for ps and k hi :: addr
    using that
  proof (induction ps)
    case (Cons p ps)
    show ?case
    proof (cases "p < k")
      case True
      with Cons show ?thesis by auto
    next
      case False
      with Cons.prems show ?thesis by (auto intro: order_trans)
    qed
  qed simp
  from this [of "sort pointers"] show ?thesis
    by (simp add: uses_record_def lower_bound_def)
qed

definition as_active :: "addr \<times> allocation_record \<Rightarrow> active_allocation" where
  "as_active e = \<lparr>aa_ptr = fst e, aa_record = snd e\<rparr>"

lemma inj_as_active: "inj as_active"
  by (auto simp: inj_def as_active_def prod_eq_iff)

lemma push_allocations_append [simp]:
  "push_allocations (es @ fs) s = push_allocations fs (push_allocations es s)"
  by (simp add: push_allocations_def)

lemma push_allocations_fields:
  "sn_allocations (push_allocations es s) = sn_allocations s @ List.map as_active es"
  "sn_active_bytes (push_allocations es s) = sn_active_bytes s + (\<Sum>e\<leftarrow>es. ar_size (snd e))"
  by (induction es arbitrary: s)
    (simp_all add: push_allocations_def push_allocation_def as_active_def add.assoc)

text \<open>The entries a snapshot pushes, and the state it leaves.\<close>

definition captured_entries :: "bool \<Rightarrow> allocation_tracker \<Rightarrow> (addr \<times> allocation_record) list" where
  "captured_entries plugins t =
     (if plugins
      then concat (List.map (\<lambda>(space, pointers).
             List.filter (\<lambda>e. uses_record (sort pointers) (snd e))
               (entry (active_allocations t) space)) (used_allocations t))
      else concat (List.map snd (active_allocations t)))"

lemma snapshot_used_correct:
  assumes "snapshot_used us act s = (s', us', act')" and "well_kept act"
  shows "us' = List.map (\<lambda>(space, pointers). (space, sort pointers)) us"
    and "entry act' = entry act" and "well_kept act'"
    and "s' = push_allocations (concat (List.map (\<lambda>(space, pointers).
          List.filter (\<lambda>e. uses_record (sort pointers) (snd e)) (entry act space)) us)) s"
  using assms
proof (induction us arbitrary: act s s' us' act')
  case Nil
  case 1 then show ?case by simp
  case 2 then show ?case by simp
  case 3 then show ?case by simp
  case 4 then show ?case by (simp add: push_allocations_def)
next
  case (Cons u us)
  obtain space pointers where u: "u = (space, pointers)" by (cases u)
  have step: "\<exists>us''. snapshot_used us (AList.update space (entry act space) act)
        (push_allocations (List.filter (\<lambda>e. uses_record (sort pointers) (snd e))
           (entry act space)) s) = (s', us'', act')
      \<and> us' = (space, sort pointers) # us''"
    if "snapshot_used (u # us) act s = (s', us', act')" for act s s' us' act'
    using that by (auto simp: u Let_def split: prod.splits)
  have kept: "well_kept (AList.update space (entry act space) act)" if "well_kept act" for act
    using that by (intro kept_intros)
  have same: "entry (AList.update space (entry act space) act) = entry act"
    for act :: "(string \<times> (addr \<times> allocation_record) list) list"
    by (rule ext) simp
  {
    case 1 then show ?case using step [OF 1(1)] Cons.IH(1) kept [OF 1(2)] u by auto
  next
    case 2 then show ?case using step [OF 2(1)] Cons.IH(2) kept [OF 2(2)] same by metis
  next
    case 3 then show ?case using step [OF 3(1)] Cons.IH(3) kept [OF 3(2)] by blast
  next
    case 4
    obtain us'' where "snapshot_used us (AList.update space (entry act space) act)
        (push_allocations (List.filter (\<lambda>e. uses_record (sort pointers) (snd e))
           (entry act space)) s) = (s', us'', act')"
      using step [OF 4(1)] by blast
    from Cons.IH(4) [OF this kept [OF 4(2)]] show ?case by (simp add: u same)
  }
qed

lemma entry_sorted:
  "set (entry (List.map (\<lambda>(space, pointers). (space, sort pointers)) us) space) =
   set (entry us space)"
  by (induction us) (auto simp: entry_def)

lemma snapshot_correct:
  assumes "tracker_inv t"
  shows "fst (snapshot plugins t) =
      push_allocations (captured_entries plugins t) \<lparr>sn_active_bytes = 0, sn_allocations = []\<rparr>"
    and "tracker_inv (snd (snapshot plugins t))"
    and "live (snd (snapshot plugins t)) = live t"
    and "registered (snd (snapshot plugins t)) = registered t"
proof -
  let ?s0 = "\<lparr>sn_active_bytes = 0, sn_allocations = []\<rparr>"
  obtain s us act where r: "snapshot_used (used_allocations t) (active_allocations t) ?s0 = (s, us, act)"
    by (metis prod_cases3)
  have kept: "well_kept (active_allocations t)" using assms by (simp add: tracker_inv_def)
  note c = snapshot_used_correct [OF r kept]
  have keys: "keys_of us = keys_of (used_allocations t)"
    by (simp add: c(1) comp_def case_prod_beta)
  have sorted_entry: "set (entry us space) = set (entry (used_allocations t) space)" for space
    unfolding c(1) by (rule entry_sorted)
  show "fst (snapshot plugins t) = push_allocations (captured_entries plugins t) ?s0"
    by (simp add: snapshot_def Let_def captured_entries_def r c(4))
  show "tracker_inv (snd (snapshot plugins t))"
    using assms by (simp add: snapshot_def Let_def r tracker_inv_def keys c(3))
  show "live (snd (snapshot plugins t)) = live t"
    by (simp add: snapshot_def Let_def r live_def fun_eq_iff c(2))
  show "registered (snd (snapshot plugins t)) = registered t"
    by (simp add: snapshot_def Let_def r registered_def fun_eq_iff sorted_entry)
qed

text \<open>The captured entries, told from what is alive and what is registered.\<close>

lemma entry_live:
  "tracker_inv t \<Longrightarrow>
   (ptr, r) \<in> set (entry (active_allocations t) space) \<longleftrightarrow> live t space ptr = Some r"
  using space_kept_entry [of "active_allocations t" space]
  by (simp add: tracker_inv_def space_kept_def live_def)

lemma entry_mem: "distinct (keys_of m) \<Longrightarrow> (k, v) \<in> set m \<Longrightarrow> entry m k = v"
  by (simp add: entry_def)

lemma entry_nonempty_mem: "x \<in> set (entry m k) \<Longrightarrow> (k, entry m k) \<in> set m"
  by (auto simp: entry_def split: option.splits dest: map_of_SomeD)

lemma live_space: "tracker_inv t \<Longrightarrow> live t space ptr = Some r \<Longrightarrow> ar_space r = space"
  using space_kept_entry [of "active_allocations t" space] entry_live [of t ptr r space]
  by (auto simp: tracker_inv_def space_kept_def)

lemma captured_entries_iff:
  assumes "tracker_inv t"
  shows "(ptr, r) \<in> set (captured_entries plugins t) \<longleftrightarrow>
     live t (ar_space r) ptr = Some r \<and>
     (plugins \<longrightarrow> (\<exists>u \<in> registered t (ar_space r).
        ar_p_data r \<le> u \<and> u \<le> ar_p_data r + ar_size r))"
proof -
  have keys: "distinct (keys_of (used_allocations t))" "distinct (keys_of (active_allocations t))"
    using assms by (simp_all add: tracker_inv_def well_kept_def)
  have used: "(\<exists>ps. (space, ps) \<in> set (used_allocations t) \<and> uses_record (sort ps) r) \<longleftrightarrow>
      (\<exists>u \<in> registered t space. ar_p_data r \<le> u \<and> u \<le> ar_p_data r + ar_size r)" for space
    unfolding uses_record_iff registered_def
    using entry_mem [OF keys(1)] entry_nonempty_mem [of _ "used_allocations t" space] by blast
  have all: "(\<exists>m. (space, m) \<in> set (active_allocations t) \<and> (ptr, r) \<in> set m) \<longleftrightarrow>
      live t space ptr = Some r" for space
    unfolding entry_live [OF assms, symmetric]
    using entry_mem [OF keys(2)] entry_nonempty_mem [of _ "active_allocations t" space] by blast
  show ?thesis
  proof (cases plugins)
    case True
    then have "(ptr, r) \<in> set (captured_entries plugins t) \<longleftrightarrow>
        (\<exists>space ps. (space, ps) \<in> set (used_allocations t) \<and> uses_record (sort ps) r \<and>
           live t space ptr = Some r)"
      by (auto simp: captured_entries_def entry_live [OF assms])
    also have "\<dots> \<longleftrightarrow> (\<exists>space. (\<exists>u \<in> registered t space.
        ar_p_data r \<le> u \<and> u \<le> ar_p_data r + ar_size r) \<and> live t space ptr = Some r)"
      unfolding used [symmetric] by blast
    also have "\<dots> \<longleftrightarrow> (\<exists>u \<in> registered t (ar_space r).
        ar_p_data r \<le> u \<and> u \<le> ar_p_data r + ar_size r) \<and> live t (ar_space r) ptr = Some r"
      using live_space [OF assms] by blast
    finally show ?thesis using True by blast
  next
    case False
    have "(ptr, r) \<in> set (captured_entries plugins t) \<longleftrightarrow> (\<exists>space. live t space ptr = Some r)"
      unfolding all [symmetric] using False
      by (simp add: captured_entries_def) (metis prod.collapse snd_conv)
    with False show ?thesis using live_space [OF assms] by auto
  qed
qed

text \<open>No entry is captured twice.\<close>

lemma distinct_concat_spaces:
  assumes "distinct (keys_of us)"
    and "\<And>k x. (k, x) \<in> set us \<Longrightarrow> distinct (f k x)"
    and "\<And>k x e. (k, x) \<in> set us \<Longrightarrow> e \<in> set (f k x) \<Longrightarrow> ar_space (snd e) = k"
  shows "distinct (concat (List.map (\<lambda>(k, x). f k x) us))"
  using assms
proof (induction us)
  case (Cons u us)
  obtain k x where u: "u = (k, x)" by (cases u)
  let ?rest = "concat (List.map (\<lambda>(k, x). f k x) us)"
  have "ar_space (snd e) \<in> set (keys_of us)" if "e \<in> set ?rest" for e
  proof -
    from that obtain k' x' where kx: "(k', x') \<in> set us" "e \<in> set (f k' x')" by auto
    with Cons.prems(3) [of k' x' e] have "ar_space (snd e) = k'" by simp
    with kx(1) show ?thesis by force
  qed
  moreover have "ar_space (snd e) = k" if "e \<in> set (f k x)" for e
    using that Cons.prems(3) [of k x e] u by simp
  moreover have "k \<notin> set (keys_of us)" using Cons.prems(1) u by simp
  ultimately have "set (f k x) \<inter> set ?rest = {}" by blast
  moreover have "distinct (f k x)" using Cons.prems(2) u by simp
  moreover have "distinct ?rest"
  proof (rule Cons.IH)
    show "distinct (keys_of us)" using Cons.prems(1) by simp
    show "distinct (f k x)" if "(k, x) \<in> set us" for k x
      using that Cons.prems(2) by simp
    show "ar_space (snd e) = k" if "(k, x) \<in> set us" "e \<in> set (f k x)" for k x e
      using that Cons.prems(3) [of k x e] by simp
  qed
  ultimately show ?case by (simp add: u)
qed simp

lemma captured_entries_distinct:
  assumes "tracker_inv t"
  shows "distinct (captured_entries plugins t)"
proof -
  have list_kept: "distinct m \<and> (\<forall>e \<in> set m. ar_space (snd e) = space)"
    if "space_kept space m" for space m
    using that unfolding space_kept_def by (metis distinct_map)
  have kept: "distinct (entry (active_allocations t) space)
      \<and> (\<forall>e \<in> set (entry (active_allocations t) space). ar_space (snd e) = space)" for space
    using assms by (intro list_kept space_kept_entry) (simp add: tracker_inv_def)
  have "distinct m \<and> (\<forall>e \<in> set m. ar_space (snd e) = k)"
    if "(k, m) \<in> set (active_allocations t)" for k m
    using assms list_kept that by (fastforce simp: tracker_inv_def well_kept_def)
  then have "distinct (concat (List.map snd (active_allocations t)))"
    using distinct_concat_spaces [of "active_allocations t" "\<lambda>k m. m"] assms
    by (simp add: tracker_inv_def well_kept_def case_prod_unfold)
  moreover have "distinct (concat (List.map (\<lambda>(space, pointers).
      List.filter (\<lambda>e. uses_record (sort pointers) (snd e)) (entry (active_allocations t) space))
      (used_allocations t)))"
    using assms kept by (intro distinct_concat_spaces) (auto simp: tracker_inv_def)
  ultimately show ?thesis by (simp add: captured_entries_def)
qed

section \<open>The tracker as an interface\<close>

text \<open>
  What the hooks rely on: the operations, and the laws of a store of live allocations and
  registered pointers.  The client is a run of operations from the empty tracker.
\<close>

datatype tracker_event =
  Allocated string string addr addr u64 u64 bool
| Deallocated string addr
| Used string addr
| Used_Cleared
| Snapshot_Taken

type_synonym tracked = "(string \<Rightarrow> addr \<Rightarrow> allocation_record option) \<times> (string \<Rightarrow> addr set)"

text \<open>The abstract specification of one operation.\<close>

fun spec_event :: "tracker_event \<Rightarrow> tracked \<Rightarrow> tracked" where
  "spec_event (Allocated l s p d z rz k) (L, R) =
     (if p = nullptr then L
      else L(s := (L s)(p \<mapsto> \<lparr>ar_label = l, ar_space = s, ar_p_data = d, ar_size = z,
                               ar_reported_size = rz, ar_data_size_known = k\<rparr>)), R)"
| "spec_event (Deallocated s p) (L, R) = (L(s := (L s)(p := None)), R)"
| "spec_event (Used s p) (L, R) = (L, R(s := insert p (R s)))"
| "spec_event Used_Cleared (L, R) = (L, \<lambda>_. {})"
| "spec_event Snapshot_Taken (L, R) = (L, R)"

definition spec_run :: "tracker_event list \<Rightarrow> tracked" where
  "spec_run es = fold spec_event es (\<lambda>_ _. None, \<lambda>_. {})"

definition tracker_event :: "bool \<Rightarrow> tracker_event \<Rightarrow> allocation_tracker \<Rightarrow> allocation_tracker" where
  "tracker_event plugins e t =
     (case e of
        Allocated l s p d z rz k \<Rightarrow> record_allocation l s p d z rz k t
      | Deallocated s p \<Rightarrow> record_deallocation s p t
      | Used s p \<Rightarrow> record_used_allocation s p t
      | Used_Cleared \<Rightarrow> clear_used_allocations t
      | Snapshot_Taken \<Rightarrow> snd (snapshot plugins t))"

definition tracker_run :: "bool \<Rightarrow> tracker_event list \<Rightarrow> allocation_tracker" where
  "tracker_run plugins es = fold (tracker_event plugins) es empty_tracker"

locale tracking = simulation event spec_event view ok
  for event :: "tracker_event \<Rightarrow> 't \<Rightarrow> 't" and view :: "'t \<Rightarrow> tracked" and ok :: "'t \<Rightarrow> bool" +
  fixes start :: 't
  assumes ok_start: "ok start"
    and view_start: "view start = (\<lambda>_ _. None, \<lambda>_. {})"
begin

lemma run_ok: "ok (fold event es start)"
  by (rule ok_fold [OF ok_start])

lemma run_view: "view (fold event es start) = spec_run es"
  by (simp add: view_fold [OF ok_start] view_start spec_run_def)

end

interpretation tracker: tracking "tracker_event plugins" "\<lambda>t. (live t, registered t)"
  tracker_inv empty_tracker for plugins
proof
  show "tracker_inv empty_tracker" by (rule tracker_inv_empty)
  show "(live empty_tracker, registered empty_tracker) = (\<lambda>_ _. None, \<lambda>_. {})"
    by (simp add: fun_eq_iff)
  fix t e
  assume t: "tracker_inv t"
  show "tracker_inv (tracker_event plugins e t)"
    using t snapshot_correct(2)
    by (cases e) (simp_all add: tracker_event_def tracker_inv_record_allocation
        tracker_inv_record_deallocation tracker_inv_record_used_allocation
        tracker_inv_clear_used_allocations)
  show "(live (tracker_event plugins e t), registered (tracker_event plugins e t)) =
      spec_event e (live t, registered t)"
    by (cases e) (auto simp: tracker_event_def fun_eq_iff live_record_allocation
        live_record_deallocation [OF t] registered_record_used_allocation snapshot_correct [OF t])
qed

section \<open>Properties\<close>

text \<open>
  Property C20.  \<open>AllocationTracker::snapshot\<close>: after any sequence of allocations,
  deallocations, registrations, clears and earlier snapshots, the snapshot lists, each
  once, the allocations that the abstract history says are alive; in the plugin build,
  exactly those that hold a registered pointer of the same memory space between their data
  pointer and its end.  \<open>active_bytes\<close> is the sum of their sizes (modulo 2^64), and
  taking the snapshot changes neither the live allocations nor the registrations.
\<close>

theorem snapshot_of_history:
  "let (s, t') = snapshot plugins (tracker_run plugins es); (L, R) = spec_run es in
   distinct (sn_allocations s)
   \<and> (\<forall>ptr r. \<lparr>aa_ptr = ptr, aa_record = r\<rparr> \<in> set (sn_allocations s) \<longleftrightarrow>
        L (ar_space r) ptr = Some r
        \<and> (if plugins
            then \<exists>u. u \<in> R (ar_space r) \<and> ar_p_data r \<le> u \<and> u \<le> ar_p_data r + ar_size r
            else True))
   \<and> sn_active_bytes s = (\<Sum>a\<leftarrow>sn_allocations s. ar_size (aa_record a))
   \<and> live t' = L \<and> registered t' = R"
proof -
  let ?t = "tracker_run plugins es"
  have inv: "tracker_inv ?t" and view: "(live ?t, registered ?t) = spec_run es"
    unfolding tracker_run_def by (rule tracker.run_ok, rule tracker.run_view)
  obtain s t' where s: "snapshot plugins ?t = (s, t')" by fastforce
  have alls: "sn_allocations s = List.map as_active (captured_entries plugins ?t)"
    and bytes: "sn_active_bytes s = (\<Sum>a\<leftarrow>sn_allocations s. ar_size (aa_record a))"
    using snapshot_correct(1) [OF inv, of plugins]
    by (simp_all add: s push_allocations_fields comp_def as_active_def)
  have mem: "\<lparr>aa_ptr = ptr, aa_record = r\<rparr> \<in> set (sn_allocations s) \<longleftrightarrow>
      (ptr, r) \<in> set (captured_entries plugins ?t)" for ptr r
    using inj_image_mem_iff [OF inj_as_active, of "(ptr, r)"] by (simp add: alls as_active_def)
  have "distinct (sn_allocations s)"
    using captured_entries_distinct [OF inv] inj_on_subset [OF inj_as_active subset_UNIV]
    by (simp add: alls distinct_map)
  then show ?thesis
    using view snapshot_correct(3,4) [OF inv, of plugins] mem captured_entries_iff [OF inv, of _ _ plugins] bytes
    by (simp add: s view [symmetric] Bex_def)
qed

end
