(* ===== verification/Memory_Copy.thy ===== *)
theory Memory_Copy
  imports Alloc_Tracker
begin

text \<open>
  \<open>copy_allocation_bytes\<close> (\<open>src/krepe/capture/memory_copy.cpp\<close>): the bytes of an
  allocation for the dump, or the reason they are skipped.
\<close>

section \<open>The build and the machine\<close>

text \<open>
  The macros the capture library is compiled with: compiler plugins, CUDA and HIP dumps,
  the size of Kokkos's allocation header (128 or 256), and whether it runs on Linux.
\<close>

record capture_build =
  has_compiler_plugins :: bool
  enable_cuda_dump :: bool
  enable_hip_dump :: bool
  allocation_header_size :: u64
  on_linux :: bool

text \<open>
  What the machine answers: process memory, the exception \<open>std::vector::resize\<close> throws
  for a size it cannot allocate, and the runtimes' device-to-host copies (the error text,
  or the bytes).
\<close>

record capture_env =
  host_memory :: memory
  resize_error :: "u64 \<Rightarrow> string option"
  cuda_memcpy :: "addr \<Rightarrow> u64 \<Rightarrow> string + byte list"
  hip_memcpy :: "addr \<Rightarrow> u64 \<Rightarrow> string + byte list"

section \<open>Operations\<close>

definition is_host_accessible_space :: "string \<Rightarrow> bool" where
  "is_host_accessible_space space \<longleftrightarrow>
     space = ''Host'' \<or> space = ''CudaHostPinned'' \<or> space = ''CudaUVM'' \<or>
     space = ''HIPHostPinned'' \<or> space = ''HIPManaged'' \<or>
     space = ''SYCLHostUSM'' \<or> space = ''SYCLSharedUSM'' \<or>
     space = ''NextSiliconSharedSpace''"

definition is_cuda_device_space :: "string \<Rightarrow> bool" where
  "is_cuda_device_space space = (space = ''Cuda'')"

definition is_hip_device_space :: "string \<Rightarrow> bool" where
  "is_hip_device_space space = (space = ''HIP'')"

definition allocate_staging_buffer ::
  "capture_env \<Rightarrow> active_allocation \<Rightarrow> byte list \<Rightarrow> string \<times> byte list" where
  "allocate_staging_buffer env allocation bytes =
     (case resize_error env (ar_size (aa_record allocation)) of
        Some what \<Rightarrow> (''could not allocate host staging buffer: '' @ what, bytes)
      | None \<Rightarrow> ([], resize (unat (ar_size (aa_record allocation))) bytes))"

text \<open>The result: the skip reason (empty on success) and the vector it leaves.\<close>

definition copy_allocation_bytes ::
  "capture_build \<Rightarrow> capture_env \<Rightarrow> active_allocation \<Rightarrow> byte list \<Rightarrow> string \<times> byte list" where
  "copy_allocation_bytes b env allocation bytes =
     (let r = aa_record allocation; space = ar_space r;
          host_accessible = is_host_accessible_space space;
          cuda_device = is_cuda_device_space space;
          hip_device = is_hip_device_space space in
      if \<not> ar_data_size_known r
      then (''allocation data size could not be bounded safely'', bytes)
      else if ar_size r = 0 then ([], [])
      else if \<not> host_accessible \<and> \<not> cuda_device \<and> \<not> hip_device
      then (''memory space is not supported for raw byte dumps'', bytes)
      else if \<not> enable_cuda_dump b \<and> cuda_device
      then (''CUDA dump support was not enabled at build time'', bytes)
      else if \<not> enable_hip_dump b \<and> hip_device
      then (''HIP dump support was not enabled at build time'', bytes)
      else
        let (reason, bytes) = allocate_staging_buffer env allocation bytes in
        if reason \<noteq> [] \<or> bytes = [] then (reason, bytes)
        else if ar_p_data r = nullptr then (''allocation data pointer is null'', [])
        else if host_accessible
        then ([], read_bytes (host_memory env) (ar_p_data r) (length bytes))
        else if enable_cuda_dump b \<and> cuda_device
        then (case cuda_memcpy env (ar_p_data r) (ar_size r) of
                Inl error \<Rightarrow> (''cudaMemcpyDeviceToHost failed: '' @ error, [])
              | Inr bs \<Rightarrow> ([], bs))
        else if enable_hip_dump b \<and> hip_device
        then (case hip_memcpy env (ar_p_data r) (ar_size r) of
                Inl error \<Rightarrow> (''hipMemcpyDeviceToHost failed: '' @ error, [])
              | Inr bs \<Rightarrow> ([], bs))
        else (''internal error: no copy path selected'', bytes))"

section \<open>Facts\<close>

text \<open>When the machine can give the bytes of an allocation, and which bytes they are.\<close>

definition machine_bytes :: "capture_build \<Rightarrow> capture_env \<Rightarrow> allocation_record \<Rightarrow> byte list option" where
  "machine_bytes b env r =
     (if is_host_accessible_space (ar_space r)
      then Some (read_bytes (host_memory env) (ar_p_data r) (unat (ar_size r)))
      else if is_cuda_device_space (ar_space r) \<and> enable_cuda_dump b
      then (case cuda_memcpy env (ar_p_data r) (ar_size r) of Inl _ \<Rightarrow> None | Inr bs \<Rightarrow> Some bs)
      else if is_hip_device_space (ar_space r) \<and> enable_hip_dump b
      then (case hip_memcpy env (ar_p_data r) (ar_size r) of Inl _ \<Rightarrow> None | Inr bs \<Rightarrow> Some bs)
      else None)"

definition dumpable :: "capture_build \<Rightarrow> capture_env \<Rightarrow> allocation_record \<Rightarrow> byte list option" where
  "dumpable b env r =
     (if \<not> ar_data_size_known r then None
      else if ar_size r = 0 then Some []
      else if ar_p_data r = nullptr \<or> resize_error env (ar_size r) \<noteq> None then None
      else machine_bytes b env r)"

lemma spaces_exclusive:
  "is_cuda_device_space s \<Longrightarrow> \<not> is_host_accessible_space s \<and> \<not> is_hip_device_space s"
  "is_hip_device_space s \<Longrightarrow> \<not> is_host_accessible_space s \<and> \<not> is_cuda_device_space s"
  by (auto simp: is_cuda_device_space_def is_hip_device_space_def is_host_accessible_space_def)

lemma unat_size_0_iff: "unat (x :: u64) = 0 \<longleftrightarrow> x = 0"
  by (simp add: unat_eq_zero)

lemma copy_allocation_bytes_dumpable:
  "dumpable b env (aa_record a) = Some bs \<Longrightarrow> copy_allocation_bytes b env a [] = ([], bs)"
  "dumpable b env (aa_record a) = None \<Longrightarrow>
     fst (copy_allocation_bytes b env a []) \<noteq> [] \<and>
     fst (copy_allocation_bytes b env a []) \<noteq> ''internal error: no copy path selected'' \<and>
     snd (copy_allocation_bytes b env a []) = []"
  using spaces_exclusive [of "ar_space (aa_record a)"]
  by (auto simp: copy_allocation_bytes_def dumpable_def machine_bytes_def Let_def
      allocate_staging_buffer_def unat_size_0_iff split: if_splits option.splits sum.splits)

section \<open>Properties\<close>

text \<open>
  Property C27.  \<open>copy_allocation_bytes\<close> on an empty vector reports success (an empty
  reason) exactly when the allocation is dumpable: its data size is known and it is empty,
  or its data pointer is not null, its memory space has a copy path in this build, and the
  staging buffer and the copy succeed.  On success the vector holds exactly the machine's
  bytes; otherwise the vector is empty.  The \<open>internal error\<close> branch is never taken.
\<close>

theorem copy_allocation_bytes_correct:
  "let (reason, bytes) = copy_allocation_bytes b env a [] in
   (reason = [] \<longleftrightarrow> dumpable b env (aa_record a) \<noteq> None)
   \<and> bytes = (case dumpable b env (aa_record a) of None \<Rightarrow> [] | Some bs \<Rightarrow> bs)
   \<and> reason \<noteq> ''internal error: no copy path selected''"
  using copy_allocation_bytes_dumpable [of b env a]
  by (cases "dumpable b env (aa_record a)") (auto split: prod.splits)

end
