(* ===== verification/Cpp_Text.thy ===== *)
theory Cpp_Text
  imports Prelude
begin

text \<open>
  The text facilities of the C++ standard library that the program relies on:
  \<open>std::to_string\<close>, \<open>std::from_chars\<close>, printing a pointer on a stream, \<open>std::stoull\<close>
  in base 16, \<open>std::isalnum\<close> and \<open>starts_with\<close>.  Characters are bytes.
\<close>

section \<open>Digits\<close>

text \<open>Digits of bases 10 and 16; printing uses lower case, parsing accepts both.\<close>

definition digit_char :: "nat \<Rightarrow> char" where
  "digit_char d = (if d < 10 then char_of (48 + d) else char_of (87 + d))"

definition digit_value :: "char \<Rightarrow> nat option" where
  "digit_value c =
     (let n = of_char c :: nat in
      if 48 \<le> n \<and> n \<le> 57 then Some (n - 48)
      else if 97 \<le> n \<and> n \<le> 102 then Some (n - 87)
      else if 65 \<le> n \<and> n \<le> 70 then Some (n - 55)
      else None)"

definition is_digit :: "nat \<Rightarrow> char \<Rightarrow> bool" where
  "is_digit b c = (case digit_value c of None \<Rightarrow> False | Some d \<Rightarrow> d < b)"

definition is_alnum :: "char \<Rightarrow> bool" where
  "is_alnum c =
     (let n = of_char c :: nat in
      48 \<le> n \<and> n \<le> 57 \<or> 97 \<le> n \<and> n \<le> 122 \<or> 65 \<le> n \<and> n \<le> 90)"

definition is_space :: "char \<Rightarrow> bool" where
  "is_space c = (let n = of_char c :: nat in n = 32 \<or> 9 \<le> n \<and> n \<le> 13)"

definition starts_with :: "string \<Rightarrow> string \<Rightarrow> bool" where
  "starts_with s p = (take (length p) s = p)"

section \<open>Printing and parsing numerals\<close>

fun print_base :: "nat \<Rightarrow> nat \<Rightarrow> string" where
  "print_base b n =
     (if n < b \<or> b < 2 then [digit_char n]
      else print_base b (n div b) @ [digit_char (n mod b)])"

declare print_base.simps [simp del]

definition value_of_digits :: "nat \<Rightarrow> string \<Rightarrow> nat" where
  "value_of_digits b ds =
     foldl (\<lambda>v c. b * v + (case digit_value c of None \<Rightarrow> 0 | Some d \<Rightarrow> d)) 0 ds"

definition to_string :: "nat \<Rightarrow> string" where
  "to_string n = print_base 10 n"

text \<open>
  \<open>std::from_chars\<close> on an unsigned 64-bit integer: the longest prefix of decimal digits
  (no sign, no blanks), with what it leaves unread.
\<close>

datatype from_chars_result = Invalid_Argument | Result_Out_Of_Range | Parsed u64 string

definition from_chars :: "string \<Rightarrow> from_chars_result" where
  "from_chars s =
     (let ds = takeWhile (is_digit 10) s; v = value_of_digits 10 ds in
      if ds = [] then Invalid_Argument
      else if v < 2 ^ 64 then Parsed (of_nat v) (dropWhile (is_digit 10) s)
      else Result_Out_Of_Range)"

text \<open>\<open>stream << ptr\<close> in libstdc++: hexadecimal with the base shown, null is \<open>0\<close>.\<close>

definition pointer_to_string :: "addr \<Rightarrow> string" where
  "pointer_to_string p = (if p = nullptr then ''0'' else ''0x'' @ print_base 16 (unat p))"

text \<open>
  \<open>std::stoull(s, nullptr, 16)\<close>: blanks, an optional sign, an optional \<open>0x\<close> before a
  digit, then the longest run of hexadecimal digits; what follows is ignored.
\<close>

definition skip_prefix_0x :: "string \<Rightarrow> string" where
  "skip_prefix_0x s =
     (case s of
        z # x # c # rest \<Rightarrow>
          if z = CHR ''0'' \<and> (x = CHR ''x'' \<or> x = CHR ''X'') \<and> is_digit 16 c
          then c # rest else s
      | _ \<Rightarrow> s)"

definition stoull_16 :: "string \<Rightarrow> exn + u64" where
  "stoull_16 s =
     (let t = dropWhile is_space s;
          neg = (t \<noteq> [] \<and> hd t = CHR ''-'');
          u = (if t \<noteq> [] \<and> (hd t = CHR ''-'' \<or> hd t = CHR ''+'') then tl t else t);
          ds = takeWhile (is_digit 16) (skip_prefix_0x u);
          v = value_of_digits 16 ds
      in if ds = [] then Inl (Std_Exception ''stoull'')
         else if \<not> v < 2 ^ 64 then Inl (Std_Exception ''stoull'')
         else Inr (if neg then - of_nat v else of_nat v))"

section \<open>Facts\<close>

lemma digit_value_digit_char [text_simps]: "d < 16 \<Longrightarrow> digit_value (digit_char d) = Some d"
  by (auto simp: digit_value_def digit_char_def Let_def)

lemma is_digit_digit_char [text_simps]: "d < b \<Longrightarrow> b \<le> 16 \<Longrightarrow> is_digit b (digit_char d)"
  by (simp add: is_digit_def text_simps)

lemma digit_char_not_space [text_simps]: "d < 16 \<Longrightarrow> \<not> is_space (digit_char d)"
  by (auto simp: is_space_def digit_char_def Let_def)

lemma digit_char_alnum [text_simps]: "d < 16 \<Longrightarrow> is_alnum (digit_char d)"
  by (auto simp: is_alnum_def digit_char_def Let_def)

lemma print_base_nonempty [simp]: "print_base b n \<noteq> []"
  by (subst print_base.simps) simp

lemma print_base_chars:
  "2 \<le> b \<Longrightarrow> c \<in> set (print_base b n) \<Longrightarrow> \<exists>d<b. c = digit_char d"
proof (induction b n rule: print_base.induct)
  case (1 b n)
  show ?case
  proof (cases "n < b \<or> b < 2")
    case True
    with 1 show ?thesis by (auto simp: print_base.simps [of b n])
  next
    case False
    then have "n mod b < b" by simp
    with False 1 show ?thesis
      by (auto simp: print_base.simps [of b n] intro: exI [of _ "n mod b"])
  qed
qed

lemma print_base_all_digits [text_simps]:
  "2 \<le> b \<Longrightarrow> b \<le> 16 \<Longrightarrow> \<forall>c \<in> set (print_base b n). is_digit b c"
  using print_base_chars is_digit_digit_char by blast

lemma value_of_digits_snoc [simp]:
  "value_of_digits b (ds @ [c]) =
     b * value_of_digits b ds + (case digit_value c of None \<Rightarrow> 0 | Some d \<Rightarrow> d)"
  by (simp add: value_of_digits_def)

lemma value_of_digits_single [simp]:
  "value_of_digits b [c] = (case digit_value c of None \<Rightarrow> 0 | Some d \<Rightarrow> d)"
  by (simp add: value_of_digits_def)

lemma value_of_print_base [text_simps]:
  "2 \<le> b \<Longrightarrow> b \<le> 16 \<Longrightarrow> value_of_digits b (print_base b n) = n"
proof (induction b n rule: print_base.induct)
  case (1 b n)
  show ?case
  proof (cases "n < b \<or> b < 2")
    case True
    with 1 show ?thesis by (auto simp: print_base.simps [of b n] text_simps)
  next
    case False
    with 1 have "value_of_digits b (print_base b (n div b)) = n div b" by simp
    moreover have "n mod b < 16" using False 1 by (auto intro: less_le_trans [of _ b])
    ultimately show ?thesis
      using False by (simp add: print_base.simps [of b n] text_simps)
  qed
qed

text \<open>A printed numeral is one run of digits: the parser reads it whole.\<close>

lemma takeWhile_print_base [text_simps]:
  "2 \<le> b \<Longrightarrow> b \<le> 16 \<Longrightarrow> takeWhile (is_digit b) (print_base b n) = print_base b n"
  using print_base_all_digits by (simp add: takeWhile_eq_all_conv)

lemma dropWhile_print_base [text_simps]:
  "2 \<le> b \<Longrightarrow> b \<le> 16 \<Longrightarrow> dropWhile (is_digit b) (print_base b n) = []"
  using print_base_all_digits by (simp add: dropWhile_eq_Nil_conv)

lemma from_chars_to_string [text_simps]:
  "n < 2 ^ 64 \<Longrightarrow> from_chars (to_string n) = Parsed (of_nat n) []"
  by (simp add: from_chars_def to_string_def text_simps Let_def)

lemma to_string_inj [simp]: "to_string m = to_string n \<longleftrightarrow> m = n"
proof
  assume "to_string m = to_string n"
  then have "value_of_digits 10 (print_base 10 m) = value_of_digits 10 (print_base 10 n)"
    by (simp add: to_string_def)
  then show "m = n" by (simp add: text_simps)
qed simp

text \<open>What the program prints for a pointer is read back by \<open>stoull\<close>.\<close>

lemma stoull_16_pointer_to_string [text_simps]:
  "stoull_16 (pointer_to_string p) = Inr p"
proof (cases "p = nullptr")
  case True
  then show ?thesis
    by (simp add: stoull_16_def pointer_to_string_def skip_prefix_0x_def is_space_def
        is_digit_def digit_value_def value_of_digits_def)
next
  case False
  let ?ds = "print_base 16 (unat p)"
  obtain c cs where ds: "?ds = c # cs" by (cases ?ds) auto
  have "is_digit 16 c" using print_base_all_digits [of 16 "unat p"] by (simp add: ds)
  then have skip: "skip_prefix_0x (CHR ''0'' # CHR ''x'' # ?ds) = ?ds"
    by (simp add: skip_prefix_0x_def ds)
  have "\<not> is_space CHR ''0''" by (simp add: is_space_def)
  then show ?thesis
    using False skip by (simp add: stoull_16_def pointer_to_string_def Let_def text_simps)
qed

end
