(* ===== verification/Hdf5.thy ===== *)
theory Hdf5
  imports Cpp_Text
begin

text \<open>
  The HDF5 library as the program sees it, and the wrappers of
  \<open>src/krepe/common/hdf5_utils.hpp\<close>: \<open>check_call\<close>, \<open>check_id\<close> and \<open>ScopedHandle\<close>.

  HDF5 itself is not part of the repository: its entry points are the fields of a record of
  functions on a state \<open>'w\<close> (the library's, opaque), which every definition that calls
  HDF5 takes as an argument.  A handle or a status is an integer, negative on failure.
\<close>

type_synonym hid = int
type_synonym herr = int

section \<open>Arguments and results of the entry points\<close>

datatype h5native = NATIVE_UINT64 | NATIVE_INT | NATIVE_INT64 | NATIVE_UCHAR

text \<open>A datatype argument: a predefined type, or the handle of a copied one.\<close>

datatype h5tid = Predefined h5native | Type_Handle hid

text \<open>The buffer behind a \<open>void*\<close>, with the C++ type of the object it points to.\<close>

datatype h5buf =
  Chars string
| Word64 u64
| Int32 i32
| Int64s "64 word list"
| Uchars "byte list"

text \<open>What \<open>H5LTget_dataset_info\<close> reports of a one-dimensional dataset.\<close>

record h5info =
  info_count :: nat
  info_is_integer :: bool
  info_type_size :: nat

text \<open>
  \<open>H5Literate_by_name\<close> and \<open>H5Aiterate_by_name\<close> open the group at a path, call back for each
  link or attribute in native order, and close the group: \<open>H5Literate_open\<close> is their
  opening, \<open>H5Literate_names\<close> and \<open>H5Aiterate_names\<close> the names they visit.
\<close>

record 'w hdf5 =
  H5Tcopy_c_s1 :: "'w \<Rightarrow> hid \<times> 'w"
  H5Tset_size :: "hid \<Rightarrow> nat \<Rightarrow> 'w \<Rightarrow> herr \<times> 'w"
  H5Tset_strpad_nullterm :: "hid \<Rightarrow> 'w \<Rightarrow> herr \<times> 'w"
  H5Tclose :: "hid \<Rightarrow> 'w \<Rightarrow> herr \<times> 'w"
  H5Screate_scalar :: "'w \<Rightarrow> hid \<times> 'w"
  H5Screate_simple :: "nat \<Rightarrow> 'w \<Rightarrow> hid \<times> 'w"
  H5Sclose :: "hid \<Rightarrow> 'w \<Rightarrow> herr \<times> 'w"
  H5Acreate2 :: "hid \<Rightarrow> string \<Rightarrow> h5tid \<Rightarrow> hid \<Rightarrow> 'w \<Rightarrow> hid \<times> 'w"
  H5Awrite :: "hid \<Rightarrow> h5tid \<Rightarrow> h5buf \<Rightarrow> 'w \<Rightarrow> herr \<times> 'w"
  H5Aopen_by_name :: "hid \<Rightarrow> string \<Rightarrow> string \<Rightarrow> 'w \<Rightarrow> hid \<times> 'w"
  H5Aget_info :: "hid \<Rightarrow> 'w \<Rightarrow> (herr \<times> nat) \<times> 'w"
  H5Aget_type :: "hid \<Rightarrow> 'w \<Rightarrow> hid \<times> 'w"
  H5Aread :: "hid \<Rightarrow> h5tid \<Rightarrow> 'w \<Rightarrow> (herr \<times> h5buf) \<times> 'w"
  H5Aclose :: "hid \<Rightarrow> 'w \<Rightarrow> herr \<times> 'w"
  H5Dcreate2 :: "hid \<Rightarrow> string \<Rightarrow> h5tid \<Rightarrow> hid \<Rightarrow> 'w \<Rightarrow> hid \<times> 'w"
  H5Dwrite :: "hid \<Rightarrow> h5tid \<Rightarrow> h5buf \<Rightarrow> 'w \<Rightarrow> herr \<times> 'w"
  H5Dclose :: "hid \<Rightarrow> 'w \<Rightarrow> herr \<times> 'w"
  H5Gcreate2 :: "hid \<Rightarrow> string \<Rightarrow> 'w \<Rightarrow> hid \<times> 'w"
  H5Gclose :: "hid \<Rightarrow> 'w \<Rightarrow> herr \<times> 'w"
  H5Fcreate_trunc :: "string \<Rightarrow> 'w \<Rightarrow> hid \<times> 'w"
  H5Fopen_rdwr :: "string \<Rightarrow> 'w \<Rightarrow> hid \<times> 'w"
  H5Fopen_rdonly :: "string \<Rightarrow> 'w \<Rightarrow> hid \<times> 'w"
  H5Fclose :: "hid \<Rightarrow> 'w \<Rightarrow> herr \<times> 'w"
  H5LTget_dataset_ndims :: "hid \<Rightarrow> string \<Rightarrow> 'w \<Rightarrow> (herr \<times> int) \<times> 'w"
  H5LTget_dataset_info :: "hid \<Rightarrow> string \<Rightarrow> 'w \<Rightarrow> (herr \<times> h5info) \<times> 'w"
  H5Lexists :: "hid \<Rightarrow> string \<Rightarrow> 'w \<Rightarrow> herr \<times> 'w"
  H5Literate_open :: "hid \<Rightarrow> string \<Rightarrow> 'w \<Rightarrow> hid \<times> 'w"
  H5Literate_names :: "hid \<Rightarrow> 'w \<Rightarrow> string list"
  H5Aiterate_names :: "hid \<Rightarrow> 'w \<Rightarrow> string list"
  H5LTread_dataset :: "hid \<Rightarrow> string \<Rightarrow> h5native \<Rightarrow> 'w \<Rightarrow> (herr \<times> h5buf) \<times> 'w"

section \<open>Checked calls\<close>

text \<open>
  The message of a failed check names the call.  The source location that precedes it is
  left out.
\<close>

definition call_failed :: "string \<Rightarrow> exn" where
  "call_failed expr = Std_Exception (''The call '' @ expr @ '' failed'')"

definition check_call :: "string \<Rightarrow> herr \<Rightarrow> ('w, unit) prog" where
  "check_call expr status = (if 0 \<le> status then done_with () else throw (call_failed expr))"

definition check_id :: "string \<Rightarrow> hid \<Rightarrow> ('w, hid) prog" where
  "check_id expr i = (if 0 \<le> i then done_with i else throw (call_failed expr))"

text \<open>\<open>CHECK_HDF5_CALL(expr)\<close> and \<open>CHECK_HDF5_ID(expr)\<close>: call, then check what it returns.\<close>

definition CHECK_HDF5_CALL :: "string \<Rightarrow> ('w \<Rightarrow> herr \<times> 'w) \<Rightarrow> ('w, unit) prog" where
  "CHECK_HDF5_CALL expr call w = (let (status, w') = call w in check_call expr status w')"

definition CHECK_HDF5_ID :: "string \<Rightarrow> ('w \<Rightarrow> hid \<times> 'w) \<Rightarrow> ('w, hid) prog" where
  "CHECK_HDF5_ID expr call w = (let (i, w') = call w in check_id expr i w')"

text \<open>A checked call with an output parameter, which holds a value only on success.\<close>

definition CHECK_HDF5_OUT :: "string \<Rightarrow> ('w \<Rightarrow> (herr \<times> 'a) \<times> 'w) \<Rightarrow> ('w, 'a) prog" where
  "CHECK_HDF5_OUT expr call w =
     (let ((status, x), w') = call w
      in and_then (check_call expr status) (\<lambda>_. done_with x) w')"

section \<open>Scoped handles\<close>

definition H5I_INVALID_HID :: hid where
  "H5I_INVALID_HID = -1"

text \<open>\<open>ScopedHandle::~ScopedHandle\<close>: the status of the close is ignored.\<close>

definition destroy_handle :: "(hid \<Rightarrow> 'w \<Rightarrow> herr \<times> 'w) \<Rightarrow> hid \<Rightarrow> 'w \<Rightarrow> 'w" where
  "destroy_handle close i w = (if 0 \<le> i then snd (close i w) else w)"

text \<open>\<open>ScopedHandle::close_checked\<close>: the handle it leaves in the object.\<close>

definition close_checked :: "(hid \<Rightarrow> 'w \<Rightarrow> herr \<times> 'w) \<Rightarrow> hid \<Rightarrow> ('w, hid) prog" where
  "close_checked close i =
     (if \<not> 0 \<le> i then done_with i
      else and_then (CHECK_HDF5_CALL ''close_(id)'' (close i)) (\<lambda>_. done_with H5I_INVALID_HID))"

text \<open>
  The pattern every function follows: construct a \<open>ScopedHandle\<close>, run the rest of the
  block, \<open>close_checked()\<close> as the last statement on it, and the destructor on every way
  out.  A close that fails throws with the handle still valid, so the destructor calls it
  again.  Nested blocks are closed and destroyed innermost first, as in the source.
\<close>

definition scoped ::
  "('w, hid) prog \<Rightarrow> (hid \<Rightarrow> 'w \<Rightarrow> herr \<times> 'w) \<Rightarrow> (hid \<Rightarrow> ('w, 'a) prog) \<Rightarrow> ('w, 'a) prog"
where
  "scoped acquire close body =
     and_then acquire (\<lambda>i w.
       case body i w of
         (Inl e, w1) \<Rightarrow> (Inl e, destroy_handle close i w1)
       | (Inr x, w1) \<Rightarrow>
           (case close_checked close i w1 of
              (Inl e, w2) \<Rightarrow> (Inl e, destroy_handle close i w2)
            | (Inr i', w2) \<Rightarrow> (Inr x, destroy_handle close i' w2)))"

section \<open>Running a checked call\<close>

lemma CHECK_HDF5_CALL_Inr:
  "CHECK_HDF5_CALL expr call w = (Inr u, w') \<longleftrightarrow> (\<exists>s. call w = (s, w') \<and> 0 \<le> s)"
  by (auto simp: CHECK_HDF5_CALL_def check_call_def prog_simps split: prod.splits)

lemma CHECK_HDF5_ID_Inr:
  "CHECK_HDF5_ID expr call w = (Inr i, w') \<longleftrightarrow> call w = (i, w') \<and> 0 \<le> i"
  by (auto simp: CHECK_HDF5_ID_def check_id_def prog_simps split: prod.splits)

lemma CHECK_HDF5_OUT_Inr:
  "CHECK_HDF5_OUT expr call w = (Inr x, w') \<longleftrightarrow> (\<exists>s. call w = ((s, x), w') \<and> 0 \<le> s)"
  by (auto simp: CHECK_HDF5_OUT_def check_call_def prog_simps and_then_def split: prod.splits)

lemma scoped_Inr_E:
  assumes "scoped acquire close body w = (Inr x, w')"
    and "\<And>i w1. acquire w = (Inr i, w1) \<Longrightarrow> 0 \<le> i"
  obtains i w1 w2 s where "acquire w = (Inr i, w1)" and "body i w1 = (Inr x, w2)"
    and "close i w2 = (s, w')" and "0 \<le> s"
  using assms
  by (auto simp: scoped_def and_then_def close_checked_def CHECK_HDF5_CALL_def check_call_def
      prog_simps destroy_handle_def H5I_INVALID_HID_def Let_def
      split: prod.splits sum.splits if_splits)

section \<open>The handle discipline\<close>

text \<open>
  The open handles and their kinds, and how a call changes them: it opens a handle of some
  kind (when it succeeds), keeps them, or closes the handle of that kind it is given.
\<close>

datatype h5kind = Type_Kind | Space_Kind | Attribute_Kind | Dataset_Kind | Group_Kind | File_Kind

type_synonym 'w handles = "'w \<Rightarrow> (hid \<rightharpoonup> h5kind)"

definition opens :: "'w handles \<Rightarrow> h5kind \<Rightarrow> ('w \<Rightarrow> hid \<times> 'w) \<Rightarrow> bool" where
  "opens hs k f \<longleftrightarrow> (\<forall>w. let (i, w') = f w in
     if 0 \<le> i then hs w i = None \<and> hs w' = (hs w)(i \<mapsto> k) else hs w' = hs w)"

definition keeps :: "('w \<Rightarrow> 'v) \<Rightarrow> ('w \<Rightarrow> 'r \<times> 'w) \<Rightarrow> bool" where
  "keeps hs f \<longleftrightarrow> (\<forall>w. hs (snd (f w)) = hs w)"

definition closes :: "'w handles \<Rightarrow> h5kind \<Rightarrow> (hid \<Rightarrow> 'w \<Rightarrow> herr \<times> 'w) \<Rightarrow> bool" where
  "closes hs k f \<longleftrightarrow>
     (\<forall>i w. hs w i = Some k \<longrightarrow> 0 \<le> fst (f i w) \<and> hs (snd (f i w)) = (hs w)(i := None))"

text \<open>
  A computation that leaves the open handles (or anything else that is observed of the
  state) as it found them, whatever its outcome.
\<close>

definition balanced :: "('w \<Rightarrow> 'v) \<Rightarrow> ('w, 'a) prog \<Rightarrow> bool" where
  "balanced hs m \<longleftrightarrow> (\<forall>w. hs (snd (m w)) = hs w)"

lemma opensD:
  "opens hs k f \<Longrightarrow> f w = (i, w') \<Longrightarrow> 0 \<le> i \<Longrightarrow> hs w i = None \<and> hs w' = (hs w)(i \<mapsto> k)"
  "opens hs k f \<Longrightarrow> f w = (i, w') \<Longrightarrow> \<not> 0 \<le> i \<Longrightarrow> hs w' = hs w"
  unfolding opens_def by (drule spec [of _ w], simp)+

lemma keepsD: "keeps hs f \<Longrightarrow> f w = (r, w') \<Longrightarrow> hs w' = hs w"
  unfolding keeps_def by (metis snd_conv)

lemma closesD:
  "closes hs k f \<Longrightarrow> f i w = (s, w') \<Longrightarrow> hs w i = Some k \<Longrightarrow> 0 \<le> s \<and> hs w' = (hs w)(i := None)"
  unfolding closes_def by (drule spec [of _ i], drule spec [of _ w]) simp

lemma balancedD: "balanced hs m \<Longrightarrow> m w = (r, w') \<Longrightarrow> hs w' = hs w"
  unfolding balanced_def by (metis snd_conv)

lemma balancedI: "(\<And>w r w'. m w = (r, w') \<Longrightarrow> hs w' = hs w) \<Longrightarrow> balanced hs m"
  unfolding balanced_def by (metis prod.collapse)

named_theorems balanced_rules \<open>computations that leave no handle open\<close>

lemma balanced_done_with [balanced_rules]: "balanced hs (done_with x)"
  by (simp add: balanced_def prog_simps)

lemma balanced_throw [balanced_rules]: "balanced hs (throw e)"
  by (simp add: balanced_def prog_simps)

lemma balanced_and_then [balanced_rules]:
  assumes "balanced hs m" and "\<And>x. balanced hs (f x)"
  shows "balanced hs (and_then m f)"
proof (rule balancedI)
  fix w r w' assume "and_then m f w = (r, w')"
  then show "hs w' = hs w"
    using balancedD [OF assms(1), of w] balancedD [OF assms(2)]
    by (auto simp: and_then_def split: prod.splits sum.splits)
qed

lemma balanced_for_each [balanced_rules]:
  "(\<And>x. balanced hs (f x)) \<Longrightarrow> balanced hs (for_each f xs)"
  by (induction xs) (simp_all add: balanced_rules)

lemma balanced_run_all [balanced_rules]:
  "list_all (balanced hs) ms \<Longrightarrow> balanced hs (run_all ms)"
  by (induction ms) (simp_all add: balanced_rules)

lemma balanced_fold_each [balanced_rules]:
  "(\<And>x s. balanced hs (f x s)) \<Longrightarrow> balanced hs (fold_each f xs s)"
  by (induction xs arbitrary: s) (simp_all add: balanced_rules)

lemma balanced_CHECK_HDF5_CALL [balanced_rules]:
  "keeps hs call \<Longrightarrow> balanced hs (CHECK_HDF5_CALL expr call)"
  by (rule balancedI) (auto simp: CHECK_HDF5_CALL_def check_call_def prog_simps
      split: prod.splits if_splits dest: keepsD)

lemma balanced_CHECK_HDF5_OUT [balanced_rules]:
  "keeps hs call \<Longrightarrow> balanced hs (CHECK_HDF5_OUT expr call)"
  by (rule balancedI) (auto simp: CHECK_HDF5_OUT_def check_call_def prog_simps and_then_def
      split: prod.splits if_splits dest: keepsD)

text \<open>
  An opening and its closing: what is observed after the closing is what was observed
  before the opening, if it did not change in between.  A closing that fails is repeated by
  the destructor.
\<close>

definition brackets :: "('w \<Rightarrow> 'v) \<Rightarrow> ('w \<Rightarrow> hid \<times> 'w) \<Rightarrow> (hid \<Rightarrow> 'w \<Rightarrow> herr \<times> 'w) \<Rightarrow> bool" where
  "brackets obs open_call close \<longleftrightarrow>
     (\<forall>w i w1. open_call w = (i, w1) \<longrightarrow>
        (if 0 \<le> i
         then \<forall>w2 s w3. obs w2 = obs w1 \<longrightarrow> close i w2 = (s, w3) \<longrightarrow>
                obs w3 = obs w \<and> (s < 0 \<longrightarrow> obs (snd (close i w3)) = obs w)
         else obs w1 = obs w))"

lemma bracketsD:
  "brackets obs f close \<Longrightarrow> f w = (i, w1) \<Longrightarrow> \<not> 0 \<le> i \<Longrightarrow> obs w1 = obs w"
  "brackets obs f close \<Longrightarrow> f w = (i, w1) \<Longrightarrow> 0 \<le> i \<Longrightarrow> obs w2 = obs w1 \<Longrightarrow>
     close i w2 = (s, w3) \<Longrightarrow> obs w3 = obs w \<and> (s < 0 \<longrightarrow> obs (snd (close i w3)) = obs w)"
  unfolding brackets_def by (metis (no_types, lifting))+

lemma brackets_handles:
  assumes "opens hs k f" and "closes hs k close"
  shows "brackets hs f close"
  unfolding brackets_def
proof (intro allI impI)
  fix w i w1 assume f: "f w = (i, w1)"
  show "if 0 \<le> i
         then \<forall>w2 s w3. hs w2 = hs w1 \<longrightarrow> close i w2 = (s, w3) \<longrightarrow>
                hs w3 = hs w \<and> (s < 0 \<longrightarrow> hs (snd (close i w3)) = hs w)
         else hs w1 = hs w"
  proof (cases "0 \<le> i")
    case True
    note new = opensD(1) [OF assms(1) f True]
    have "\<forall>w2 s w3. hs w2 = hs w1 \<longrightarrow> close i w2 = (s, w3) \<longrightarrow>
        hs w3 = hs w \<and> (s < 0 \<longrightarrow> hs (snd (close i w3)) = hs w)"
    proof (intro allI impI)
      fix w2 s w3 assume same: "hs w2 = hs w1" and close: "close i w2 = (s, w3)"
      have "hs w2 i = Some k" using same new by simp
      then have "0 \<le> s" and "hs w3 = (hs w2)(i := None)"
        using closesD [OF assms(2) close] by blast+
      moreover have "(hs w2)(i := None) = hs w" using same new by (simp add: fun_upd_idem)
      ultimately have w3: "hs w3 = hs w" by (simp only:)
      have "\<not> s < 0" using \<open>0 \<le> s\<close> by simp
      with w3 show "hs w3 = hs w \<and> (s < 0 \<longrightarrow> hs (snd (close i w3)) = hs w)" by blast
    qed
    then show ?thesis by (rule iffD2 [OF if_P [OF True]])
  next
    case False
    then show ?thesis using opensD(2) [OF assms(1) f] by simp
  qed
qed

lemma brackets_keeps:
  assumes "keeps obs f" and "\<And>i. keeps obs (close i)"
  shows "brackets obs f close"
  using assms unfolding brackets_def keeps_def by (metis snd_conv)

lemma balanced_scoped [balanced_rules]:
  assumes br: "brackets obs call close" and body: "\<And>i. balanced obs (body i)"
  shows "balanced obs (scoped (CHECK_HDF5_ID expr call) close body)"
proof (rule balancedI)
  fix w r w'
  assume run: "scoped (CHECK_HDF5_ID expr call) close body w = (r, w')"
  obtain i w1 where call: "call w = (i, w1)" by (cases "call w")
  show "obs w' = obs w"
  proof (cases "0 \<le> i")
    case False
    then have "w' = w1"
      using run call by (simp add: scoped_def and_then_def CHECK_HDF5_ID_def check_id_def prog_simps)
    then show ?thesis using bracketsD(1) [OF br call False] by simp
  next
    case True
    obtain r' w2 where r': "body i w1 = (r', w2)" by (cases "body i w1")
    obtain s w3 where close: "close i w2 = (s, w3)" by (cases "close i w2")
    have out: "obs w3 = obs w" "s < 0 \<longrightarrow> obs (snd (close i w3)) = obs w"
      using bracketsD(2) [OF br call True balancedD [OF body r'] close] by simp_all
    have "w' = w3 \<or> s < 0 \<and> w' = snd (close i w3)"
      using run True call r' close
      by (cases r') (auto simp: scoped_def and_then_def CHECK_HDF5_ID_def check_id_def
          prog_simps destroy_handle_def close_checked_def CHECK_HDF5_CALL_def check_call_def
          H5I_INVALID_HID_def split: if_splits)
    with out show ?thesis by auto
  qed
qed

text \<open>The same for a handle that only the library holds, during an iteration.\<close>

lemma balanced_held:
  assumes br: "brackets obs call close" and body: "\<And>i w'. balanced obs (body i w')"
    and out: "\<And>i w1 r w2. call w = (i, w1) \<Longrightarrow> 0 \<le> i \<Longrightarrow> body i w1 w1 = (r, w2) \<Longrightarrow>
      w' = destroy_handle close i w2"
    and failed: "\<And>i w1. call w = (i, w1) \<Longrightarrow> \<not> 0 \<le> i \<Longrightarrow> w' = w1"
  shows "obs w' = obs w"
proof -
  obtain i w1 where call: "call w = (i, w1)" by fastforce
  show ?thesis
  proof (cases "0 \<le> i")
    case True
    obtain r w2 where r: "body i w1 w1 = (r, w2)" by fastforce
    obtain s w3 where close: "close i w2 = (s, w3)" by fastforce
    have "w' = w3" using out [OF call True r] True close by (simp add: destroy_handle_def)
    then show ?thesis
      using bracketsD(2) [OF br call True balancedD [OF body r] close] by simp
  next
    case False
    then show ?thesis using failed [OF call] bracketsD(1) [OF br call] by simp
  qed
qed

section \<open>Libraries and what is observed of them\<close>

text \<open>
  An observation that no call changes for good: what an opening does to it the closing
  undoes.  The client's blocks are then balanced.
\<close>

locale hdf5_observed =
  fixes api :: "'w hdf5" and obs :: "'w \<Rightarrow> 'v"
  assumes bracketed_calls:
      "brackets obs (H5Tcopy_c_s1 api) (H5Tclose api)" "brackets obs (H5Screate_scalar api) (H5Sclose api)"
      "brackets obs (H5Screate_simple api n) (H5Sclose api)"
      "brackets obs (H5Acreate2 api l name ty sp) (H5Aclose api)"
      "brackets obs (H5Aopen_by_name api l obj name) (H5Aclose api)"
      "brackets obs (H5Aget_type api a) (H5Tclose api)"
      "brackets obs (H5Dcreate2 api l name ty sp) (H5Dclose api)"
      "brackets obs (H5Gcreate2 api l name) (H5Gclose api)"
      "brackets obs (H5Fcreate_trunc api fn) (H5Fclose api)"
      "brackets obs (H5Fopen_rdwr api fn) (H5Fclose api)"
      "brackets obs (H5Fopen_rdonly api fn) (H5Fclose api)"
      "brackets obs (H5Literate_open api l name) (H5Gclose api)"
    and kept_calls:
      "keeps obs (H5Tset_size api t n)" "keeps obs (H5Tset_strpad_nullterm api t)"
      "keeps obs (H5Awrite api a ty buf)" "keeps obs (H5Aget_info api a)"
      "keeps obs (H5Aread api a ty)" "keeps obs (H5Dwrite api d ty buf)"
      "keeps obs (H5LTget_dataset_ndims api l name)"
      "keeps obs (H5LTget_dataset_info api l name)"
      "keeps obs (H5LTread_dataset api l name nat_ty)" "keeps obs (H5Lexists api l name)"
begin

lemmas balanced_calls =
  balanced_scoped [OF bracketed_calls(1)] balanced_scoped [OF bracketed_calls(2)]
  balanced_scoped [OF bracketed_calls(3)] balanced_scoped [OF bracketed_calls(4)]
  balanced_scoped [OF bracketed_calls(5)] balanced_scoped [OF bracketed_calls(6)]
  balanced_scoped [OF bracketed_calls(7)] balanced_scoped [OF bracketed_calls(8)]
  balanced_scoped [OF bracketed_calls(9)] balanced_scoped [OF bracketed_calls(10)]
  balanced_scoped [OF bracketed_calls(11)]
  balanced_done_with balanced_throw balanced_and_then balanced_for_each
  balanced_run_all balanced_fold_each balanced_CHECK_HDF5_CALL balanced_CHECK_HDF5_OUT kept_calls

end

section \<open>The library as a provider of handles\<close>

text \<open>
  What HDF5 documents of its handles: a successful open or create returns a fresh handle,
  a close of an open handle of the right kind succeeds and releases it, and nothing else
  opens or closes.  The open handles are then an observation of the kind above.
\<close>

locale hdf5_handles =
  fixes api :: "'w hdf5" and hs :: "'w handles"
  assumes opens_calls:
      "opens hs Type_Kind (H5Tcopy_c_s1 api)" "opens hs Space_Kind (H5Screate_scalar api)"
      "opens hs Space_Kind (H5Screate_simple api n)"
      "opens hs Attribute_Kind (H5Acreate2 api l name ty sp)"
      "opens hs Attribute_Kind (H5Aopen_by_name api l obj name)"
      "opens hs Type_Kind (H5Aget_type api a)"
      "opens hs Dataset_Kind (H5Dcreate2 api l name ty sp)"
      "opens hs Group_Kind (H5Gcreate2 api l name)"
      "opens hs File_Kind (H5Fcreate_trunc api fn)" "opens hs File_Kind (H5Fopen_rdwr api fn)"
      "opens hs File_Kind (H5Fopen_rdonly api fn)"
      "opens hs Group_Kind (H5Literate_open api l name)"
    and keeps_calls:
      "keeps hs (H5Tset_size api t n)" "keeps hs (H5Tset_strpad_nullterm api t)"
      "keeps hs (H5Awrite api a ty buf)" "keeps hs (H5Aget_info api a)"
      "keeps hs (H5Aread api a ty)" "keeps hs (H5Dwrite api d ty buf)"
      "keeps hs (H5LTget_dataset_ndims api l name)"
      "keeps hs (H5LTget_dataset_info api l name)"
      "keeps hs (H5LTread_dataset api l name nat_ty)" "keeps hs (H5Lexists api l name)"
    and closes_calls:
      "closes hs Type_Kind (H5Tclose api)" "closes hs Space_Kind (H5Sclose api)"
      "closes hs Attribute_Kind (H5Aclose api)" "closes hs Dataset_Kind (H5Dclose api)"
      "closes hs Group_Kind (H5Gclose api)" "closes hs File_Kind (H5Fclose api)"
begin

lemmas handle_brackets =
  brackets_handles [OF opens_calls(1) closes_calls(1)] brackets_handles [OF opens_calls(2) closes_calls(2)]
  brackets_handles [OF opens_calls(3) closes_calls(2)] brackets_handles [OF opens_calls(4) closes_calls(3)]
  brackets_handles [OF opens_calls(5) closes_calls(3)] brackets_handles [OF opens_calls(6) closes_calls(1)]
  brackets_handles [OF opens_calls(7) closes_calls(4)] brackets_handles [OF opens_calls(8) closes_calls(5)]
  brackets_handles [OF opens_calls(9) closes_calls(6)] brackets_handles [OF opens_calls(10) closes_calls(6)]
  brackets_handles [OF opens_calls(11) closes_calls(6)] brackets_handles [OF opens_calls(12) closes_calls(5)]

end

sublocale hdf5_handles \<subseteq> observed: hdf5_observed api hs
  by unfold_locales (simp_all add: handle_brackets keeps_calls)

context hdf5_handles
begin

lemma is_observed: "hdf5_observed api hs"
  by (rule observed.hdf5_observed_axioms)

end

end
