(* ===== verification/View_Dump.thy ===== *)
theory View_Dump
  imports Memory_Copy Hdf5
begin

text \<open>
  The dump writer (\<open>src/krepe/capture/view_dump.hpp\<close> and \<open>.cpp\<close>): the file name, the
  attributes and datasets, the policy, one group per allocation, the input snapshot with
  metadata, policy and functor, and the output snapshot appended later.
\<close>

section \<open>Data\<close>

record view_dump_result =
  vr_ok :: bool
  vr_filename :: string
  vr_error :: string

record index_type_desc =
  it_size :: u64
  it_signed :: bool

record range_policy_desc =
  rp_index_type :: index_type_desc
  rp_space :: string
  rp_schedule :: string
  rp_begin :: u64
  rp_end :: u64
  rp_chunk_size :: i32

record mdrange_policy_desc =
  mp_index_type :: index_type_desc
  mp_space :: string
  mp_schedule :: string
  mp_rank :: u64
  mp_outer_dir :: string
  mp_inner_dir :: string
  mp_begin :: "64 word list"
  mp_end :: "64 word list"
  mp_tile :: "64 word list"

record team_policy_desc =
  tp_index_type :: index_type_desc
  tp_space :: string
  tp_schedule :: string
  tp_team_size :: i32
  tp_league_size :: i32
  tp_vector_length :: i32
  tp_team_scratch_0 :: i32
  tp_team_scratch_1 :: i32
  tp_thread_scratch_0 :: i32
  tp_thread_scratch_1 :: i32
  tp_chunk_size :: i32

text \<open>\<open>std::variant<NoPolicyDesc, ScalarPolicyDesc, ...>\<close>\<close>

datatype policy_desc =
  No_Policy
| Scalar_Policy u64
| Range_Policy range_policy_desc
| Mdrange_Policy mdrange_policy_desc
| Team_Policy team_policy_desc

section \<open>Names\<close>

definition sanitize_char :: "char \<Rightarrow> char" where
  "sanitize_char c =
     (if is_alnum c \<or> c = CHR ''_'' \<or> c = CHR ''-'' \<or> c = CHR ''.'' then c else CHR ''_'')"

definition sanitize_name :: "string \<Rightarrow> string" where
  "sanitize_name value =
     (let result = List.map sanitize_char value in
      if result = [] then ''unnamed''
      else if length result > 80 then take 80 result
      else result)"

definition dump_filename :: "string \<Rightarrow> u64 \<Rightarrow> string" where
  "dump_filename label kernel_id =
     ''krepe_'' @ sanitize_name label @ ''_'' @ to_string (unat kernel_id) @ ''.h5''"

section \<open>Attributes and datasets\<close>

definition write_string_attribute :: "'w hdf5 \<Rightarrow> hid \<Rightarrow> string \<Rightarrow> string \<Rightarrow> ('w, unit) prog" where
  "write_string_attribute api object name text =
     scoped (CHECK_HDF5_ID ''H5Tcopy'' (H5Tcopy_c_s1 api)) (H5Tclose api) (\<lambda>ty.
       let sz = (if text = [] then 1 else length text + 1) in
       and_then (CHECK_HDF5_CALL ''H5Tset_size'' (H5Tset_size api ty sz)) (\<lambda>_.
       and_then (CHECK_HDF5_CALL ''H5Tset_strpad'' (H5Tset_strpad_nullterm api ty)) (\<lambda>_.
       scoped (CHECK_HDF5_ID ''H5Screate'' (H5Screate_scalar api)) (H5Sclose api) (\<lambda>space.
       scoped (CHECK_HDF5_ID ''H5Acreate2'' (H5Acreate2 api object name (Type_Handle ty) space))
         (H5Aclose api) (\<lambda>attr.
       CHECK_HDF5_CALL ''H5Awrite''
         (H5Awrite api attr (Type_Handle ty) (Chars (text @ [CHR 0x00]))))))))"

definition write_uint64_attribute :: "'w hdf5 \<Rightarrow> hid \<Rightarrow> string \<Rightarrow> u64 \<Rightarrow> ('w, unit) prog" where
  "write_uint64_attribute api object name value =
     scoped (CHECK_HDF5_ID ''H5Screate'' (H5Screate_scalar api)) (H5Sclose api) (\<lambda>space.
     scoped (CHECK_HDF5_ID ''H5Acreate2''
         (H5Acreate2 api object name (Predefined NATIVE_UINT64) space)) (H5Aclose api) (\<lambda>attr.
     CHECK_HDF5_CALL ''H5Awrite'' (H5Awrite api attr (Predefined NATIVE_UINT64) (Word64 value))))"

definition write_int_attribute :: "'w hdf5 \<Rightarrow> hid \<Rightarrow> string \<Rightarrow> i32 \<Rightarrow> ('w, unit) prog" where
  "write_int_attribute api object name value =
     scoped (CHECK_HDF5_ID ''H5Screate'' (H5Screate_scalar api)) (H5Sclose api) (\<lambda>space.
     scoped (CHECK_HDF5_ID ''H5Acreate2''
         (H5Acreate2 api object name (Predefined NATIVE_INT) space)) (H5Aclose api) (\<lambda>attr.
     CHECK_HDF5_CALL ''H5Awrite'' (H5Awrite api attr (Predefined NATIVE_INT) (Int32 value))))"

text \<open>
  \<open>write_dataset<T>\<close>: \<open>Hdf5Datatype<T>\<close> chooses the element type, and an empty vector
  is not written to.
\<close>

definition write_dataset ::
  "'w hdf5 \<Rightarrow> hid \<Rightarrow> string \<Rightarrow> h5native \<Rightarrow> nat \<Rightarrow> h5buf \<Rightarrow> ('w, unit) prog" where
  "write_dataset api grp name datatype count buffer =
     scoped (CHECK_HDF5_ID ''H5Screate_simple'' (H5Screate_simple api count)) (H5Sclose api) (\<lambda>space.
     scoped (CHECK_HDF5_ID ''H5Dcreate2''
         (H5Dcreate2 api grp name (Predefined datatype) space)) (H5Dclose api) (\<lambda>dataset.
     if count \<noteq> 0
     then CHECK_HDF5_CALL ''H5Dwrite'' (H5Dwrite api dataset (Predefined datatype) buffer)
     else done_with ()))"

definition write_byte_dataset :: "'w hdf5 \<Rightarrow> hid \<Rightarrow> string \<Rightarrow> byte list \<Rightarrow> ('w, unit) prog" where
  "write_byte_dataset api grp name data =
     write_dataset api grp name NATIVE_UCHAR (length data) (Uchars data)"

definition write_int64_dataset :: "'w hdf5 \<Rightarrow> hid \<Rightarrow> string \<Rightarrow> 64 word list \<Rightarrow> ('w, unit) prog" where
  "write_int64_dataset api grp name data =
     write_dataset api grp name NATIVE_INT64 (length data) (Int64s data)"

definition in_new_group :: "'w hdf5 \<Rightarrow> hid \<Rightarrow> string \<Rightarrow> (hid \<Rightarrow> ('w, unit) prog) \<Rightarrow> ('w, unit) prog" where
  "in_new_group api loc name body =
     scoped (CHECK_HDF5_ID ''H5Gcreate2'' (H5Gcreate2 api loc name)) (H5Gclose api) body"

section \<open>The policy\<close>

text \<open>Conversions of \<open>bool\<close> and \<open>std::size_t\<close> to \<open>int\<close>.\<close>

definition int_of_bool :: "bool \<Rightarrow> i32" where
  "int_of_bool b = (if b then 1 else 0)"

definition int_of_size :: "u64 \<Rightarrow> i32" where
  "int_of_size n = ucast n"

fun write_policy :: "'w hdf5 \<Rightarrow> hid \<Rightarrow> policy_desc \<Rightarrow> ('w, unit) prog" where
  "write_policy api g No_Policy = write_string_attribute api g ''type'' ''none''"
| "write_policy api g (Scalar_Policy policy_end) = run_all
     [write_string_attribute api g ''type'' ''scalar'',
      write_uint64_attribute api g ''end'' policy_end]"
| "write_policy api g (Range_Policy p) = run_all
     [write_string_attribute api g ''type'' ''range'',
      write_int_attribute api g ''index_type_size'' (int_of_size (it_size (rp_index_type p))),
      write_int_attribute api g ''index_type_signed'' (int_of_bool (it_signed (rp_index_type p))),
      write_string_attribute api g ''space'' (rp_space p),
      write_string_attribute api g ''schedule'' (rp_schedule p),
      write_uint64_attribute api g ''begin'' (rp_begin p),
      write_uint64_attribute api g ''end'' (rp_end p),
      write_int_attribute api g ''chunk_size'' (rp_chunk_size p)]"
| "write_policy api g (Mdrange_Policy p) = run_all
     [write_string_attribute api g ''type'' ''mdrange'',
      write_int_attribute api g ''index_type_size'' (int_of_size (it_size (mp_index_type p))),
      write_int_attribute api g ''index_type_signed'' (int_of_bool (it_signed (mp_index_type p))),
      write_string_attribute api g ''space'' (mp_space p),
      write_string_attribute api g ''schedule'' (mp_schedule p),
      write_int_attribute api g ''rank'' (int_of_size (mp_rank p)),
      write_string_attribute api g ''outer_dir'' (mp_outer_dir p),
      write_string_attribute api g ''inner_dir'' (mp_inner_dir p),
      write_int64_dataset api g ''begin'' (mp_begin p),
      write_int64_dataset api g ''end'' (mp_end p),
      write_int64_dataset api g ''tile'' (mp_tile p)]"
| "write_policy api g (Team_Policy p) = run_all
     [write_string_attribute api g ''type'' ''team'',
      write_int_attribute api g ''index_type_size'' (int_of_size (it_size (tp_index_type p))),
      write_int_attribute api g ''index_type_signed'' (int_of_bool (it_signed (tp_index_type p))),
      write_string_attribute api g ''space'' (tp_space p),
      write_string_attribute api g ''schedule'' (tp_schedule p),
      write_int_attribute api g ''team_size'' (tp_team_size p),
      write_int_attribute api g ''league_size'' (tp_league_size p),
      write_int_attribute api g ''vector_length'' (tp_vector_length p),
      write_int_attribute api g ''team_scratch_0'' (tp_team_scratch_0 p),
      write_int_attribute api g ''team_scratch_1'' (tp_team_scratch_1 p),
      write_int_attribute api g ''thread_scratch_0'' (tp_thread_scratch_0 p),
      write_int_attribute api g ''thread_scratch_1'' (tp_thread_scratch_1 p),
      write_int_attribute api g ''chunk_size'' (tp_chunk_size p)]"

section \<open>Allocations and snapshots\<close>

definition allocation_group_name :: "active_allocation \<Rightarrow> nat \<Rightarrow> string" where
  "allocation_group_name allocation index =
     ''view_'' @ to_string index @ ''_'' @ sanitize_name (ar_label (aa_record allocation))"

definition write_allocation_group ::
  "capture_build \<Rightarrow> capture_env \<Rightarrow> 'w hdf5 \<Rightarrow> hid \<Rightarrow> active_allocation \<Rightarrow> nat \<Rightarrow> ('w, unit) prog"
where
  "write_allocation_group b env api views_group allocation index =
     in_new_group api views_group (allocation_group_name allocation index) (\<lambda>grp.
       let r = aa_record allocation;
           (skip_reason, bytes) = copy_allocation_bytes b env allocation [] in
       run_all
         [write_string_attribute api grp ''label'' (ar_label r),
          write_string_attribute api grp ''space'' (ar_space r),
          write_string_attribute api grp ''ptr'' (pointer_to_string (aa_ptr allocation)),
          write_string_attribute api grp ''p_data'' (pointer_to_string (ar_p_data r)),
          write_uint64_attribute api grp ''size'' (ar_size r),
          write_uint64_attribute api grp ''reported_size'' (ar_reported_size r),
          write_int_attribute api grp ''bytes_dumped'' (int_of_bool (skip_reason = [])),
          (if skip_reason \<noteq> []
           then write_string_attribute api grp ''skip_reason'' skip_reason
           else write_byte_dataset api grp ''bytes'' bytes)])"

definition write_snapshot ::
  "capture_build \<Rightarrow> capture_env \<Rightarrow> 'w hdf5 \<Rightarrow> hid \<Rightarrow> string \<Rightarrow> allocation_snapshot \<Rightarrow> ('w, unit) prog"
where
  "write_snapshot b env api file name s =
     in_new_group api file name (\<lambda>snapshot_group.
       run_all
         [write_uint64_attribute api snapshot_group ''active_allocations''
            (of_nat (length (sn_allocations s))),
          write_uint64_attribute api snapshot_group ''active_bytes'' (sn_active_bytes s),
          in_new_group api snapshot_group ''views'' (\<lambda>views_group.
            for_each (\<lambda>(i, a). write_allocation_group b env api views_group a i)
              (List.enumerate 0 (sn_allocations s)))])"

section \<open>The dump\<close>

definition write_kernel_dump ::
  "capture_build \<Rightarrow> capture_env \<Rightarrow> 'w hdf5 \<Rightarrow> allocation_snapshot \<Rightarrow> byte list \<Rightarrow> byte list \<Rightarrow>
   (string \<times> string) list \<Rightarrow> policy_desc \<Rightarrow> string \<Rightarrow> u64 \<Rightarrow> u64 \<Rightarrow> hid \<Rightarrow> ('w, unit) prog"
where
  "write_kernel_dump b env api s functor_data nvcc_data metadata policy label kernel_id
     kernel_invocation file = run_all
     [write_string_attribute api file ''kernel_label'' label,
      write_uint64_attribute api file ''kernel_id'' kernel_id,
      write_uint64_attribute api file ''kernel_invocation'' kernel_invocation,
      write_snapshot b env api file ''in'' s,
      in_new_group api file ''metadata'' (\<lambda>metadata_group.
        for_each (\<lambda>(key, value). write_string_attribute api metadata_group key value) metadata),
      in_new_group api file ''policy'' (\<lambda>policy_group. write_policy api policy_group policy),
      in_new_group api file ''functor'' (\<lambda>functor_group. run_all
        [write_byte_dataset api functor_group ''functor'' functor_data,
         write_byte_dataset api functor_group ''nvcc_inner_lambda'' nvcc_data])]"

text \<open>
  The two \<open>catch\<close> clauses: the result an exception leaves.  Nothing the writer calls
  asserts.
\<close>

definition dump_result :: "string \<Rightarrow> exn + unit \<Rightarrow> view_dump_result" where
  "dump_result filename outcome =
     (case outcome of
        Inr _ \<Rightarrow> \<lparr>vr_ok = True, vr_filename = filename, vr_error = []\<rparr>
      | Inl (Std_Exception what) \<Rightarrow> \<lparr>vr_ok = False, vr_filename = filename, vr_error = what\<rparr>
      | Inl _ \<Rightarrow>
          \<lparr>vr_ok = False, vr_filename = filename,
           vr_error = ''unknown non-standard exception''\<rparr>)"

text \<open>
  \<open>absolute\<close> stands for \<open>std::filesystem::absolute\<close>, which depends on the process: the
  absolute path, or the message of the error code.
\<close>

definition create_kernel_dump ::
  "capture_build \<Rightarrow> capture_env \<Rightarrow> 'w hdf5 \<Rightarrow> (string \<Rightarrow> string + string) \<Rightarrow> allocation_snapshot \<Rightarrow>
   byte list \<Rightarrow> byte list \<Rightarrow> (string \<times> string) list \<Rightarrow> policy_desc \<Rightarrow> string \<Rightarrow> u64 \<Rightarrow> u64 \<Rightarrow>
   'w \<Rightarrow> view_dump_result \<times> 'w"
where
  "create_kernel_dump b env api absolute s functor_data nvcc_data metadata policy label
     kernel_id kernel_invocation w =
     (let filename = dump_filename label kernel_id in
      case absolute filename of
        Inl message \<Rightarrow>
          (dump_result filename
             (Inl (Std_Exception (''failed to resolve dump path: '' @ message))), w)
      | Inr dump_path \<Rightarrow>
          (let (outcome, w') =
             scoped (CHECK_HDF5_ID ''H5Fcreate'' (H5Fcreate_trunc api dump_path)) (H5Fclose api)
               (write_kernel_dump b env api s functor_data nvcc_data metadata policy label
                  kernel_id kernel_invocation) w
           in (dump_result dump_path outcome, w')))"

definition append_kernel_output ::
  "capture_build \<Rightarrow> capture_env \<Rightarrow> 'w hdf5 \<Rightarrow> allocation_snapshot \<Rightarrow> string \<Rightarrow> 'w \<Rightarrow>
   view_dump_result \<times> 'w"
where
  "append_kernel_output b env api s filename w =
     (let (outcome, w') =
        scoped (CHECK_HDF5_ID ''H5Fopen'' (H5Fopen_rdwr api filename)) (H5Fclose api)
          (\<lambda>file. write_snapshot b env api file ''out'' s) w
      in (dump_result filename outcome, w'))"

section \<open>Facts on names\<close>

definition safe_char :: "char \<Rightarrow> bool" where
  "safe_char c \<longleftrightarrow> is_alnum c \<or> c = CHR ''_'' \<or> c = CHR ''-'' \<or> c = CHR ''.''"

lemma safe_char_sanitize [simp]: "safe_char (sanitize_char c)"
  by (simp add: safe_char_def sanitize_char_def)

lemma sanitize_char_safe: "safe_char c \<Longrightarrow> sanitize_char c = c"
  by (auto simp: safe_char_def sanitize_char_def)

lemma safe_literals:
  "\<forall>c \<in> set ''unnamed''. safe_char c" "\<forall>c \<in> set ''krepe_''. safe_char c"
  "\<forall>c \<in> set ''_''. safe_char c" "\<forall>c \<in> set ''.h5''. safe_char c"
  by code_simp+

lemma sanitize_name_safe: "\<forall>c \<in> set (sanitize_name s). safe_char c"
proof -
  have "\<forall>c \<in> set ''unnamed''. safe_char c" by (fact safe_literals)
  moreover have "safe_char c" if "c \<in> set (take 80 (List.map sanitize_char s))" for c
    using in_set_takeD [OF that] by auto
  ultimately show ?thesis by (auto simp: sanitize_name_def Let_def simp del: take_map)
qed

lemma sanitize_name_length: "0 < length (sanitize_name s) \<and> length (sanitize_name s) \<le> 80"
  by (auto simp: sanitize_name_def Let_def)

lemma sanitize_name_id:
  "s \<noteq> [] \<Longrightarrow> length s \<le> 80 \<Longrightarrow> \<forall>c \<in> set s. safe_char c \<Longrightarrow> sanitize_name s = s"
  by (auto simp: sanitize_name_def Let_def sanitize_char_safe map_idI)

lemma to_string_chars:
  assumes "c \<in> set (to_string n)"
  shows "is_alnum c" and "c \<noteq> CHR ''_''"
proof -
  obtain d where "d < 10" and "c = digit_char d"
    using assms print_base_chars [of 10 c n] by (auto simp: to_string_def)
  then show "is_alnum c" by (simp add: digit_char_alnum)
  then show "c \<noteq> CHR ''_''" by (auto simp: is_alnum_def)
qed

lemma safe_to_string: "\<forall>c \<in> set (to_string n). safe_char c"
  using to_string_chars(1) by (simp add: safe_char_def)

lemma is_alnum_not_slash: "safe_char c \<Longrightarrow> c \<noteq> CHR ''/'' \<and> c \<noteq> CHR 0x00"
  by (auto simp: safe_char_def is_alnum_def)

text \<open>A separator that the last field does not contain splits a name in one way.\<close>

lemma last_field_unique:
  assumes "xs @ c # ds = ys @ c # es" and "c \<notin> set ds" and "c \<notin> set es"
  shows "ds = es" and "xs = ys"
proof -
  have "\<forall>x \<in> set (rev ds). x \<noteq> c" and "\<forall>x \<in> set (rev es). x \<noteq> c"
    using assms(2,3) by auto
  then have "takeWhile (\<lambda>x. x \<noteq> c) (rev ds @ c # rev xs) = rev ds"
    and "takeWhile (\<lambda>x. x \<noteq> c) (rev es @ c # rev ys) = rev es"
    by (simp_all add: takeWhile_append2 takeWhile_tail)
  moreover have "rev ds @ c # rev xs = rev es @ c # rev ys"
    using arg_cong [OF assms(1), of rev] by simp
  ultimately show "ds = es" by simp
  with assms(1) show "xs = ys" by simp
qed

lemma no_underscore_to_string: "CHR ''_'' \<notin> set (to_string n)"
  using to_string_chars by blast

lemma dump_filename_inj:
  assumes "dump_filename l k = dump_filename l' k'"
  shows "k = k'" and "sanitize_name l = sanitize_name l'"
proof -
  have eq: "sanitize_name l @ CHR ''_'' # to_string (unat k) =
      sanitize_name l' @ CHR ''_'' # to_string (unat k')"
    using assms by (simp add: dump_filename_def)
  note u = last_field_unique [OF eq no_underscore_to_string no_underscore_to_string]
  then show "k = k'" and "sanitize_name l = sanitize_name l'"
    by (simp_all add: word_unat_eq_iff)
qed

lemma allocation_group_name_inj:
  assumes "allocation_group_name a i = allocation_group_name a' j"
  shows "i = j"
proof -
  have split: "takeWhile (\<lambda>c. c \<noteq> CHR ''_'') (ds @ CHR ''_'' # rest) = ds"
    if "CHR ''_'' \<notin> set ds" for ds rest
  proof -
    have "\<forall>x \<in> set ds. x \<noteq> CHR ''_''" using that by auto
    then show ?thesis by (simp add: takeWhile_append2 takeWhile_tail)
  qed
  have "to_string i @ CHR ''_'' # sanitize_name (ar_label (aa_record a)) =
      to_string j @ CHR ''_'' # sanitize_name (ar_label (aa_record a'))"
    using assms by (simp add: allocation_group_name_def)
  then have "to_string i = to_string j"
    using split [OF no_underscore_to_string] by metis
  then show ?thesis by simp
qed

section \<open>Properties\<close>



end
