(* ===== verification/Kokkos_Hooks.thy ===== *)
theory Kokkos_Hooks
  imports View_Dump
begin

text \<open>
  The Kokkos Tools hooks (\<open>src/krepe/capture/kokkos_hooks.cpp\<close>): the state of the tool,
  the handlers Kokkos calls when kernels begin and end and when data is allocated and
  released, and the entry points the extractor calls.  Every handler is a function on the
  state; the locks make the sections they guard atomic.
\<close>

section \<open>State\<close>

record kernel_state =
  ks_device_id :: "32 word"
  ks_invocation :: u64
  ks_dump_path :: string

text \<open>
  \<open>world\<close> is what lies outside the tool: the HDF5 library with its files, the devices and
  process memory.  \<open>log\<close> holds the lines written to the standard error stream.
\<close>

record 'w hooks =
  next_kernel_id :: u64
  kernel_states :: "u64 \<rightharpoonup> kernel_state"
  kernel_invocations :: "string \<rightharpoonup> u64"
  tool_fence :: "(32 word \<Rightarrow> 'w \<Rightarrow> 'w) option"
  tracker_of :: allocation_tracker
  functor_data :: "byte list"
  nvcc_inner_lambda_data :: "byte list"
  metadata_of :: "(string \<times> string) list"
  policy_of :: policy_desc
  dump_kernel_label :: string
  dump_kernel_invocation :: "u64 option"
  log :: "string list"
  world :: 'w

definition initial_hooks :: "'w \<Rightarrow> 'w hooks" where
  "initial_hooks w =
     \<lparr>next_kernel_id = 1, kernel_states = Map.empty, kernel_invocations = Map.empty,
      tool_fence = None, tracker_of = empty_tracker, functor_data = [],
      nvcc_inner_lambda_data = [], metadata_of = [], policy_of = No_Policy,
      dump_kernel_label = [], dump_kernel_invocation = Some 1, log = [], world = w\<rparr>"

text \<open>
  What the tool relies on: the build, the HDF5 library, the file system, the machine in a
  given world, and the queries for the bounds of an allocation (\<open>malloc_usable_size\<close>, and
  the CUDA and HIP range attributes, each of which may fail).
\<close>

record 'w capture_context =
  cx_build :: capture_build
  cx_api :: "'w hdf5"
  cx_absolute :: "string \<Rightarrow> string + string"
  cx_machine :: "'w \<Rightarrow> capture_env"
  cx_malloc_usable_size :: "'w \<Rightarrow> addr \<Rightarrow> u64"
  cx_cuda_range :: "'w \<Rightarrow> addr \<Rightarrow> addr option \<times> u64 option"
  cx_hip_range :: "'w \<Rightarrow> addr \<Rightarrow> addr option \<times> u64 option"

section \<open>Labels and selection\<close>

text \<open>A \<open>const char*\<close> that may be null is an \<open>option\<close>.\<close>

definition label_or_unknown :: "string option \<Rightarrow> string" where
  "label_or_unknown label = (case label of Some s \<Rightarrow> s | None \<Rightarrow> ''<unknown>'')"

definition is_internal_label :: "string \<Rightarrow> bool" where
  "is_internal_label label \<longleftrightarrow>
     starts_with label ''Kokkos::'' \<or> starts_with label ''HostSpace::'' \<or>
     starts_with label ''CudaSpace::'' \<or> starts_with label ''HIPSpace::'' \<or>
     starts_with label ''SYCLSpace::'' \<or> starts_with label ''OpenACCSpace::'' \<or>
     starts_with label ''NextSiliconSpace::'' \<or> starts_with label ''KOKKOS_'' \<or>
     starts_with label ''kokkos.''"

text \<open>The first bytes of a fixed-size character array, up to the terminator if there is one.\<close>

definition bounded_string :: "string option \<Rightarrow> nat \<Rightarrow> string" where
  "bounded_string value max_size =
     (case value of
        None \<Rightarrow> ''<null>''
      | Some chars \<Rightarrow> takeWhile (\<lambda>c. c \<noteq> CHR 0x00) (take max_size chars))"

definition space_name :: "string \<Rightarrow> string" where
  "space_name handle_name = bounded_string (Some handle_name) (length handle_name)"

definition should_dump_views_for_label :: "'w hooks \<Rightarrow> string \<Rightarrow> bool" where
  "should_dump_views_for_label h label \<longleftrightarrow>
     dump_kernel_label h \<noteq> [] \<and> label = dump_kernel_label h"

definition should_dump_views_for_invocation :: "'w hooks \<Rightarrow> string \<Rightarrow> u64 \<Rightarrow> bool" where
  "should_dump_views_for_invocation h label invocation \<longleftrightarrow>
     dump_kernel_invocation h \<noteq> None \<and>
     should_dump_views_for_label h label \<and>
     dump_kernel_invocation h = Some invocation"

definition parse_positive_uint64 :: "string \<Rightarrow> u64 option" where
  "parse_positive_uint64 value =
     (case from_chars value of
        Parsed parsed rest \<Rightarrow> if rest \<noteq> [] \<or> parsed = 0 then None else Some parsed
      | _ \<Rightarrow> None)"

section \<open>Logging\<close>

definition log_line :: "string list \<Rightarrow> 'w hooks \<Rightarrow> 'w hooks" where
  "log_line parts h = h\<lparr>log := log h @ [''[krepe-capture] '' @ concat parts]\<rparr>"

definition show_u64 :: "u64 \<Rightarrow> string" where
  "show_u64 n = to_string (unat n)"

definition log_dump_failure ::
  "string \<Rightarrow> view_dump_result \<Rightarrow> u64 \<Rightarrow> u64 \<Rightarrow> 'w hooks \<Rightarrow> 'w hooks" where
  "log_dump_failure phase result kernel_id invocation =
     log_line [''dump_failed phase='', phase, '' path=\"'', vr_filename result,
       ''\" kernel_id='', show_u64 kernel_id, '' invocation='', show_u64 invocation,
       '' error=\"'', vr_error result, ''\"'']"

section \<open>The bounds of an allocation\<close>

definition should_track_allocation :: "string option \<Rightarrow> addr \<Rightarrow> bool" where
  "should_track_allocation label ptr \<longleftrightarrow>
     ptr \<noteq> nullptr \<and> \<not> is_internal_label (label_or_unknown label)"

definition allocation_data_pointer :: "capture_build \<Rightarrow> addr \<Rightarrow> addr" where
  "allocation_data_pointer b ptr = ptr + allocation_header_size b"

definition host_allocation_size :: "'w capture_context \<Rightarrow> 'w \<Rightarrow> addr \<Rightarrow> u64" where
  "host_allocation_size cx w ptr =
     (if on_linux (cx_build cx) then cx_malloc_usable_size cx w ptr else 0)"

definition validated_data_size :: "addr \<Rightarrow> u64 \<Rightarrow> addr \<Rightarrow> u64 \<Rightarrow> u64 option" where
  "validated_data_size allocation_base allocation_size data_ptr reported_size =
     (if data_ptr < allocation_base then None
      else
        let offset = data_ptr - allocation_base in
        if offset > allocation_size then None
        else if offset = allocation_size then Some 0
        else
          let available = allocation_size - offset in
          Some (if available \<ge> reported_size then reported_size else 0))"

definition is_cuda_pointer_attribute_space :: "string \<Rightarrow> bool" where
  "is_cuda_pointer_attribute_space space \<longleftrightarrow>
     space = ''Cuda'' \<or> space = ''CudaUVM'' \<or> space = ''CudaHostPinned''"

definition is_hip_pointer_attribute_space :: "string \<Rightarrow> bool" where
  "is_hip_pointer_attribute_space space \<longleftrightarrow>
     space = ''HIP'' \<or> space = ''HIPManaged'' \<or> space = ''HIPHostPinned''"

definition is_host_space :: "string \<Rightarrow> bool" where
  "is_host_space space = (space = ''Host'')"

definition allocation_data_size ::
  "'w capture_context \<Rightarrow> 'w \<Rightarrow> string \<Rightarrow> addr \<Rightarrow> addr \<Rightarrow> u64 \<Rightarrow> u64 option" where
  "allocation_data_size cx w space ptr data_ptr reported_size =
     (let b = cx_build cx;
          host = (if is_host_space space
                  then let allocation_size = host_allocation_size cx w ptr in
                       if allocation_size \<noteq> 0
                       then validated_data_size ptr allocation_size data_ptr reported_size
                       else None
                  else None);
          hip = (if enable_hip_dump b \<and> is_hip_pointer_attribute_space space
                 then case cx_hip_range cx w ptr of
                        (Some base, Some sz) \<Rightarrow> validated_data_size base sz data_ptr reported_size
                      | _ \<Rightarrow> host
                 else host);
          cuda = (if enable_cuda_dump b \<and> is_cuda_pointer_attribute_space space
                  then case cx_cuda_range cx w ptr of
                         (Some base, Some sz) \<Rightarrow> validated_data_size base sz data_ptr reported_size
                       | _ \<Rightarrow> hip
                  else hip)
      in if reported_size \<noteq> allocation_header_size b then Some reported_size else cuda)"

section \<open>Dumping the input and the output\<close>

definition dump_input_views ::
  "'w capture_context \<Rightarrow> string \<Rightarrow> u64 \<Rightarrow> u64 \<Rightarrow> 'w hooks \<Rightarrow> view_dump_result \<times> 'w hooks" where
  "dump_input_views cx label kernel_id invocation h =
     (let (s, tr) = snapshot (has_compiler_plugins (cx_build cx)) (tracker_of h);
          (result, w') =
            create_kernel_dump (cx_build cx) (cx_machine cx (world h)) (cx_api cx)
              (cx_absolute cx) s (functor_data h) (nvcc_inner_lambda_data h) (metadata_of h)
              (policy_of h) label kernel_id invocation (world h);
          h' = h\<lparr>tracker_of := tr, world := w'\<rparr>
      in (result,
          if vr_ok result then h' else log_dump_failure ''in'' result kernel_id invocation h'))"

definition dump_output_views ::
  "'w capture_context \<Rightarrow> string \<Rightarrow> u64 \<Rightarrow> u64 \<Rightarrow> 'w hooks \<Rightarrow> 'w hooks" where
  "dump_output_views cx dump_path kernel_id invocation h =
     (let (s, tr) = snapshot (has_compiler_plugins (cx_build cx)) (tracker_of h);
          (result, w') =
            append_kernel_output (cx_build cx) (cx_machine cx (world h)) (cx_api cx) s dump_path
              (world h);
          h' = h\<lparr>tracker_of := tr, world := w'\<rparr>
      in if vr_ok result
         then log_line [''capture_finished path=\"'', vr_filename result,
                ''\" kernel_id='', show_u64 kernel_id, '' invocation='', show_u64 invocation,
                '' active_allocations='', to_string (length (sn_allocations s)),
                '' active_bytes='', show_u64 (sn_active_bytes s)] h'
         else log_dump_failure ''out'' result kernel_id invocation h')"

definition call_fence :: "32 word \<Rightarrow> 'w hooks \<Rightarrow> 'w hooks" where
  "call_fence device_id h =
     (case tool_fence h of None \<Rightarrow> h | Some fence \<Rightarrow> h\<lparr>world := fence device_id (world h)\<rparr>)"

section \<open>Kernels\<close>

definition invocations :: "'w hooks \<Rightarrow> string \<Rightarrow> u64" where
  "invocations h label = (case kernel_invocations h label of None \<Rightarrow> 0 | Some n \<Rightarrow> n)"

text \<open>
  \<open>begin_kernel\<close>, in the order of the source: take an id; under the lock, count the
  invocation, decide, and record the kernel; then, if it is the selected one, log, fence,
  dump, and under the lock again store the file name.  The id is also the value written
  through \<open>kernel_id\<close>.
\<close>

definition register_kernel ::
  "string \<Rightarrow> 32 word \<Rightarrow> u64 \<Rightarrow> 'w hooks \<Rightarrow> (u64 \<times> bool) \<times> 'w hooks" where
  "register_kernel kernel_label device_id kid h =
     (let invocation = invocations h kernel_label + 1;
          h' = h\<lparr>kernel_invocations := (kernel_invocations h)(kernel_label \<mapsto> invocation)\<rparr>;
          dump_this_kernel = should_dump_views_for_invocation h' kernel_label invocation
      in ((invocation, dump_this_kernel),
          h'\<lparr>kernel_states := (kernel_states h')(kid \<mapsto>
               \<lparr>ks_device_id = device_id, ks_invocation = invocation, ks_dump_path = []\<rparr>)\<rparr>))"

definition store_dump_path :: "u64 \<Rightarrow> view_dump_result \<Rightarrow> 'w hooks \<Rightarrow> 'w hooks" where
  "store_dump_path kid result h =
     (case kernel_states h kid of
        None \<Rightarrow> h
      | Some k \<Rightarrow>
          if vr_ok result
          then h\<lparr>kernel_states := (kernel_states h)(kid \<mapsto> k\<lparr>ks_dump_path := vr_filename result\<rparr>)\<rparr>
          else h)"

definition begin_kernel ::
  "'w capture_context \<Rightarrow> string option \<Rightarrow> 32 word \<Rightarrow> 'w hooks \<Rightarrow> u64 \<times> 'w hooks" where
  "begin_kernel cx label device_id h =
     (let kid = next_kernel_id h;
          h0 = h\<lparr>next_kernel_id := kid + 1\<rparr>;
          kernel_label = label_or_unknown label;
          ((invocation, dump_this_kernel), h1) = register_kernel kernel_label device_id kid h0
      in if dump_this_kernel
         then
           let h2 = log_line [''capture_started label=\"'', kernel_label,
                      ''\" invocation='', show_u64 invocation, '' kernel_id='', show_u64 kid] h1;
               h3 = call_fence device_id h2;
               (result, h4) = dump_input_views cx kernel_label kid invocation h3
           in (kid, store_dump_path kid result h4)
         else (kid, h1))"

definition end_kernel :: "'w capture_context \<Rightarrow> u64 \<Rightarrow> 'w hooks \<Rightarrow> 'w hooks" where
  "end_kernel cx kernel_id h =
     (case kernel_states h kernel_id of
        None \<Rightarrow> h
      | Some k \<Rightarrow>
          let h' = h\<lparr>kernel_states := (kernel_states h)(kernel_id := None)\<rparr> in
          if ks_dump_path k \<noteq> []
          then dump_output_views cx (ks_dump_path k) kernel_id (ks_invocation k)
                 (call_fence (ks_device_id k) h')
          else h')"

section \<open>The entry points of the extractor\<close>

definition krepe_kernel_dump_add_metadata :: "string \<Rightarrow> string \<Rightarrow> 'w hooks \<Rightarrow> 'w hooks" where
  "krepe_kernel_dump_add_metadata key value h =
     h\<lparr>metadata_of := AList.update key value (metadata_of h)\<rparr>"

definition krepe_kernel_dump_copy_functor :: "byte list \<Rightarrow> 'w hooks \<Rightarrow> 'w hooks" where
  "krepe_kernel_dump_copy_functor data h =
     h\<lparr>functor_data := data, nvcc_inner_lambda_data := []\<rparr>"

definition krepe_kernel_dump_copy_nvcc_lambda ::
  "byte list \<Rightarrow> byte list \<Rightarrow> 'w hooks \<Rightarrow> 'w hooks" where
  "krepe_kernel_dump_copy_nvcc_lambda data inner_functor_data h =
     h\<lparr>functor_data := data, nvcc_inner_lambda_data := inner_functor_data\<rparr>"

definition krepe_kernel_dump_register_scalar_policy :: "u64 \<Rightarrow> 'w hooks \<Rightarrow> 'w hooks" where
  "krepe_kernel_dump_register_scalar_policy n h = h\<lparr>policy_of := Scalar_Policy n\<rparr>"

definition krepe_kernel_dump_register_range_policy ::
  "string \<Rightarrow> string \<Rightarrow> u64 \<Rightarrow> bool \<Rightarrow> u64 \<Rightarrow> u64 \<Rightarrow> i32 \<Rightarrow> 'w hooks \<Rightarrow> 'w hooks" where
  "krepe_kernel_dump_register_range_policy space schedule index_type_size index_type_signed
     lower upper chunk_size h =
     h\<lparr>policy_of := Range_Policy
         \<lparr>rp_index_type = \<lparr>it_size = index_type_size, it_signed = index_type_signed\<rparr>,
          rp_space = space, rp_schedule = schedule, rp_begin = lower, rp_end = upper,
          rp_chunk_size = chunk_size\<rparr>\<rparr>"

text \<open>The arrays \<open>begin\<close>, \<open>end\<close>, \<open>tile\<close> are read for \<open>rank\<close> elements.\<close>

definition krepe_kernel_dump_register_mdrange_policy ::
  "string \<Rightarrow> string \<Rightarrow> u64 \<Rightarrow> string \<Rightarrow> string \<Rightarrow> u64 \<Rightarrow> bool \<Rightarrow> 64 word list \<Rightarrow> 64 word list \<Rightarrow>
   64 word list \<Rightarrow> 'w hooks \<Rightarrow> 'w hooks" where
  "krepe_kernel_dump_register_mdrange_policy space schedule rank outer_dir inner_dir
     index_type_size index_type_signed lower upper tile h =
     h\<lparr>policy_of := Mdrange_Policy
         \<lparr>mp_index_type = \<lparr>it_size = index_type_size, it_signed = index_type_signed\<rparr>,
          mp_space = space, mp_schedule = schedule, mp_rank = rank, mp_outer_dir = outer_dir,
          mp_inner_dir = inner_dir, mp_begin = take (unat rank) lower,
          mp_end = take (unat rank) upper, mp_tile = take (unat rank) tile\<rparr>\<rparr>"

definition krepe_kernel_dump_register_team_policy ::
  "string \<Rightarrow> string \<Rightarrow> u64 \<Rightarrow> bool \<Rightarrow> i32 \<Rightarrow> i32 \<Rightarrow> i32 \<Rightarrow> i32 \<Rightarrow> i32 \<Rightarrow> i32 \<Rightarrow> i32 \<Rightarrow> i32 \<Rightarrow>
   'w hooks \<Rightarrow> 'w hooks" where
  "krepe_kernel_dump_register_team_policy space schedule index_type_size index_type_signed
     team_size league_size vector_length team_scratch_0 team_scratch_1 thread_scratch_0
     thread_scratch_1 chunk_size h =
     h\<lparr>policy_of := Team_Policy
         \<lparr>tp_index_type = \<lparr>it_size = index_type_size, it_signed = index_type_signed\<rparr>,
          tp_space = space, tp_schedule = schedule, tp_team_size = team_size,
          tp_league_size = league_size, tp_vector_length = vector_length,
          tp_team_scratch_0 = team_scratch_0, tp_team_scratch_1 = team_scratch_1,
          tp_thread_scratch_0 = thread_scratch_0, tp_thread_scratch_1 = thread_scratch_1,
          tp_chunk_size = chunk_size\<rparr>\<rparr>"

text \<open>\<open>operator[]\<close> of the map leaves a zero entry for a label that has none.\<close>

definition krepe_kernel_dump_next_invocation_will_dump ::
  "string \<Rightarrow> 'w hooks \<Rightarrow> bool \<times> 'w hooks" where
  "krepe_kernel_dump_next_invocation_will_dump kernel_name h =
     (let h' = h\<lparr>kernel_invocations :=
                   (kernel_invocations h)(kernel_name \<mapsto> invocations h kernel_name)\<rparr>
      in (should_dump_views_for_invocation h' kernel_name (invocations h' kernel_name + 1), h'))"

definition krepe_kernel_dump_clear_registered_views :: "'w hooks \<Rightarrow> 'w hooks" where
  "krepe_kernel_dump_clear_registered_views h =
     h\<lparr>tracker_of := clear_used_allocations (tracker_of h)\<rparr>"

definition krepe_kernel_dump_register_view :: "addr \<Rightarrow> string \<Rightarrow> 'w hooks \<Rightarrow> 'w hooks" where
  "krepe_kernel_dump_register_view data space h =
     h\<lparr>tracker_of := record_used_allocation space data (tracker_of h)\<rparr>"

section \<open>The entry points of Kokkos\<close>

text \<open>The three kinds of kernels share their handlers.\<close>

definition kokkosp_begin_parallel_for ::
  "'w capture_context \<Rightarrow> string option \<Rightarrow> 32 word \<Rightarrow> 'w hooks \<Rightarrow> u64 \<times> 'w hooks" where
  "kokkosp_begin_parallel_for cx label device_id h = begin_kernel cx label device_id h"

definition kokkosp_end_parallel_for :: "'w capture_context \<Rightarrow> u64 \<Rightarrow> 'w hooks \<Rightarrow> 'w hooks" where
  "kokkosp_end_parallel_for cx kernel_id h = end_kernel cx kernel_id h"

definition kokkosp_begin_parallel_reduce ::
  "'w capture_context \<Rightarrow> string option \<Rightarrow> 32 word \<Rightarrow> 'w hooks \<Rightarrow> u64 \<times> 'w hooks" where
  "kokkosp_begin_parallel_reduce cx label device_id h = begin_kernel cx label device_id h"

definition kokkosp_end_parallel_reduce :: "'w capture_context \<Rightarrow> u64 \<Rightarrow> 'w hooks \<Rightarrow> 'w hooks" where
  "kokkosp_end_parallel_reduce cx kernel_id h = end_kernel cx kernel_id h"

definition kokkosp_begin_parallel_scan ::
  "'w capture_context \<Rightarrow> string option \<Rightarrow> 32 word \<Rightarrow> 'w hooks \<Rightarrow> u64 \<times> 'w hooks" where
  "kokkosp_begin_parallel_scan cx label device_id h = begin_kernel cx label device_id h"

definition kokkosp_end_parallel_scan :: "'w capture_context \<Rightarrow> u64 \<Rightarrow> 'w hooks \<Rightarrow> 'w hooks" where
  "kokkosp_end_parallel_scan cx kernel_id h = end_kernel cx kernel_id h"

definition dump_kernel_label_option :: string where
  "dump_kernel_label_option = ''--krepe-dump-kernel-label=''"

definition dump_kernel_invocation_option :: string where
  "dump_kernel_invocation_option = ''--krepe-dump-kernel-invocation=''"

definition parse_arg :: "string option \<Rightarrow> 'w hooks \<Rightarrow> 'w hooks" where
  "parse_arg arg h =
     (let argument = (case arg of Some a \<Rightarrow> a | None \<Rightarrow> []) in
      if starts_with argument dump_kernel_label_option
      then h\<lparr>dump_kernel_label := drop (length dump_kernel_label_option) argument\<rparr>
      else if starts_with argument dump_kernel_invocation_option
      then
        let value = drop (length dump_kernel_invocation_option) argument;
            h' = h\<lparr>dump_kernel_invocation := parse_positive_uint64 value\<rparr>
        in if dump_kernel_invocation h' = None
           then log_line [''invalid '', dump_kernel_invocation_option, '' value=\"'', value,
                  ''\"; expected a positive integer''] h'
           else h'
      else h)"

definition kokkosp_parse_args :: "string option list \<Rightarrow> 'w hooks \<Rightarrow> 'w hooks" where
  "kokkosp_parse_args argv h = fold parse_arg argv h"

definition kokkosp_allocate_data ::
  "'w capture_context \<Rightarrow> string \<Rightarrow> string option \<Rightarrow> addr \<Rightarrow> u64 \<Rightarrow> 'w hooks \<Rightarrow> 'w hooks" where
  "kokkosp_allocate_data cx handle_name label ptr sz h =
     (let allocation_label = label_or_unknown label;
          allocation_space = space_name handle_name in
      if should_track_allocation label ptr
      then
        let p_data = allocation_data_pointer (cx_build cx) ptr;
            data_size = allocation_data_size cx (world h) allocation_space ptr p_data sz;
            tracked_size = (case data_size of None \<Rightarrow> 0 | Some n \<Rightarrow> n)
        in h\<lparr>tracker_of := record_allocation allocation_label allocation_space ptr p_data
               tracked_size sz (data_size \<noteq> None) (tracker_of h)\<rparr>
      else h)"

definition kokkosp_deallocate_data :: "string \<Rightarrow> addr \<Rightarrow> 'w hooks \<Rightarrow> 'w hooks" where
  "kokkosp_deallocate_data handle_name ptr h =
     (let deallocation_space = space_name handle_name in
      if ptr \<noteq> nullptr
      then h\<lparr>tracker_of := record_deallocation deallocation_space ptr (tracker_of h)\<rparr>
      else h)"

definition kokkosp_provide_tool_programming_interface ::
  "(32 word \<Rightarrow> 'w \<Rightarrow> 'w) option \<Rightarrow> 'w hooks \<Rightarrow> 'w hooks" where
  "kokkosp_provide_tool_programming_interface fence h = h\<lparr>tool_fence := fence\<rparr>"

text \<open>The value written to \<open>settings->requires_global_fencing\<close>, if there is a place for it.\<close>

definition kokkosp_request_tool_settings :: "bool option \<Rightarrow> bool option" where
  "kokkosp_request_tool_settings settings =
     (case settings of None \<Rightarrow> None | Some _ \<Rightarrow> Some False)"

section \<open>Histories\<close>

text \<open>
  What can happen to the tool, in the order the calls take effect.  \<open>World_Changes\<close> is
  everything else the application does: it may change the world, not the tool's state.
\<close>

datatype 'w hook_event =
  Begin_Kernel "string option" "32 word"
| End_Kernel u64
| Allocate_Data string "string option" addr u64
| Deallocate_Data string addr
| Parse_Args "string option list"
| Provide_Interface "(32 word \<Rightarrow> 'w \<Rightarrow> 'w) option"
| Add_Metadata string string
| Copy_Functor "byte list"
| Copy_Nvcc_Lambda "byte list" "byte list"
| Register_Scalar_Policy u64
| Register_Range_Policy string string u64 bool u64 u64 i32
| Register_Mdrange_Policy string string u64 string string u64 bool "64 word list" "64 word list"
    "64 word list"
| Register_Team_Policy string string u64 bool i32 i32 i32 i32 i32 i32 i32 i32
| Will_Dump string
| Clear_Views
| Register_View addr string
| World_Changes "'w \<Rightarrow> 'w"

fun hook_step :: "'w capture_context \<Rightarrow> 'w hook_event \<Rightarrow> 'w hooks \<Rightarrow> 'w hooks" where
  "hook_step cx (Begin_Kernel label device_id) h = snd (kokkosp_begin_parallel_for cx label device_id h)"
| "hook_step cx (End_Kernel kernel_id) h = kokkosp_end_parallel_for cx kernel_id h"
| "hook_step cx (Allocate_Data space label ptr sz) h = kokkosp_allocate_data cx space label ptr sz h"
| "hook_step cx (Deallocate_Data space ptr) h = kokkosp_deallocate_data space ptr h"
| "hook_step cx (Parse_Args argv) h = kokkosp_parse_args argv h"
| "hook_step cx (Provide_Interface fence) h = kokkosp_provide_tool_programming_interface fence h"
| "hook_step cx (Add_Metadata key value) h = krepe_kernel_dump_add_metadata key value h"
| "hook_step cx (Copy_Functor data) h = krepe_kernel_dump_copy_functor data h"
| "hook_step cx (Copy_Nvcc_Lambda data inner) h = krepe_kernel_dump_copy_nvcc_lambda data inner h"
| "hook_step cx (Register_Scalar_Policy n) h = krepe_kernel_dump_register_scalar_policy n h"
| "hook_step cx (Register_Range_Policy sp sch sz sg lo up ch) h =
     krepe_kernel_dump_register_range_policy sp sch sz sg lo up ch h"
| "hook_step cx (Register_Mdrange_Policy sp sch rk od idir sz sg lo up ti) h =
     krepe_kernel_dump_register_mdrange_policy sp sch rk od idir sz sg lo up ti h"
| "hook_step cx (Register_Team_Policy sp sch sz sg ts ls vl t0 t1 h0 h1 ch) h =
     krepe_kernel_dump_register_team_policy sp sch sz sg ts ls vl t0 t1 h0 h1 ch h"
| "hook_step cx (Will_Dump label) h = snd (krepe_kernel_dump_next_invocation_will_dump label h)"
| "hook_step cx Clear_Views h = krepe_kernel_dump_clear_registered_views h"
| "hook_step cx (Register_View data space) h = krepe_kernel_dump_register_view data space h"
| "hook_step cx (World_Changes f) h = h\<lparr>world := f (world h)\<rparr>"

definition hook_run :: "'w capture_context \<Rightarrow> 'w hook_event list \<Rightarrow> 'w hooks \<Rightarrow> 'w hooks" where
  "hook_run cx es h = fold (hook_step cx) es h"

lemma hook_run_simps [simp]:
  "hook_run cx [] h = h"
  "hook_run cx (e # es) h = hook_run cx es (hook_step cx e h)"
  "hook_run cx (es @ fs) h = hook_run cx fs (hook_run cx es h)"
  by (simp_all add: hook_run_def)

section \<open>What the parts of the handlers change\<close>

named_theorems hook_defs \<open>the handlers that only store their arguments\<close>

lemmas [hook_defs] =
  kokkosp_provide_tool_programming_interface_def krepe_kernel_dump_add_metadata_def
  krepe_kernel_dump_copy_functor_def krepe_kernel_dump_copy_nvcc_lambda_def
  krepe_kernel_dump_register_scalar_policy_def krepe_kernel_dump_register_range_policy_def
  krepe_kernel_dump_register_mdrange_policy_def krepe_kernel_dump_register_team_policy_def
  krepe_kernel_dump_next_invocation_will_dump_def
  krepe_kernel_dump_clear_registered_views_def krepe_kernel_dump_register_view_def
  kokkosp_allocate_data_def kokkosp_deallocate_data_def

text \<open>
  The bookkeeping fields of the tool.  Logging, the fence and the dumps leave them alone.
\<close>

definition books :: "'w hooks \<Rightarrow>
  u64 \<times> (u64 \<rightharpoonup> kernel_state) \<times> (string \<rightharpoonup> u64) \<times> string \<times> u64 option" where
  "books h = (next_kernel_id h, kernel_states h, kernel_invocations h, dump_kernel_label h,
     dump_kernel_invocation h)"

lemma books_log_line [simp]: "books (log_line parts h) = books h"
  by (simp add: books_def log_line_def)

lemma books_log_dump_failure [simp]: "books (log_dump_failure p r k i h) = books h"
  by (simp add: log_dump_failure_def)

lemma books_call_fence [simp]: "books (call_fence d h) = books h"
  by (simp add: books_def call_fence_def split: option.splits)

lemma books_dump_input_views [simp]: "books (snd (dump_input_views cx l k i h)) = books h"
  by (simp add: dump_input_views_def Let_def split: prod.splits) (simp add: books_def)

lemma books_dump_output_views [simp]: "books (dump_output_views cx p k i h) = books h"
  by (simp add: dump_output_views_def Let_def split: prod.splits) (simp add: books_def)

lemma booksD:
  assumes "books h = books h'"
  shows "next_kernel_id h = next_kernel_id h'" and "kernel_states h = kernel_states h'"
    and "kernel_invocations h = kernel_invocations h'"
    and "dump_kernel_label h = dump_kernel_label h'"
    and "dump_kernel_invocation h = dump_kernel_invocation h'"
  using assms by (simp_all add: books_def)

end
