(* ===== verification/Capture_History.thy ===== *)
theory Capture_History
  imports Kokkos_Hooks
begin

text \<open>
  What a history of hook calls does: an abstract specification of the capture tool, which
  knows the labels and their counts but neither HDF5 nor the devices, the simulation of it
  by the handlers of \<open>src/krepe/capture/kokkos_hooks.cpp\<close>, and its consequences: which
  kernel is captured, how often, and what is alive when it is.
\<close>

section \<open>The lines of the log\<close>

definition started_line :: "string \<Rightarrow> u64 \<Rightarrow> u64 \<Rightarrow> string" where
  "started_line label invocation kid =
     ''[krepe-capture] '' @ concat [''capture_started label=\"'', label, ''\" invocation='',
       show_u64 invocation, '' kernel_id='', show_u64 kid]"

definition is_started :: "string \<Rightarrow> bool" where
  "is_started line = starts_with line ''[krepe-capture] capture_started ''"

text \<open>A line that reports the outcome of an output dump.\<close>

definition is_output :: "string \<Rightarrow> bool" where
  "is_output line \<longleftrightarrow>
     starts_with line ''[krepe-capture] capture_finished '' \<or>
     starts_with line ''[krepe-capture] dump_failed phase=out''"

definition started :: "'w hooks \<Rightarrow> string list" where
  "started h = List.filter is_started (log h)"

definition outputs :: "'w hooks \<Rightarrow> string list" where
  "outputs h = List.filter is_output (log h)"

lemma started_line_kind [simp]:
  "is_started (started_line l n k)" "\<not> is_output (started_line l n k)"
  by (simp_all add: is_started_def is_output_def starts_with_def started_line_def)

lemma line_kinds [simp]:
  "\<not> is_started (''[krepe-capture] '' @ ''dump_failed phase='' @ rest)"
  "\<not> is_started (''[krepe-capture] '' @ ''capture_finished path=\"'' @ rest)"
  "\<not> is_started (''[krepe-capture] '' @ ''invalid '' @ dump_kernel_invocation_option @ rest)"
  "\<not> is_output (''[krepe-capture] '' @ ''invalid '' @ dump_kernel_invocation_option @ rest)"
  "\<not> is_output (''[krepe-capture] '' @ ''dump_failed phase='' @ ''in'' @ '' path=\"'' @ rest)"
  "is_output (''[krepe-capture] '' @ ''dump_failed phase='' @ ''out'' @ rest)"
  "is_output (''[krepe-capture] '' @ ''capture_finished path=\"'' @ rest)"
  by (simp_all add: is_started_def is_output_def starts_with_def dump_kernel_invocation_option_def)

lemma log_line_fields:
  "log (log_line parts h) = log h @ [''[krepe-capture] '' @ concat parts]"
  by (simp add: log_line_def)

lemma log_call_fence [simp]: "log (call_fence d h) = log h"
  by (simp add: call_fence_def split: option.splits)

lemma started_call_fence [simp]: "started (call_fence d h) = started h"
  and outputs_call_fence [simp]: "outputs (call_fence d h) = outputs h"
  by (simp_all add: started_def outputs_def)

lemma started_dump_input_views [simp]:
  "started (snd (dump_input_views cx l k i h)) = started h"
  by (simp add: dump_input_views_def Let_def started_def log_dump_failure_def log_line_fields
      split: prod.splits del: append.simps)

lemma outputs_dump_input_views [simp]:
  "outputs (snd (dump_input_views cx l k i h)) = outputs h"
  by (simp add: dump_input_views_def Let_def outputs_def log_dump_failure_def log_line_fields
      split: prod.splits del: append.simps)

lemma started_dump_output_views [simp]:
  "started (dump_output_views cx p k i h) = started h"
  by (simp add: dump_output_views_def Let_def started_def log_dump_failure_def log_line_fields
      split: prod.splits del: append.simps)

lemma length_outputs_dump_output_views [simp]:
  "length (outputs (dump_output_views cx p k i h)) = Suc (length (outputs h))"
  by (simp add: dump_output_views_def Let_def outputs_def log_dump_failure_def log_line_fields
      split: prod.splits del: append.simps)

section \<open>The abstract capture tool\<close>

text \<open>
  What the specification knows of the tool: the next kernel id, the running kernels with
  their device and invocation, how often each label has begun, the two options, and the
  captures announced so far.
\<close>

record capture_view =
  cv_next :: u64
  cv_running :: "u64 \<rightharpoonup> 32 word \<times> u64"
  cv_counts :: "string \<Rightarrow> u64"
  cv_label :: string
  cv_invocation :: "u64 option"
  cv_started :: "string list"

definition view_of :: "'w hooks \<Rightarrow> capture_view" where
  "view_of h =
     \<lparr>cv_next = next_kernel_id h,
      cv_running = (\<lambda>k. map_option (\<lambda>s. (ks_device_id s, ks_invocation s)) (kernel_states h k)),
      cv_counts = invocations h,
      cv_label = dump_kernel_label h,
      cv_invocation = dump_kernel_invocation h,
      cv_started = started h\<rparr>"

text \<open>The values an option is given on a command line; the last one counts.\<close>

definition option_values :: "string \<Rightarrow> string option list \<Rightarrow> string list" where
  "option_values opt argv =
     List.map (drop (length opt)) (List.filter (\<lambda>a. starts_with a opt)
       (List.map (\<lambda>arg. case arg of Some a \<Rightarrow> a | None \<Rightarrow> []) argv))"

definition selected :: "capture_view \<Rightarrow> string \<Rightarrow> u64 \<Rightarrow> bool" where
  "selected v label n \<longleftrightarrow> cv_label v \<noteq> [] \<and> label = cv_label v \<and> cv_invocation v = Some n"

fun spec_hook :: "'w hook_event \<Rightarrow> capture_view \<Rightarrow> capture_view" where
  "spec_hook (Begin_Kernel label device_id) v =
     (let l = label_or_unknown label; n = cv_counts v l + 1; k = cv_next v in
      v\<lparr>cv_next := k + 1,
        cv_running := (cv_running v)(k \<mapsto> (device_id, n)),
        cv_counts := (cv_counts v)(l := n),
        cv_started := cv_started v @ (if selected v l n then [started_line l n k] else [])\<rparr>)"
| "spec_hook (End_Kernel k) v = v\<lparr>cv_running := (cv_running v)(k := None)\<rparr>"
| "spec_hook (Parse_Args argv) v =
     v\<lparr>cv_label := last (cv_label v # option_values dump_kernel_label_option argv),
       cv_invocation :=
         last (cv_invocation v #
           List.map parse_positive_uint64 (option_values dump_kernel_invocation_option argv))\<rparr>"
| "spec_hook _ v = v"

text \<open>The view depends on the bookkeeping fields and the announced captures alone.\<close>

lemma view_of_cong:
  assumes "books h = books h'" and "started h = started h'"
  shows "view_of h = view_of h'"
  using assms booksD [OF assms(1)] by (simp add: view_of_def invocations_def fun_eq_iff)

lemma store_dump_path_simps [simp]:
  "log (store_dump_path kid r h) = log h"
  "started (store_dump_path kid r h) = started h"
  "outputs (store_dump_path kid r h) = outputs h"
  "view_of (store_dump_path kid r h) = view_of h"
  by (auto simp: store_dump_path_def started_def outputs_def view_of_def invocations_def fun_eq_iff
      split: option.splits)

lemma should_dump_selected:
  "should_dump_views_for_invocation h label n \<longleftrightarrow> selected (view_of h) label n"
  by (auto simp: should_dump_views_for_invocation_def should_dump_views_for_label_def selected_def
      view_of_def)

lemma selected_view_cong [simp]:
  "selected (v\<lparr>cv_counts := c\<rparr>) = selected v" "selected (v\<lparr>cv_next := k\<rparr>) = selected v"
  "selected (v\<lparr>cv_running := r\<rparr>) = selected v"
  by (simp_all add: selected_def fun_eq_iff)

lemma view_register_kernel:
  assumes "register_kernel label dev kid h = ((n, d), h')"
  shows "n = cv_counts (view_of h) label + 1" and "d = selected (view_of h) label n"
    and "view_of h' = (view_of h)\<lparr>cv_running := (cv_running (view_of h))(kid \<mapsto> (dev, n)),
           cv_counts := (cv_counts (view_of h))(label := n)\<rparr>"
    and "log h' = log h" and "world h' = world h" and "tracker_of h' = tracker_of h"
    and "ks_dump_path (the (kernel_states h' kid)) = []"
    and "kernel_states h' = (kernel_states h)(kid \<mapsto>
           \<lparr>ks_device_id = dev, ks_invocation = n, ks_dump_path = []\<rparr>)"
  using assms
  by (auto simp: register_kernel_def Let_def view_of_def fun_eq_iff started_def invocations_def
      should_dump_views_for_invocation_def should_dump_views_for_label_def selected_def)

section \<open>The handlers simulate the specification\<close>

lemma view_of_log_started:
  "view_of (log_line [''capture_started label=\"'', l, ''\" invocation='', show_u64 n,
       '' kernel_id='', show_u64 k] h) =
     (view_of h)\<lparr>cv_started := started h @ [started_line l n k]\<rparr>"
  using started_line_kind(1) [of l n k]
  by (simp add: view_of_def log_line_def started_def invocations_def fun_eq_iff started_line_def
      del: started_line_kind append.simps)

lemma view_call_fence [simp]: "view_of (call_fence d h) = view_of h"
  by (rule view_of_cong) simp_all

lemma view_dump_input_views [simp]: "view_of (snd (dump_input_views cx l k i h)) = view_of h"
  by (rule view_of_cong) simp_all

lemma view_dump_output_views [simp]: "view_of (dump_output_views cx p k i h) = view_of h"
  by (rule view_of_cong) simp_all

lemma cv_started_view [simp]: "cv_started (view_of h) = started h"
  by (simp add: view_of_def)

lemma cv_next_view [simp]: "cv_next (view_of h) = next_kernel_id h"
  by (simp add: view_of_def)

lemma view_begin_kernel:
  "view_of (snd (begin_kernel cx label dev h)) = spec_hook (Begin_Kernel label dev) (view_of h)"
proof -
  let ?l = "label_or_unknown label" and ?k = "next_kernel_id h"
  let ?h0 = "h\<lparr>next_kernel_id := next_kernel_id h + 1\<rparr>"
  obtain n d h1 where reg: "register_kernel ?l dev ?k ?h0 = ((n, d), h1)"
    by (metis prod.collapse)
  have h0: "view_of ?h0 = (view_of h)\<lparr>cv_next := ?k + 1\<rparr>"
    by (simp add: view_of_def invocations_def started_def fun_eq_iff)
  have h1: "view_of h1 = (view_of h)\<lparr>cv_next := ?k + 1,
      cv_running := (cv_running (view_of h))(?k \<mapsto> (dev, n)),
      cv_counts := (cv_counts (view_of h))(?l := n)\<rparr>"
    and n: "n = cv_counts (view_of h) ?l + 1" and d: "d = selected (view_of h) ?l n"
    using view_register_kernel(1-3) [OF reg] by (simp_all add: h0)
  have st: "started h1 = started h"
    using view_register_kernel(4) [OF reg] by (simp add: started_def)
  show ?thesis
  proof (cases d)
    case True
    then show ?thesis
      using h1 n d st
      by (simp add: begin_kernel_def Let_def reg case_prod_beta view_of_log_started)
  next
    case False
    then show ?thesis using h1 n d st by (simp add: begin_kernel_def Let_def reg)
  qed
qed

lemma view_end_kernel:
  "view_of (end_kernel cx k h) = spec_hook (End_Kernel k) (view_of h)"
proof -
  have *: "view_of (h\<lparr>kernel_states := (kernel_states h)(k := None)\<rparr>) =
      (view_of h)\<lparr>cv_running := (cv_running (view_of h))(k := None)\<rparr>"
    by (simp add: view_of_def invocations_def started_def fun_eq_iff)
  show ?thesis
  proof (cases "kernel_states h k")
    case None
    then have "(cv_running (view_of h))(k := None) = cv_running (view_of h)"
      by (auto simp: view_of_def fun_eq_iff)
    then show ?thesis using None by (simp add: end_kernel_def)
  next
    case (Some s)
    then show ?thesis by (simp add: end_kernel_def Let_def *)
  qed
qed

lemma option_values_Cons:
  "option_values opt (arg # argv) =
     (let a = (case arg of Some a \<Rightarrow> a | None \<Rightarrow> []) in
      if starts_with a opt then drop (length opt) a # option_values opt argv
      else option_values opt argv)"
  by (simp add: option_values_def Let_def)

lemma started_log_invalid:
  "started (log_line [''invalid '', dump_kernel_invocation_option, '' value=\"'', x,
       ''\"; expected a positive integer''] h) = started h"
  "outputs (log_line [''invalid '', dump_kernel_invocation_option, '' value=\"'', x,
       ''\"; expected a positive integer''] h) = outputs h"
  by (simp_all add: started_def outputs_def log_line_fields del: append.simps)

lemma view_log_invalid:
  "view_of (log_line [''invalid '', dump_kernel_invocation_option, '' value=\"'', x,
       ''\"; expected a positive integer''] h) = view_of h"
  by (rule view_of_cong) (simp_all add: started_log_invalid)

lemma starts_with_append_iff: "starts_with s p \<longleftrightarrow> (\<exists>rest. s = p @ rest)"
  by (metis append_eq_conv_conj append_take_drop_id starts_with_def)

lemma options_differ:
  "starts_with a dump_kernel_label_option \<Longrightarrow> \<not> starts_with a dump_kernel_invocation_option"
  by (auto simp: starts_with_append_iff dump_kernel_label_option_def
      dump_kernel_invocation_option_def)

lemma view_parse_arg:
  fixes h :: "'w hooks"
  shows "view_of (parse_arg arg h) = spec_hook (Parse_Args [arg] :: 'w hook_event) (view_of h)"
proof -
  have *: "view_of (h\<lparr>dump_kernel_invocation := v\<rparr>) = (view_of h)\<lparr>cv_invocation := v\<rparr>"
    "view_of (h\<lparr>dump_kernel_label := l\<rparr>) = (view_of h)\<lparr>cv_label := l\<rparr>" for v l
    by (simp_all add: view_of_def invocations_def started_def fun_eq_iff)
  show ?thesis
    by (auto simp: parse_arg_def Let_def option_values_def options_differ * view_log_invalid
        split: option.splits)
qed

lemma spec_parse_args_Cons:
  "spec_hook (Parse_Args (a # argv) :: 'w hook_event) v =
     spec_hook (Parse_Args argv :: 'w hook_event) (spec_hook (Parse_Args [a] :: 'w hook_event) v)"
  by (auto simp: option_values_Cons Let_def option_values_def)

lemma view_kokkosp_parse_args:
  fixes h :: "'w hooks"
  shows "view_of (kokkosp_parse_args argv h) =
    spec_hook (Parse_Args argv :: 'w hook_event) (view_of h)"
proof (induction argv arbitrary: h)
  case Nil
  show ?case by (simp add: kokkosp_parse_args_def option_values_def)
next
  case (Cons a argv)
  have "kokkosp_parse_args (a # argv) h = kokkosp_parse_args argv (parse_arg a h)"
    by (simp add: kokkosp_parse_args_def)
  then show ?case
    by (simp only: Cons.IH view_parse_arg) (rule spec_parse_args_Cons [symmetric])
qed

lemma view_will_dump:
  "view_of (snd (krepe_kernel_dump_next_invocation_will_dump label h)) = view_of h"
  by (auto simp: krepe_kernel_dump_next_invocation_will_dump_def Let_def view_of_def
      invocations_def started_def fun_eq_iff)

lemma view_hook_step: "view_of (hook_step cx e h) = spec_hook e (view_of h)"
proof (cases e)
  case (Begin_Kernel l d)
  then show ?thesis by (simp only: hook_step.simps kokkosp_begin_parallel_for_def view_begin_kernel)
next
  case (End_Kernel k)
  then show ?thesis by (simp only: hook_step.simps kokkosp_end_parallel_for_def view_end_kernel)
next
  case (Parse_Args argv)
  then show ?thesis by (simp only: hook_step.simps view_kokkosp_parse_args)
next
  case (Will_Dump label)
  then show ?thesis by (simp only: hook_step.simps view_will_dump spec_hook.simps)
qed (auto simp: hook_defs Let_def view_of_def invocations_def started_def)

interpretation capture: simulation "hook_step cx" spec_hook view_of "\<lambda>_. True" for cx
  by unfold_locales (simp_all only: view_hook_step)

lemma view_run: "view_of (hook_run cx es h) = fold spec_hook es (view_of h)"
  unfolding hook_run_def by (rule capture.view_fold) simp

section \<open>Which kernel is captured\<close>

text \<open>The labels of the kernels a history begins, in order.\<close>

definition begun :: "'w hook_event list \<Rightarrow> string list" where
  "begun es = concat (List.map (\<lambda>e. case e of
     Begin_Kernel label _ \<Rightarrow> [label_or_unknown label] | _ \<Rightarrow> []) es)"

text \<open>The position, counted from \<open>i\<close>, of the \<open>n\<close>-th occurrence of an element.\<close>

fun nth_occurrence :: "nat \<Rightarrow> nat \<Rightarrow> 'a \<Rightarrow> 'a list \<Rightarrow> nat option" where
  "nth_occurrence i n x [] = None"
| "nth_occurrence i n x (y # ys) =
     (if y = x then if n = 1 then Some i else nth_occurrence (i + 1) (n - 1) x ys
      else nth_occurrence (i + 1) n x ys)"

definition parses_args :: "'w hook_event \<Rightarrow> bool" where
  "parses_args e = (case e of Parse_Args _ \<Rightarrow> True | _ \<Rightarrow> False)"

lemma nth_occurrence_0 [simp]: "nth_occurrence i 0 x ys = None"
  by (induction ys arbitrary: i) simp_all

lemma begun_simps [simp]:
  "begun [] = []"
  "begun (Begin_Kernel l d # es) = label_or_unknown l # begun es"
  "begun (e # es) = (case e of Begin_Kernel l d \<Rightarrow> [label_or_unknown l] | _ \<Rightarrow> []) @ begun es"
  by (simp_all add: begun_def)

lemma nth_occurrence_ge: "nth_occurrence i n x ys = Some k \<Longrightarrow> i \<le> k \<and> k < i + length ys"
  by (induction ys arbitrary: i n) (fastforce split: if_splits)+

definition counts_below :: "capture_view \<Rightarrow> bool" where
  "counts_below v \<longleftrightarrow> (\<forall>l. unat (cv_counts v l) < unat (cv_next v))"

lemma spec_hook_keeps:
  assumes "\<not> parses_args e"
  shows "cv_label (spec_hook e v) = cv_label v" "cv_invocation (spec_hook e v) = cv_invocation v"
  using assms by (cases e; simp add: Let_def parses_args_def)+

lemma spec_hook_other:
  assumes "\<And>l d. e \<noteq> Begin_Kernel l d" and "\<not> parses_args e"
  shows "cv_next (spec_hook e v) = cv_next v" "cv_counts (spec_hook e v) = cv_counts v"
    "cv_started (spec_hook e v) = cv_started v"
  using assms by (cases e; simp add: parses_args_def)+

lemma counts_below_begin:
  assumes "counts_below v" and "unat (cv_next v) + 1 < 2 ^ 64"
  shows "counts_below (spec_hook (Begin_Kernel l d) v)"
proof -
  have next': "unat (cv_next v + 1) = unat (cv_next v) + 1"
    using assms(2) by (subst unat_add_no_wrap) simp_all
  have "unat (cv_counts v x + 1) = unat (cv_counts v x) + 1" for x
    using assms unfolding counts_below_def by (subst unat_add_no_wrap) (simp_all, smt (verit) less_trans)
  moreover have "unat (cv_counts v x) < unat (cv_next v)" for x
    using assms(1) by (simp add: counts_below_def)
  ultimately show ?thesis
    using next' by (simp add: counts_below_def Let_def less_SucI)
qed

lemma spec_started:
  assumes "list_all (\<lambda>e. \<not> parses_args e) es"
    and "unat (cv_next v) + length (begun es) < 2 ^ 64" and "counts_below v"
    and "cv_label v = l" and "l \<noteq> []" and "cv_invocation v = Some n"
  shows "cv_started (fold spec_hook es v) = cv_started v @
    (case nth_occurrence (unat (cv_next v)) (unat n - unat (cv_counts v l)) l (begun es) of
       None \<Rightarrow> [] | Some k \<Rightarrow> [started_line l n (of_nat k)])"
  using assms
proof (induction es arbitrary: v)
  case Nil
  then show ?case by simp
next
  case (Cons e es)
  let ?v = "spec_hook e v"
  note keep = spec_hook_keeps [of e v]
  show ?case
  proof (cases "\<exists>lb d. e = Begin_Kernel lb d")
    case False
    then have other: "\<And>l d. e \<noteq> Begin_Kernel l d" by blast
    have np: "\<not> parses_args e" using Cons.prems(1) by simp
    have b: "begun (e # es) = begun es" using False by (simp split: hook_event.split)
    have "counts_below ?v"
      using Cons.prems(3) by (simp add: counts_below_def spec_hook_other [OF other np])
    then show ?thesis
      using Cons.IH [of ?v] Cons.prems b keep [OF np]
      by (simp add: spec_hook_other [OF other np] del: begun_simps(3))
  next
    case True
    then obtain lb d where e: "e = Begin_Kernel lb d" by blast
    let ?m = "label_or_unknown lb" and ?k = "cv_next v"
    have room: "unat ?k + 1 < 2 ^ 64" using Cons.prems(2) by (simp add: e)
    have k': "unat (?k + 1) = unat ?k + 1" using room by (subst unat_add_no_wrap) simp_all
    have c: "unat (cv_counts v l) + 1 < 2 ^ 64"
      using Cons.prems(3) room unfolding counts_below_def by (meson add_strict_right_mono less_trans)
    have c': "unat (cv_counts v l + 1) = unat (cv_counts v l) + 1"
      using c by (subst unat_add_no_wrap) simp_all
    have IH: "cv_started (fold spec_hook es ?v) = cv_started ?v @
        (case nth_occurrence (unat (cv_next ?v)) (unat n - unat (cv_counts ?v l)) l (begun es) of
           None \<Rightarrow> [] | Some k \<Rightarrow> [started_line l n (of_nat k)])"
      using Cons.IH [of ?v] Cons.prems counts_below_begin [OF Cons.prems(3) room, of lb d] k'
      by (simp add: e Let_def)
    have n1: "(n = cv_counts v l + 1) = (unat n = unat (cv_counts v l) + 1)"
      using c' by (metis word_unat_eq_iff)
    show ?thesis
    proof (cases "?m = l")
      case False
      then show ?thesis
        using IH k' Cons.prems(4) by (simp add: e Let_def selected_def)
    next
      case True
      show ?thesis
      proof (cases "n = cv_counts v l + 1")
        case eq: True
        then show ?thesis
          using IH k' c' True Cons.prems(4-6) n1 by (simp add: e Let_def selected_def)
      next
        case ne: False
        have "unat n - unat (cv_counts v l) \<noteq> 1" using ne n1 by linarith
        then show ?thesis
          using IH k' c' True Cons.prems(4-6) ne by (simp add: e Let_def selected_def)
      qed
    qed
  qed
qed

section \<open>Outputs\<close>

text \<open>The running kernels whose input was dumped: their end will dump the output.\<close>

definition pending :: "'w hooks \<Rightarrow> u64 set" where
  "pending h = {k. \<exists>s. kernel_states h k = Some s \<and> ks_dump_path s \<noteq> []}"

definition outputs_bounded :: "'w hooks \<Rightarrow> bool" where
  "outputs_bounded h \<longleftrightarrow>
     finite (pending h) \<and> card (pending h) + length (outputs h) \<le> length (started h)"

lemma pending_cong: "kernel_states h = kernel_states h' \<Longrightarrow> pending h = pending h'"
  by (simp add: pending_def)

lemma pending_books: "books h = books h' \<Longrightarrow> pending h = pending h'"
  by (rule pending_cong) (rule booksD)

lemma pending_store_dump_path: "pending (store_dump_path kid r h) \<subseteq> insert kid (pending h)"
  by (auto simp: store_dump_path_def pending_def split: option.splits if_splits)

lemma outputs_bounded_begin_kernel:
  assumes "outputs_bounded h"
  shows "outputs_bounded (snd (begin_kernel cx label dev h))"
proof -
  let ?l = "label_or_unknown label" and ?k = "next_kernel_id h"
  obtain n d h1 where
    reg: "register_kernel ?l dev ?k (h\<lparr>next_kernel_id := ?k + 1\<rparr>) = ((n, d), h1)"
    by (metis prod.collapse)
  note reg' = view_register_kernel [OF reg]
  have p1: "pending h1 \<subseteq> pending h" using reg'(8) by (auto simp: pending_def split: if_splits)
  have s1: "started h1 = started h" and o1: "outputs h1 = outputs h"
    using reg'(4) by (simp_all add: started_def outputs_def)
  have fin: "finite (pending h)" and le: "card (pending h) + length (outputs h) \<le> length (started h)"
    using assms by (simp_all add: outputs_bounded_def)
  show ?thesis
  proof (cases d)
    case False
    then show ?thesis
      using p1 s1 o1 fin le card_mono [OF fin p1] finite_subset [OF p1 fin]
      by (simp add: begin_kernel_def Let_def reg outputs_bounded_def)
  next
    case True
    let ?h2 = "log_line [''capture_started label=\"'', ?l, ''\" invocation='', show_u64 n,
      '' kernel_id='', show_u64 ?k] h1"
    obtain r h4 where dump: "dump_input_views cx ?l ?k n (call_fence dev ?h2) = (r, h4)"
      by fastforce
    let ?h = "store_dump_path ?k r h4"
    have b4: "books h4 = books h1"
      using books_dump_input_views [of cx ?l ?k n "call_fence dev ?h2"] by (simp add: dump)
    have "log ?h2 = log h1 @ [started_line ?l n ?k]"
      by (simp add: log_line_fields started_line_def)
    then have s4: "started h4 = started h @ [started_line ?l n ?k]" and o4: "outputs h4 = outputs h"
      using started_dump_input_views [of cx ?l ?k n "call_fence dev ?h2"] s1
        outputs_dump_input_views [of cx ?l ?k n "call_fence dev ?h2"] o1
      by (simp_all only: dump snd_conv started_call_fence outputs_call_fence)
        (simp_all add: started_def outputs_def)
    have sub: "pending ?h \<subseteq> insert ?k (pending h)"
      using pending_store_dump_path [of ?k r h4] pending_books [OF b4] p1 by blast
    have "card (pending ?h) \<le> Suc (card (pending h))"
    proof -
      have "card (pending ?h) \<le> card (insert ?k (pending h))"
        by (rule card_mono [OF _ sub]) (simp add: fin)
      also have "\<dots> \<le> Suc (card (pending h))" using fin by (simp add: card_insert_if)
      finally show ?thesis .
    qed
    moreover have "finite (pending ?h)" using finite_subset [OF sub] fin by simp
    ultimately show ?thesis
      using True le s4 o4
      by (simp add: begin_kernel_def Let_def reg dump outputs_bounded_def)
  qed
qed

lemma outputs_bounded_end_kernel:
  assumes "outputs_bounded h"
  shows "outputs_bounded (end_kernel cx k h)"
proof (cases "kernel_states h k")
  case None
  then show ?thesis using assms by (simp add: end_kernel_def)
next
  case (Some s)
  let ?h = "h\<lparr>kernel_states := (kernel_states h)(k := None)\<rparr>"
  have pend: "pending ?h = pending h - {k}" by (auto simp: pending_def split: if_splits)
  have st: "started ?h = started h" and out: "outputs ?h = outputs h"
    by (simp_all add: started_def outputs_def)
  show ?thesis
  proof (cases "ks_dump_path s = []")
    case True
    then have "k \<notin> pending h" using Some by (simp add: pending_def)
    then show ?thesis
      using assms Some True pend st out by (simp add: end_kernel_def Let_def outputs_bounded_def)
  next
    case False
    let ?h' = "dump_output_views cx (ks_dump_path s) k (ks_invocation s)
      (call_fence (ks_device_id s) ?h)"
    have k: "k \<in> pending h" using Some False by (simp add: pending_def)
    have "pending ?h' = pending h - {k}"
      using pending_books [of ?h' ?h] pend by simp
    moreover have "started ?h' = started h" and "length (outputs ?h') = Suc (length (outputs h))"
      using st out by simp_all
    moreover have "card (pending h) = Suc (card (pending h - {k}))"
      using k assms card_Suc_Diff1 [of "pending h" k] by (simp add: outputs_bounded_def)
    ultimately show ?thesis
      using assms Some False by (simp add: end_kernel_def Let_def outputs_bounded_def)
  qed
qed

lemma outputs_bounded_keep:
  assumes "outputs_bounded h" and "kernel_states h' = kernel_states h"
    and "started h' = started h" and "outputs h' = outputs h"
  shows "outputs_bounded h'"
  using assms by (simp add: outputs_bounded_def pending_def)

lemma parse_args_fields:
  "kernel_states (kokkosp_parse_args argv h) = kernel_states h"
  "outputs (kokkosp_parse_args argv h) = outputs h"
proof -
  have arg: "kernel_states (parse_arg a h) = kernel_states h \<and> outputs (parse_arg a h) = outputs h"
    for a and h :: "'a hooks"
    by (simp add: parse_arg_def Let_def started_log_invalid(2) booksD(2) [OF books_log_line]
        del: append.simps) (simp add: outputs_def)
  show "kernel_states (kokkosp_parse_args argv h) = kernel_states h"
    and "outputs (kokkosp_parse_args argv h) = outputs h"
    unfolding kokkosp_parse_args_def by (induction argv arbitrary: h) (simp_all add: arg)
qed

lemma outputs_bounded_parse_args:
  "outputs_bounded h \<Longrightarrow> outputs_bounded (kokkosp_parse_args argv h)"
  using arg_cong [OF view_kokkosp_parse_args [of argv h], of cv_started]
  by (simp add: outputs_bounded_keep [of h] parse_args_fields)

lemma outputs_bounded_step:
  assumes "outputs_bounded h"
  shows "outputs_bounded (hook_step cx e h)"
proof (cases e)
  case (Begin_Kernel l d)
  then show ?thesis
    using outputs_bounded_begin_kernel [OF assms] by (simp add: kokkosp_begin_parallel_for_def)
next
  case (End_Kernel k)
  then show ?thesis
    using outputs_bounded_end_kernel [OF assms] by (simp add: kokkosp_end_parallel_for_def)
next
  case (Parse_Args argv)
  then show ?thesis using outputs_bounded_parse_args [OF assms] by simp
qed (rule outputs_bounded_keep [OF assms]; simp add: hook_defs Let_def started_def outputs_def)+

text \<open>The outputs are bounded in every reachable state.\<close>

interpretation bounded: simulation "hook_step cx" spec_hook view_of outputs_bounded for cx
  by unfold_locales (simp_all only: view_hook_step outputs_bounded_step)

lemma spec_not_started:
  assumes "list_all (\<lambda>e. \<not> parses_args e) es" and "cv_label v = [] \<or> cv_invocation v = None"
  shows "cv_started (fold spec_hook es v) = cv_started v"
  using assms
proof (induction es arbitrary: v)
  case (Cons e es)
  have "cv_started (spec_hook e v) = cv_started v"
  proof (cases "\<exists>l d. e = Begin_Kernel l d")
    case True
    then show ?thesis using Cons.prems(2) by (auto simp: Let_def selected_def)
  next
    case False
    then show ?thesis using spec_hook_other(3) [of e v] Cons.prems(1) by auto
  qed
  moreover have "cv_label (spec_hook e v) = cv_label v"
    and "cv_invocation (spec_hook e v) = cv_invocation v"
    using spec_hook_keeps [of e v] Cons.prems(1) by simp_all
  ultimately show ?case using Cons.IH [of "spec_hook e v"] Cons.prems by simp
qed simp

section \<open>Properties\<close>

definition initial_view :: capture_view where
  "initial_view =
     \<lparr>cv_next = 1, cv_running = Map.empty, cv_counts = (\<lambda>_. 0), cv_label = [],
      cv_invocation = Some 1, cv_started = []\<rparr>"

lemma view_initial: "view_of (initial_hooks w) = initial_view"
  by (simp add: view_of_def initial_hooks_def initial_view_def invocations_def started_def
      fun_eq_iff)

text \<open>
  Property C21.  The capture handlers refine an abstract tool that knows neither HDF5 nor
  devices nor the file system: whatever these do and whatever the application interleaves,
  the next kernel id, the running kernels with their device and invocation number, the
  number of times each label has begun, the options and the announced captures after any
  history of hook calls are those of the abstract tool.
\<close>

theorem hooks_refine_capture_tool:
  "view_of (hook_run cx es (initial_hooks w)) = fold spec_hook es initial_view"
  by (simp add: view_run view_initial)

text \<open>
  Property C5.  A run captures the requested invocation, once: after the command line has
  been parsed (the last label and the last invocation option count, an invalid invocation
  disables the capture, and the invocation defaults to 1), any history of hook calls
  announces exactly one capture, for the \<open>n\<close>-th kernel begun with the requested label and
  under its kernel id, or none if there is no such kernel, no label or no valid invocation.
\<close>

theorem captured_exactly_once:
  assumes "list_all (\<lambda>e. \<not> parses_args e) es" and "length (begun es) + 1 < 2 ^ 64"
  shows "let l = last ([] # option_values dump_kernel_label_option argv);
             requested = last (Some 1 # List.map parse_positive_uint64
                           (option_values dump_kernel_invocation_option argv))
         in started (hook_run cx (Parse_Args argv # es) (initial_hooks w)) =
              (case requested of
                 None \<Rightarrow> []
               | Some n \<Rightarrow>
                   if l = [] then []
                   else case nth_occurrence 1 (unat n) l (begun es) of
                          None \<Rightarrow> []
                        | Some k \<Rightarrow> [started_line l n (of_nat k)])"
proof -
  define l where "l = last ([] # option_values dump_kernel_label_option argv)"
  define requested where "requested = last (Some 1 # List.map parse_positive_uint64
    (option_values dump_kernel_invocation_option argv))"
  define v where "v = spec_hook (Parse_Args argv :: 'a hook_event) initial_view"
  have v: "cv_next v = 1" "cv_counts v l' = 0" "cv_label v = l" "cv_invocation v = requested"
    "cv_started v = []" for l'
    unfolding v_def l_def requested_def by (simp_all add: initial_view_def)
  have run: "started (hook_run cx (Parse_Args argv # es) (initial_hooks w)) =
      cv_started (fold spec_hook es v)"
    by (simp only: cv_started_view [symmetric] view_run view_initial fold_simps v_def)
  have "cv_started (fold spec_hook es v) = (case requested of None \<Rightarrow> [] | Some n \<Rightarrow>
      if l = [] then [] else case nth_occurrence 1 (unat n) l (begun es) of None \<Rightarrow> []
        | Some k \<Rightarrow> [started_line l n (of_nat k)])"
  proof (cases "l = [] \<or> requested = None")
    case True
    then have "cv_started (fold spec_hook es v) = []"
      using spec_not_started [OF assms(1), of v] by (auto simp: v)
    then show ?thesis using True by (auto split: option.split)
  next
    case False
    then obtain n where n: "requested = Some n" and l: "l \<noteq> []" by auto
    have "counts_below v" by (simp add: v counts_below_def)
    then show ?thesis
      using spec_started [OF assms(1), of v l n] assms(2) l n by (simp add: v)
  qed
  then show ?thesis unfolding Let_def run l_def requested_def .
qed

lemma captured_exactly_once_witness:
  "\<forall>(cx :: 'w capture_context) w.
     started (hook_run cx
       [Parse_Args [Some ''--krepe-dump-kernel-label=k'', Some ''--krepe-dump-kernel-invocation=2''],
        Begin_Kernel (Some ''k'') 0, Begin_Kernel None 0, End_Kernel 1, Begin_Kernel (Some ''k'') 0,
        Begin_Kernel (Some ''k'') 0]
       (initial_hooks w)) = [started_line ''k'' 2 3]"
proof (intro allI)
  fix cx :: "'w capture_context" and w
  let ?argv = "[Some ''--krepe-dump-kernel-label=k'', Some ''--krepe-dump-kernel-invocation=2'']"
  let ?es = "[Begin_Kernel (Some ''k'') 0, Begin_Kernel None 0, End_Kernel 1,
    Begin_Kernel (Some ''k'') 0, Begin_Kernel (Some ''k'') 0] :: 'w hook_event list"
  have two: "to_string 2 = ''2''"
    by (simp add: to_string_def print_base.simps) code_simp
  have opts: "option_values dump_kernel_label_option ?argv = [''k'']"
    "List.map parse_positive_uint64 (option_values dump_kernel_invocation_option ?argv) = [Some 2]"
    using from_chars_to_string [of 2]
    by (simp_all add: option_values_def dump_kernel_label_option_def two parse_positive_uint64_def
        dump_kernel_invocation_option_def starts_with_def)
  have begun: "begun ?es = [''k'', ''<unknown>'', ''k'', ''k'']"
    by (simp add: label_or_unknown_def)
  have "list_all (\<lambda>e. \<not> parses_args e) ?es" by (simp add: parses_args_def)
  moreover have "length (begun ?es) + 1 < 2 ^ 64" by (simp add: begun del: begun_simps)
  ultimately show "started (hook_run cx (Parse_Args ?argv # ?es) (initial_hooks w)) =
      [started_line ''k'' 2 3]"
    using captured_exactly_once [of ?es ?argv cx w]
    by (simp add: opts begun Let_def del: begun_simps hook_run_simps)
qed



end
