(* ===== verification/Capture_Tracking.thy ===== *)
theory Capture_Tracking
  imports Kokkos_Hooks
begin

text \<open>
  What the hooks record of the application's memory: the bounds they accept for an
  allocation, and the allocations and registered pointers that are in the tracker after any
  history of hook calls (\<open>src/krepe/capture/kokkos_hooks.cpp\<close> over
  \<open>allocation_tracker.cpp\<close>).
\<close>

section \<open>The size of an allocation\<close>

text \<open>What the tracker holds of an allocation that was reported with a given size.\<close>

definition size_settled :: "capture_build \<Rightarrow> allocation_record \<Rightarrow> bool" where
  "size_settled b r \<longleftrightarrow>
     (if ar_reported_size r = allocation_header_size b
      then ar_size r = 0 \<or> ar_data_size_known r \<and> ar_size r = ar_reported_size r
      else ar_data_size_known r \<and> ar_size r = ar_reported_size r)"

lemma validated_data_size_cases:
  "validated_data_size base sz p n = None \<or> validated_data_size base sz p n = Some 0 \<or>
   validated_data_size base sz p n = Some n"
  by (simp add: validated_data_size_def Let_def)

lemma allocation_data_size_cases:
  "n \<noteq> allocation_header_size (cx_build cx) \<Longrightarrow>
     allocation_data_size cx w space ptr d n = Some n"
  "allocation_data_size cx w space ptr d n \<in> {None, Some 0, Some n}"
  using validated_data_size_cases
  by (auto simp: allocation_data_size_def Let_def split: option.splits prod.splits)

lemma size_settled_allocation:
  "size_settled (cx_build cx)
     \<lparr>ar_label = l, ar_space = s, ar_p_data = d,
      ar_size = (case allocation_data_size cx w s' ptr d n of None \<Rightarrow> 0 | Some k \<Rightarrow> k),
      ar_reported_size = n, ar_data_size_known = (allocation_data_size cx w s' ptr d n \<noteq> None)\<rparr>"
  using allocation_data_size_cases(1) [of n cx w s' ptr d]
    allocation_data_size_cases(2) [of cx w s' ptr d n]
  by (auto simp: size_settled_def)

section \<open>The abstract store of allocations\<close>

text \<open>
  The live allocations, by space and base address, with their label, data pointer and
  reported size; and the registered pointers of each space.
\<close>

type_synonym alloc_view =
  "(string \<Rightarrow> addr \<Rightarrow> (string \<times> addr \<times> u64) option) \<times> (string \<Rightarrow> addr set)"

fun spec_alloc :: "capture_build \<Rightarrow> 'w hook_event \<Rightarrow> alloc_view \<Rightarrow> alloc_view" where
  "spec_alloc b (Allocate_Data space label ptr sz) (L, R) =
     (if should_track_allocation label ptr
      then L(space_name space := (L (space_name space))
             (ptr \<mapsto> (label_or_unknown label, allocation_data_pointer b ptr, sz)))
      else L, R)"
| "spec_alloc b (Deallocate_Data space ptr) (L, R) =
     (L(space_name space := (L (space_name space))(ptr := None)), R)"
| "spec_alloc b (Register_View data space) (L, R) = (L, R(space := insert data (R space)))"
| "spec_alloc b Clear_Views (L, R) = (L, \<lambda>_. {})"
| "spec_alloc b _ (L, R) = (L, R)"

definition summary :: "allocation_record \<Rightarrow> string \<times> addr \<times> u64" where
  "summary r = (ar_label r, ar_p_data r, ar_reported_size r)"

definition tracker_view :: "allocation_tracker \<Rightarrow> alloc_view" where
  "tracker_view t = (\<lambda>space ptr. map_option summary (live t space ptr), registered t)"

definition tracking_ok :: "capture_build \<Rightarrow> allocation_tracker \<Rightarrow> bool" where
  "tracking_ok b t \<longleftrightarrow>
     tracker_inv t \<and> (\<forall>space ptr r. live t space ptr = Some r \<longrightarrow> size_settled b r)"

text \<open>Snapshots, which the dumps take, change neither.\<close>

lemma snapshot_keeps:
  assumes "tracking_ok b t"
  shows "tracking_ok b (snd (snapshot p t))" and "tracker_view (snd (snapshot p t)) = tracker_view t"
  using assms snapshot_correct(2-4) [of t p] by (simp_all add: tracking_ok_def tracker_view_def)

lemma tracker_of_simps [simp]:
  "tracker_of (log_line parts h) = tracker_of h"
  "tracker_of (log_dump_failure ph r k i h) = tracker_of h"
  "tracker_of (call_fence d h) = tracker_of h"
  "tracker_of (store_dump_path k r h) = tracker_of h"
  "tracker_of (snd (register_kernel l d k h)) = tracker_of h"
  by (simp_all add: log_line_def log_dump_failure_def call_fence_def store_dump_path_def
      register_kernel_def Let_def split: option.splits)

lemma tracker_of_dump [simp]:
  "tracker_of (snd (dump_input_views cx l k i h)) =
     snd (snapshot (has_compiler_plugins (cx_build cx)) (tracker_of h))"
  "tracker_of (dump_output_views cx p k i h) =
     snd (snapshot (has_compiler_plugins (cx_build cx)) (tracker_of h))"
  by (simp_all add: dump_input_views_def dump_output_views_def Let_def split: prod.splits)

lemma tracker_of_begin_kernel:
  "tracker_of (snd (begin_kernel cx l d h)) \<in>
     {tracker_of h, snd (snapshot (has_compiler_plugins (cx_build cx)) (tracker_of h))}"
proof -
  let ?h0 = "h\<lparr>next_kernel_id := next_kernel_id h + 1\<rparr>"
  obtain n b h1 where reg: "register_kernel (label_or_unknown l) d (next_kernel_id h) ?h0 = ((n, b), h1)"
    by (metis prod.collapse)
  have "tracker_of h1 = tracker_of h"
    using tracker_of_simps(5) [of "label_or_unknown l" d "next_kernel_id h" ?h0] by (simp add: reg)
  then show ?thesis by (simp add: begin_kernel_def Let_def reg case_prod_beta)
qed

lemma tracker_of_end_kernel:
  "tracker_of (end_kernel cx k h) \<in>
     {tracker_of h, snd (snapshot (has_compiler_plugins (cx_build cx)) (tracker_of h))}"
  by (simp add: end_kernel_def Let_def split: option.splits)

lemma tracker_of_parse_args [simp]: "tracker_of (kokkosp_parse_args argv h) = tracker_of h"
proof -
  have "tracker_of (parse_arg a h) = tracker_of h" for a and h :: "'a hooks"
    by (simp add: parse_arg_def Let_def)
  then show ?thesis
    unfolding kokkosp_parse_args_def by (induction argv arbitrary: h) simp_all
qed

lemma tracking_deallocated:
  assumes "tracker_inv t"
  shows "tracker_view (record_deallocation s p t) =
    (let (L, R) = tracker_view t in (L(s := (L s)(p := None)), R))"
  by (auto simp: tracker_view_def live_record_deallocation [OF assms] fun_eq_iff)

lemma hook_step_tracking:
  assumes ok: "tracking_ok (cx_build cx) (tracker_of h)"
  shows "tracking_ok (cx_build cx) (tracker_of (hook_step cx e h))
    \<and> tracker_view (tracker_of (hook_step cx e h)) =
        spec_alloc (cx_build cx) e (tracker_view (tracker_of h))"
proof -
  have inv: "tracker_inv (tracker_of h)" using ok by (simp add: tracking_ok_def)
  note keep = snapshot_keeps [OF ok, of "has_compiler_plugins (cx_build cx)"]
  show ?thesis
  proof (cases e)
    case (Begin_Kernel l d)
    then show ?thesis
      using tracker_of_begin_kernel [of cx l d h] keep ok
      by (auto simp: kokkosp_begin_parallel_for_def tracker_view_def)
  next
    case (End_Kernel k)
    then show ?thesis
      using tracker_of_end_kernel [of cx k h] keep ok
      by (auto simp: kokkosp_end_parallel_for_def tracker_view_def)
  next
    case (Allocate_Data s l p n)
    show ?thesis
    proof (cases "should_track_allocation l p")
      case True
      then have p: "p \<noteq> nullptr" by (simp add: should_track_allocation_def)
      show ?thesis
        using ok True size_settled_allocation [of cx]
        by (auto simp: Allocate_Data kokkosp_allocate_data_def Let_def tracking_ok_def
            tracker_inv_record_allocation live_record_allocation tracker_view_def summary_def p
            fun_eq_iff simp del: not_None_eq split: if_splits)
    next
      case False
      then show ?thesis
        using ok by (simp add: Allocate_Data kokkosp_allocate_data_def Let_def tracker_view_def)
    qed
  next
    case (Deallocate_Data s p)
    have "tracking_ok (cx_build cx) (record_deallocation s' p (tracker_of h))" for s'
      using ok by (simp add: tracking_ok_def tracker_inv_record_deallocation
          live_record_deallocation [OF inv])
    moreover have "p = nullptr \<Longrightarrow> tracker_view (tracker_of h) =
        (let (L, R) = tracker_view (tracker_of h) in (L(s' := (L s')(p := None)), R))" for s'
      using live_null [OF inv, of s'] by (auto simp: tracker_view_def fun_eq_iff)
    ultimately show ?thesis
      using ok tracking_deallocated [OF inv, of "space_name s" p]
      by (auto simp: Deallocate_Data kokkosp_deallocate_data_def Let_def case_prod_beta
          tracker_view_def)
  next
    case (Register_View data s)
    then show ?thesis
      using ok by (auto simp: krepe_kernel_dump_register_view_def tracking_ok_def tracker_view_def
          tracker_inv_record_used_allocation registered_record_used_allocation fun_eq_iff)
  next
    case Clear_Views
    then show ?thesis
      using ok by (auto simp: krepe_kernel_dump_clear_registered_views_def tracking_ok_def
          tracker_view_def tracker_inv_clear_used_allocations fun_eq_iff)
  qed (use ok in \<open>simp_all add: hook_defs Let_def tracker_view_def\<close>)
qed

interpretation hook_tracking: simulation "hook_step cx" "spec_alloc (cx_build cx)"
  "\<lambda>h. tracker_view (tracker_of h)" "\<lambda>h. tracking_ok (cx_build cx) (tracker_of h)" for cx
  by unfold_locales (simp_all only: hook_step_tracking)

lemma tracking_initial:
  "tracking_ok b (tracker_of (initial_hooks w))"
  "tracker_view (tracker_of (initial_hooks w)) = (\<lambda>_ _. None, \<lambda>_. {})"
  by (simp_all add: initial_hooks_def tracking_ok_def tracker_inv_empty tracker_view_def fun_eq_iff)

lemma tracking_run:
  shows "tracking_ok (cx_build cx) (tracker_of (hook_run cx es (initial_hooks w)))"
    and "tracker_view (tracker_of (hook_run cx es (initial_hooks w))) =
      fold (spec_alloc (cx_build cx)) es (\<lambda>_ _. None, \<lambda>_. {})"
  unfolding hook_run_def
  using hook_tracking.ok_fold [of cx "initial_hooks w" es]
    hook_tracking.view_fold [of cx "initial_hooks w" es]
  by (simp_all add: tracking_initial)

section \<open>Properties\<close>

text \<open>
  Property C10.  What a capture sees of the application's memory is what its history says:
  after any hook calls from the initial state, the snapshot lists, among the allocations
  whose reported size cannot be the legacy size of an empty view, exactly those allocated
  with a label that is not internal and not released since, with the label, the data
  pointer and the size they were reported with; in the plugin build only those that hold
  a pointer registered for the kernel in the same memory space.
\<close>

theorem snapshot_matches_hook_history:
  "let b = cx_build cx;
       s = fst (snapshot (has_compiler_plugins b) (tracker_of (hook_run cx es (initial_hooks w))));
       (L, R) = fold (spec_alloc b) es (\<lambda>_ _. None, \<lambda>_. {})
   in {(ar_space r, ptr, ar_label r, ar_p_data r, ar_size r) | ptr r.
         \<lparr>aa_ptr = ptr, aa_record = r\<rparr> \<in> set (sn_allocations s)
         \<and> ar_reported_size r \<noteq> allocation_header_size b}
      = {(space, ptr, label, p_data, sz) | space ptr label p_data sz.
         L space ptr = Some (label, p_data, sz) \<and> sz \<noteq> allocation_header_size b
         \<and> (if has_compiler_plugins b
             then \<exists>u. u \<in> R space \<and> p_data \<le> u \<and> u \<le> p_data + sz else True)}"
proof -
  let ?b = "cx_build cx" and ?p = "has_compiler_plugins (cx_build cx)"
  let ?t = "tracker_of (hook_run cx es (initial_hooks w))"
  obtain L R where LR: "fold (spec_alloc ?b) es (\<lambda>_ _. None, \<lambda>_. {}) = (L, R)" by fastforce
  have inv: "tracker_inv ?t"
    and sized: "\<And>space ptr r. live ?t space ptr = Some r \<Longrightarrow> size_settled ?b r"
    using tracking_run(1) [of cx es w] by (auto simp: tracking_ok_def)
  have L: "L space ptr = map_option summary (live ?t space ptr)" and R: "R = registered ?t"
    for space ptr
    using tracking_run(2) [of cx es w] by (auto simp: tracker_view_def LR)
  have mem: "\<lparr>aa_ptr = ptr, aa_record = r\<rparr> \<in> set (sn_allocations (fst (snapshot ?p ?t))) \<longleftrightarrow>
      (ptr, r) \<in> set (captured_entries ?p ?t)" for ptr r
    using inj_image_mem_iff [OF inj_as_active, of "(ptr, r)"]
    by (simp add: snapshot_correct(1) [OF inv] push_allocations_fields as_active_def comp_def)
  note iff = captured_entries_iff [OF inv, of _ _ ?p]
  show ?thesis
    unfolding Let_def LR prod.case
  proof (rule set_eqI, rule iffI)
    fix x
    assume "x \<in> {(ar_space r, ptr, ar_label r, ar_p_data r, ar_size r) | ptr r.
        \<lparr>aa_ptr = ptr, aa_record = r\<rparr> \<in> set (sn_allocations (fst (snapshot ?p ?t)))
        \<and> ar_reported_size r \<noteq> allocation_header_size ?b}"
    then obtain ptr r where x: "x = (ar_space r, ptr, ar_label r, ar_p_data r, ar_size r)"
      and c: "(ptr, r) \<in> set (captured_entries ?p ?t)"
      and n: "ar_reported_size r \<noteq> allocation_header_size ?b" by (auto simp: mem)
    have live: "live ?t (ar_space r) ptr = Some r" using c iff by blast
    then have sz: "ar_size r = ar_reported_size r"
      using sized n by (auto simp: size_settled_def)
    then show "x \<in> {(space, ptr, label, p_data, sz) | space ptr label p_data sz.
        L space ptr = Some (label, p_data, sz) \<and> sz \<noteq> allocation_header_size ?b
        \<and> (if ?p then \<exists>u. u \<in> R space \<and> p_data \<le> u \<and> u \<le> p_data + sz else True)}"
      using live n c iff x by (auto simp: L R summary_def)
  next
    fix x
    assume "x \<in> {(space, ptr, label, p_data, sz) | space ptr label p_data sz.
        L space ptr = Some (label, p_data, sz) \<and> sz \<noteq> allocation_header_size ?b
        \<and> (if ?p then \<exists>u. u \<in> R space \<and> p_data \<le> u \<and> u \<le> p_data + sz else True)}"
    then obtain space ptr r where
      x: "x = (space, ptr, ar_label r, ar_p_data r, ar_reported_size r)"
      and live: "live ?t space ptr = Some r"
      and n: "ar_reported_size r \<noteq> allocation_header_size ?b"
      and used: "if ?p then \<exists>u. u \<in> R space \<and> ar_p_data r \<le> u \<and> u \<le> ar_p_data r + ar_reported_size r
        else True"
      by (auto simp: L summary_def)
    have sp: "ar_space r = space" by (rule live_space [OF inv live])
    have sz: "ar_size r = ar_reported_size r"
      using sized [OF live] n by (simp add: size_settled_def)
    have "(ptr, r) \<in> set (captured_entries ?p ?t)"
      using live used by (auto simp: iff sp sz R split: if_splits)
    then show "x \<in> {(ar_space r, ptr, ar_label r, ar_p_data r, ar_size r) | ptr r.
        \<lparr>aa_ptr = ptr, aa_record = r\<rparr> \<in> set (sn_allocations (fst (snapshot ?p ?t)))
        \<and> ar_reported_size r \<noteq> allocation_header_size ?b}"
      using n x sp sz mem by (auto intro!: exI [of _ ptr] exI [of _ r])
  qed
qed

text \<open>
  Property C28.  \<open>validated_data_size\<close> never lets a dump read outside an allocation: a
  size is returned only for a data pointer inside the physical allocation (or at its end),
  the bytes it announces lie inside the allocation, and it is the reported size exactly
  when that many bytes fit, zero otherwise.
\<close>

theorem validated_data_size_in_bounds:
  "case validated_data_size base sz p n of
     None \<Rightarrow> unat p < unat base \<or> unat base + unat sz < unat p
   | Some k \<Rightarrow>
       unat base \<le> unat p \<and> unat p + unat k \<le> unat base + unat sz
       \<and> k = (if unat p + unat n \<le> unat base + unat sz then n else 0)"
proof (cases "p < base")
  case True
  then show ?thesis by (simp add: validated_data_size_def word_less_nat_alt)
next
  case False
  then have le: "unat base \<le> unat p" by (simp add: word_le_nat_alt not_less)
  then have off: "unat (p - base) = unat p - unat base"
    using False by (subst unat_sub_le) (simp_all add: not_less)
  consider "unat p - unat base > unat sz" | "unat p - unat base = unat sz"
    | "unat p - unat base < unat sz" by linarith
  then show ?thesis
  proof cases
    case 1
    then show ?thesis
      using False le by (simp add: validated_data_size_def Let_def word_less_nat_alt off)
  next
    case 2
    then have "p - base = sz" using off by (simp add: word_unat_eq_iff)
    moreover have "n = 0" if "unat p + unat n \<le> unat base + unat sz"
      using that 2 le by (simp add: word_unat_eq_iff)
    ultimately show ?thesis
      using False le 2 by (auto simp: validated_data_size_def)
  next
    case 3
    have avail: "unat (sz - (p - base)) = unat sz - (unat p - unat base)"
      using 3 by (subst unat_sub_le) (simp_all add: word_le_nat_alt off)
    have ne: "p - base \<noteq> sz" using 3 off by auto
    show ?thesis
      using False le 3 ne
      by (auto simp: validated_data_size_def Let_def word_less_nat_alt word_le_nat_alt off avail)
  qed
qed

end
