(* ===== verification/Hdf5_Store.thy ===== *)
theory Hdf5_Store
  imports Hdf5
begin

text \<open>
  What the program relies on of the contents of HDF5 files: a file is a tree of groups and
  datasets with attributes, named by paths, a handle refers to a place in it, and a call
  that succeeds has the documented effect on both.  The locales state these laws of an
  arbitrary library through an abstract view of its state; \<open>Reference_Store\<close> provides
  them.  The lemmas here are the client's: what the writers of a dump do to a file.
\<close>

section \<open>Files and handles\<close>

text \<open>An absolute path; the parts of a relative one, where \<open>.\<close> names the place itself.\<close>

type_synonym h5path = "string list"

fun split_slash :: "string \<Rightarrow> string list" where
  "split_slash [] = [[]]"
| "split_slash (c # s) =
     (if c = CHR ''/'' then [] # split_slash s
      else case split_slash s of [] \<Rightarrow> [[c]] | part # parts \<Rightarrow> (c # part) # parts)"

definition split_path :: "string \<Rightarrow> string list" where
  "split_path s = List.filter (\<lambda>part. part \<noteq> [] \<and> part \<noteq> ''.'') (split_slash s)"

lemma split_slash_plain:
  "CHR ''/'' \<notin> set s \<Longrightarrow> split_slash s = [s]"
  "CHR ''/'' \<notin> set s \<Longrightarrow> split_slash (s @ CHR ''/'' # t) = s # split_slash t"
  by (induction s) auto

lemma split_path_plain:
  "CHR ''/'' \<notin> set s \<Longrightarrow> s \<noteq> [] \<Longrightarrow> s \<noteq> ''.'' \<Longrightarrow> split_path s = [s]"
  "CHR ''/'' \<notin> set s \<Longrightarrow> s \<noteq> [] \<Longrightarrow> s \<noteq> ''.'' \<Longrightarrow>
     split_path (s @ CHR ''/'' # t) = s # split_path t"
  by (simp_all add: split_path_def split_slash_plain)

datatype h5type = Native_Type h5native | C_String nat

text \<open>The size in bytes of a value of a type, on the platforms the program builds for.\<close>

fun type_size :: "h5type \<Rightarrow> nat" where
  "type_size (Native_Type NATIVE_UINT64) = 8"
| "type_size (Native_Type NATIVE_INT) = 4"
| "type_size (Native_Type NATIVE_INT64) = 8"
| "type_size (Native_Type NATIVE_UCHAR) = 1"
| "type_size (C_String n) = n"

type_synonym h5attr = "h5type \<times> h5buf option"
type_synonym h5data = "h5native \<times> nat \<times> h5buf option"

record h5file =
  fl_groups :: "h5path set"
  fl_attrs :: "h5path \<Rightarrow> string \<rightharpoonup> h5attr"
  fl_datasets :: "h5path \<rightharpoonup> h5data"

definition empty_file :: h5file where
  "empty_file = \<lparr>fl_groups = {[]}, fl_attrs = (\<lambda>_. Map.empty), fl_datasets = Map.empty\<rparr>"

definition put_attr :: "h5path \<Rightarrow> string \<Rightarrow> h5attr \<Rightarrow> h5file \<Rightarrow> h5file" where
  "put_attr p name a F = F\<lparr>fl_attrs := (fl_attrs F)(p := (fl_attrs F p)(name \<mapsto> a))\<rparr>"

definition put_group :: "h5path \<Rightarrow> h5file \<Rightarrow> h5file" where
  "put_group p F = F\<lparr>fl_groups := insert p (fl_groups F)\<rparr>"

definition put_data :: "h5path \<Rightarrow> h5data \<Rightarrow> h5file \<Rightarrow> h5file" where
  "put_data p d F = F\<lparr>fl_datasets := (fl_datasets F)(p \<mapsto> d)\<rparr>"

text \<open>The names directly below a group.\<close>

definition children :: "h5file \<Rightarrow> h5path \<Rightarrow> string set" where
  "children F p = {n. p @ [n] \<in> fl_groups F \<or> p @ [n] \<in> dom (fl_datasets F)}"

datatype h5ref =
  File_Ref string
| Group_Ref string h5path
| Dataset_Ref string h5path
| Attr_Ref string h5path string
| Space_Ref "nat option"
| Type_Ref h5type

fun kind_of :: "h5ref \<Rightarrow> h5kind" where
  "kind_of (File_Ref f) = File_Kind"
| "kind_of (Group_Ref f p) = Group_Kind"
| "kind_of (Dataset_Ref f p) = Dataset_Kind"
| "kind_of (Attr_Ref f p n) = Attribute_Kind"
| "kind_of (Space_Ref d) = Space_Kind"
| "kind_of (Type_Ref t) = Type_Kind"

text \<open>The group a file or group handle stands for.\<close>

fun place_of :: "h5ref \<Rightarrow> (string \<times> h5path) option" where
  "place_of (File_Ref f) = Some (f, [])"
| "place_of (Group_Ref f p) = Some (f, p)"
| "place_of _ = None"

record h5view =
  h5_refs :: "hid \<rightharpoonup> h5ref"
  h5_disk :: "string \<rightharpoonup> h5file"

definition place :: "'x h5view_scheme \<Rightarrow> hid \<Rightarrow> (string \<times> h5path) option" where
  "place v l = Option.bind (h5_refs v l) place_of"

definition handle_kinds :: "'x h5view_scheme \<Rightarrow> hid \<rightharpoonup> h5kind" where
  "handle_kinds v i = map_option kind_of (h5_refs v i)"

definition type_of_tid :: "'x h5view_scheme \<Rightarrow> h5tid \<Rightarrow> h5type option" where
  "type_of_tid v ty =
     (case ty of
        Predefined n \<Rightarrow> Some (Native_Type n)
      | Type_Handle t \<Rightarrow> (case h5_refs v t of Some (Type_Ref T) \<Rightarrow> Some T | _ \<Rightarrow> None))"

definition new_ref :: "hid \<Rightarrow> h5ref \<Rightarrow> 'x h5view_scheme \<Rightarrow> 'x h5view_scheme" where
  "new_ref i r v = v\<lparr>h5_refs := (h5_refs v)(i \<mapsto> r)\<rparr>"

definition drop_ref :: "hid \<Rightarrow> 'x h5view_scheme \<Rightarrow> 'x h5view_scheme" where
  "drop_ref i v = v\<lparr>h5_refs := (h5_refs v)(i := None)\<rparr>"

definition on_file :: "string \<Rightarrow> (h5file \<Rightarrow> h5file) \<Rightarrow> 'x h5view_scheme \<Rightarrow> 'x h5view_scheme" where
  "on_file f g v = v\<lparr>h5_disk := (h5_disk v)(f := map_option g (h5_disk v f))\<rparr>"

text \<open>What an open file holds at a path.\<close>

definition attr_at :: "'x h5view_scheme \<Rightarrow> string \<Rightarrow> h5path \<Rightarrow> string \<Rightarrow> h5attr option" where
  "attr_at v f p name = Option.bind (h5_disk v f) (\<lambda>F. fl_attrs F p name)"

definition data_at :: "'x h5view_scheme \<Rightarrow> string \<Rightarrow> h5path \<Rightarrow> h5data option" where
  "data_at v f p = Option.bind (h5_disk v f) (\<lambda>F. fl_datasets F p)"

section \<open>The laws of a library that stores what it is told\<close>

locale hdf5_store = hdf5_handles api "\<lambda>w. handle_kinds (view w)"
  for api :: "'w hdf5" and view :: "'w \<Rightarrow> 'x h5view_scheme" +
  assumes Tcopy:
      "H5Tcopy_c_s1 api w = (i, w') \<Longrightarrow> 0 \<le> i \<Longrightarrow> view w' = new_ref i (Type_Ref (C_String 1)) (view w)"
    and Tset_size:
      "h5_refs (view w) t = Some (Type_Ref T) \<Longrightarrow> H5Tset_size api t n w = (s, w') \<Longrightarrow> 0 \<le> s \<Longrightarrow>
         view w' = new_ref t (Type_Ref (C_String n)) (view w)"
    and Tset_strpad: "H5Tset_strpad_nullterm api t w = (s, w') \<Longrightarrow> 0 \<le> s \<Longrightarrow> view w' = view w"
    and Screate_scalar:
      "H5Screate_scalar api w = (i, w') \<Longrightarrow> 0 \<le> i \<Longrightarrow> view w' = new_ref i (Space_Ref None) (view w)"
    and Screate_simple:
      "H5Screate_simple api n w = (i, w') \<Longrightarrow> 0 \<le> i \<Longrightarrow>
         view w' = new_ref i (Space_Ref (Some n)) (view w)"
    and Acreate2:
      "place (view w) l = Some (f, p) \<Longrightarrow> type_of_tid (view w) ty = Some T \<Longrightarrow>
         H5Acreate2 api l name ty sp w = (i, w') \<Longrightarrow> 0 \<le> i \<Longrightarrow>
         view w' = new_ref i (Attr_Ref f p name) (on_file f (put_attr p name (T, None)) (view w))"
    and Awrite:
      "h5_refs (view w) a = Some (Attr_Ref f p name) \<Longrightarrow> attr_at (view w) f p name = Some (T, x) \<Longrightarrow>
         type_of_tid (view w) ty = Some T \<Longrightarrow> H5Awrite api a ty buf w = (s, w') \<Longrightarrow> 0 \<le> s \<Longrightarrow>
         view w' = on_file f (put_attr p name (T, Some buf)) (view w)"
    and Dcreate2:
      "place (view w) l = Some (f, p) \<Longrightarrow> h5_refs (view w) sp = Some (Space_Ref (Some n)) \<Longrightarrow>
         H5Dcreate2 api l name (Predefined nty) sp w = (i, w') \<Longrightarrow> 0 \<le> i \<Longrightarrow>
         view w' = new_ref i (Dataset_Ref f (p @ split_path name))
           (on_file f (put_data (p @ split_path name) (nty, n, None)) (view w))"
    and Dwrite:
      "h5_refs (view w) d = Some (Dataset_Ref f p) \<Longrightarrow> data_at (view w) f p = Some (nty, n, x') \<Longrightarrow>
         H5Dwrite api d (Predefined nty) buf w = (s, w') \<Longrightarrow> 0 \<le> s \<Longrightarrow>
         view w' = on_file f (put_data p (nty, n, Some buf)) (view w)"
    and Gcreate2:
      "place (view w) l = Some (f, p) \<Longrightarrow> H5Gcreate2 api l name w = (i, w') \<Longrightarrow> 0 \<le> i \<Longrightarrow>
         view w' = new_ref i (Group_Ref f (p @ split_path name))
           (on_file f (put_group (p @ split_path name)) (view w))"
    and Fcreate_trunc:
      "H5Fcreate_trunc api fn w = (i, w') \<Longrightarrow> 0 \<le> i \<Longrightarrow>
         view w' = new_ref i (File_Ref fn)
           ((view w)\<lparr>h5_disk := (h5_disk (view w))(fn \<mapsto> empty_file)\<rparr>)"
    and Fopen_rdwr:
      "H5Fopen_rdwr api fn w = (i, w') \<Longrightarrow> 0 \<le> i \<Longrightarrow>
         view w' = new_ref i (File_Ref fn) (view w)"
    and closing:
      "handle_kinds (view w) i = Some Type_Kind \<Longrightarrow> view (snd (H5Tclose api i w)) = drop_ref i (view w)"
      "handle_kinds (view w) i = Some Space_Kind \<Longrightarrow> view (snd (H5Sclose api i w)) = drop_ref i (view w)"
      "handle_kinds (view w) i = Some Attribute_Kind \<Longrightarrow>
         view (snd (H5Aclose api i w)) = drop_ref i (view w)"
      "handle_kinds (view w) i = Some Dataset_Kind \<Longrightarrow>
         view (snd (H5Dclose api i w)) = drop_ref i (view w)"
      "handle_kinds (view w) i = Some Group_Kind \<Longrightarrow> view (snd (H5Gclose api i w)) = drop_ref i (view w)"
      "handle_kinds (view w) i = Some File_Kind \<Longrightarrow> view (snd (H5Fclose api i w)) = drop_ref i (view w)"
begin

text \<open>A scoped handle: fresh when it is opened, gone when the block is left.\<close>

lemma scoped_view:
  assumes run: "scoped (CHECK_HDF5_ID e call) close body w = (Inr x, w')"
    and opens: "opens (\<lambda>w. handle_kinds (view w)) k call"
    and closed: "\<And>i w. handle_kinds (view w) i = Some k \<Longrightarrow> view (snd (close i w)) = drop_ref i (view w)"
  obtains i w1 w2 where "call w = (i, w1)" and "0 \<le> i" and "h5_refs (view w) i = None"
    and "body i w1 = (Inr x, w2)"
    and "handle_kinds (view w2) i = Some k \<longrightarrow> view w' = drop_ref i (view w2)"
proof -
  have pos: "\<And>i w1. CHECK_HDF5_ID e call w = (Inr i, w1) \<Longrightarrow> 0 \<le> i"
    by (simp add: CHECK_HDF5_ID_Inr)
  obtain i w1 w2 s where *: "CHECK_HDF5_ID e call w = (Inr i, w1)" "body i w1 = (Inr x, w2)"
      "close i w2 = (s, w')"
    by (rule scoped_Inr_E [OF run pos])
  have call: "call w = (i, w1)" "0 \<le> i" using *(1) by (simp_all add: CHECK_HDF5_ID_Inr)
  have "h5_refs (view w) i = None"
    using opensD(1) [OF opens call] by (simp add: handle_kinds_def)
  moreover have "handle_kinds (view w2) i = Some k \<longrightarrow> view w' = drop_ref i (view w2)"
    using closed [of w2 i] *(3) by simp
  ultimately show thesis using that call *(2) by blast
qed

end

section \<open>What a computation does to a file\<close>

text \<open>
  \<open>effect view l m f p g\<close>: when the handle \<open>l\<close> stands for the group \<open>p\<close> of the file \<open>f\<close>
  and \<open>m\<close> succeeds, it has changed that file by \<open>g\<close> and nothing else.
\<close>

definition effect ::
  "('w \<Rightarrow> 'x h5view_scheme) \<Rightarrow> hid \<Rightarrow> ('w, 'a) prog \<Rightarrow> string \<Rightarrow> h5path \<Rightarrow> (h5file \<Rightarrow> h5file) \<Rightarrow> bool"
where
  "effect view l m f p g \<longleftrightarrow>
     (\<forall>w x w'. place (view w) l = Some (f, p) \<longrightarrow> h5_disk (view w) f \<noteq> None \<longrightarrow>
        m w = (Inr x, w') \<longrightarrow> view w' = on_file f g (view w))"

lemma effectI:
  "(\<And>w x w'. place (view w) l = Some (f, p) \<Longrightarrow> h5_disk (view w) f \<noteq> None \<Longrightarrow>
      m w = (Inr x, w') \<Longrightarrow> view w' = on_file f g (view w)) \<Longrightarrow> effect view l m f p g"
  unfolding effect_def by blast

lemma effectD:
  "effect view l m f p g \<Longrightarrow> m w = (Inr x, w') \<Longrightarrow> place (view w) l = Some (f, p) \<Longrightarrow>
     h5_disk (view w) f \<noteq> None \<Longrightarrow> view w' = on_file f g (view w)"
  unfolding effect_def by blast

lemma on_file_simps [simp]:
  "h5_refs (on_file f g v) = h5_refs v"
  "place (on_file f g v) = place v"
  "handle_kinds (on_file f g v) = handle_kinds v"
  "type_of_tid (on_file f g v) = type_of_tid v"
  "h5_disk (on_file f g v) f = map_option g (h5_disk v f)"
  "on_file f h (on_file f g v) = on_file f (\<lambda>F. h (g F)) v"
  by (simp_all add: on_file_def place_def handle_kinds_def type_of_tid_def fun_eq_iff
      option.map_comp comp_def split: h5tid.split)

lemma on_file_id: "on_file f (\<lambda>F. F) v = v"
  by (simp add: on_file_def option.map_ident)

lemma effect_and_then:
  assumes "effect view l m f p g" and "\<And>x. effect view l (k x) f p h"
  shows "effect view l (and_then m k) f p (\<lambda>F. h (g F))"
proof (rule effectI)
  fix w x w'
  assume l: "place (view w) l = Some (f, p)" and d: "h5_disk (view w) f \<noteq> None"
    and run: "and_then m k w = (Inr x, w')"
  obtain y w1 where m: "m w = (Inr y, w1)" and k: "k y w1 = (Inr x, w')"
    using run by (rule and_then_Inr_E)
  have w1: "view w1 = on_file f g (view w)" by (rule effectD [OF assms(1) m l d])
  then show "view w' = on_file f (\<lambda>F. h (g F)) (view w)"
    using effectD [OF assms(2) k] l d by simp
qed

lemma effect_done_with: "effect view l (done_with x) f p (\<lambda>F. F)"
  by (rule effectI) (simp add: prog_simps on_file_id)

lemma effect_run_all_Nil: "effect view l (run_all []) f p (\<lambda>F. F)"
  by (simp add: effect_done_with)

lemma effect_run_all_Cons:
  "effect view l m f p g \<Longrightarrow> effect view l (run_all ms) f p h \<Longrightarrow>
     effect view l (run_all (m # ms)) f p (\<lambda>F. h (g F))"
  unfolding run_all.simps by (rule effect_and_then)

lemma effect_for_each:
  assumes "\<And>x. x \<in> set xs \<Longrightarrow> effect view l (m x) f p (g x)"
  shows "effect view l (for_each m xs) f p (fold g xs)"
  using assms
proof (induction xs)
  case Nil
  show ?case by (simp add: effect_done_with id_def)
next
  case (Cons x xs)
  then have "effect view l (for_each m (x # xs)) f p (\<lambda>F. fold g xs (g x F))"
    unfolding for_each.simps by (intro effect_and_then) simp_all
  then show ?case by (simp add: comp_def)
qed

lemma new_ref_simps [simp]:
  "h5_refs (new_ref i r v) j = (if j = i then Some r else h5_refs v j)"
  "h5_disk (new_ref i r v) = h5_disk v"
  "handle_kinds (new_ref i r v) j = (if j = i then Some (kind_of r) else handle_kinds v j)"
  "h5_refs (drop_ref i v) j = (if j = i then None else h5_refs v j)"
  "h5_disk (drop_ref i v) = h5_disk v"
  by (simp_all add: new_ref_def drop_ref_def handle_kinds_def)

lemma place_new_ref:
  "h5_refs v i = None \<Longrightarrow> place v l = Some q \<Longrightarrow> place (new_ref i r v) l = Some q"
  by (cases "l = i") (simp_all add: place_def)

lemma type_of_tid_new_ref:
  "h5_refs v i = None \<Longrightarrow> type_of_tid v ty = Some T \<Longrightarrow> type_of_tid (new_ref i r v) ty = Some T"
  by (auto simp: type_of_tid_def split: h5tid.splits)

lemma drop_new_ref:
  "h5_refs v i = None \<Longrightarrow> drop_ref i (on_file f g (new_ref i r v)) = on_file f g v"
  "h5_refs v i = None \<Longrightarrow> drop_ref i (new_ref i r v) = v"
  by (auto simp: drop_ref_def new_ref_def on_file_def fun_eq_iff intro!: h5view.equality)

lemma on_file_new_ref: "on_file f g (new_ref i r v) = new_ref i r (on_file f g v)"
  by (simp add: on_file_def new_ref_def)

lemma put_attr_twice [simp]: "put_attr p n b (put_attr p n a F) = put_attr p n b F"
  by (simp add: put_attr_def)

lemma put_data_twice [simp]: "put_data p b (put_data p a F) = put_data p b F"
  by (simp add: put_data_def)

lemma attr_at_put [simp]:
  "attr_at (on_file f (put_attr p n a) v) f p n = (if h5_disk v f = None then None else Some a)"
  by (auto simp: attr_at_def put_attr_def)

lemma data_at_put [simp]:
  "data_at (on_file f (put_data p d) v) f p = (if h5_disk v f = None then None else Some d)"
  by (auto simp: data_at_def put_data_def)

lemma attr_data_at_new_ref [simp]:
  "attr_at (new_ref i r v) = attr_at v" "data_at (new_ref i r v) = data_at v"
  by (simp_all add: attr_at_def data_at_def fun_eq_iff)

section \<open>The laws of a library that reads back what is stored\<close>

text \<open>
  A library that does not fail to read what a file holds: opening what exists succeeds, a
  value is read back as it was written, and iterations visit every name once, in an order
  that is not specified.
\<close>

fun empty_buffer :: "h5native \<Rightarrow> h5buf" where
  "empty_buffer NATIVE_UCHAR = Uchars []"
| "empty_buffer NATIVE_INT64 = Int64s []"
| "empty_buffer _ = Chars []"

locale hdf5_reader = hdf5_store +
  assumes Aopen_by_name:
      "place (view w) l = Some (f, p) \<Longrightarrow> attr_at (view w) f (p @ split_path obj) name = Some a \<Longrightarrow>
         \<exists>i w'. H5Aopen_by_name api l obj name w = (i, w') \<and> 0 \<le> i
           \<and> view w' = new_ref i (Attr_Ref f (p @ split_path obj) name) (view w)"
    and Aget_info:
      "h5_refs (view w) h = Some (Attr_Ref f p name) \<Longrightarrow> attr_at (view w) f p name = Some (T, x) \<Longrightarrow>
         \<exists>s w'. H5Aget_info api h w = ((s, type_size T), w') \<and> 0 \<le> s \<and> view w' = view w"
    and Aget_type:
      "h5_refs (view w) h = Some (Attr_Ref f p name) \<Longrightarrow> attr_at (view w) f p name = Some (T, x) \<Longrightarrow>
         \<exists>i w'. H5Aget_type api h w = (i, w') \<and> 0 \<le> i \<and> view w' = new_ref i (Type_Ref T) (view w)"
    and Aread:
      "h5_refs (view w) h = Some (Attr_Ref f p name) \<Longrightarrow> attr_at (view w) f p name = Some (T, Some buf) \<Longrightarrow>
         type_of_tid (view w) ty = Some T \<Longrightarrow>
         \<exists>s w'. H5Aread api h ty w = ((s, buf), w') \<and> 0 \<le> s \<and> view w' = view w"
    and get_ndims:
      "place (view w) l = Some (f, p) \<Longrightarrow> data_at (view w) f (p @ split_path obj) = Some d \<Longrightarrow>
         \<exists>s w'. H5LTget_dataset_ndims api l obj w = ((s, 1), w') \<and> 0 \<le> s \<and> view w' = view w"
    and get_dataset_info:
      "place (view w) l = Some (f, p) \<Longrightarrow> data_at (view w) f (p @ split_path obj) = Some (nty, n, x) \<Longrightarrow>
         \<exists>s w'. H5LTget_dataset_info api l obj w =
             ((s, \<lparr>info_count = n, info_is_integer = True, info_type_size = type_size (Native_Type nty)\<rparr>), w')
           \<and> 0 \<le> s \<and> view w' = view w"
    and read_dataset:
      "place (view w) l = Some (f, p) \<Longrightarrow> data_at (view w) f (p @ split_path obj) = Some (nty, n, Some buf) \<Longrightarrow>
         \<exists>s w'. H5LTread_dataset api l obj nty w = ((s, buf), w') \<and> 0 \<le> s \<and> view w' = view w"
    and read_empty_dataset:
      "place (view w) l = Some (f, p) \<Longrightarrow> data_at (view w) f (p @ split_path obj) = Some (nty, 0, None) \<Longrightarrow>
         \<exists>s w'. H5LTread_dataset api l obj nty w = ((s, empty_buffer nty), w') \<and> 0 \<le> s \<and> view w' = view w"
    and Fopen_rdonly:
      "h5_disk (view w) fn \<noteq> None \<Longrightarrow>
         \<exists>i w'. H5Fopen_rdonly api fn w = (i, w') \<and> 0 \<le> i \<and> view w' = new_ref i (File_Ref fn) (view w)"
    and Lexists:
      "place (view w) l = Some (f, p) \<Longrightarrow> h5_disk (view w) f = Some F \<Longrightarrow>
         p @ butlast (split_path obj) \<in> fl_groups F \<Longrightarrow>
         \<exists>s w'. H5Lexists api l obj w = (s, w') \<and> 0 \<le> s \<and> view w' = view w
           \<and> (0 < s \<longleftrightarrow> p @ split_path obj \<in> fl_groups F \<union> dom (fl_datasets F))"
    and Literate_open:
      "place (view w) l = Some (f, p) \<Longrightarrow> h5_disk (view w) f = Some F \<Longrightarrow>
         p @ split_path obj \<in> fl_groups F \<Longrightarrow>
         \<exists>i w'. H5Literate_open api l obj w = (i, w') \<and> 0 \<le> i
           \<and> view w' = new_ref i (Group_Ref f (p @ split_path obj)) (view w)"
    and Literate_names:
      "place (view w) l = Some (f, p) \<Longrightarrow> h5_disk (view w) f = Some F \<Longrightarrow>
         distinct (H5Literate_names api l w) \<and> set (H5Literate_names api l w) = children F p"
    and Aiterate_names:
      "place (view w) l = Some (f, p) \<Longrightarrow> h5_disk (view w) f = Some F \<Longrightarrow>
         distinct (H5Aiterate_names api l w) \<and> set (H5Aiterate_names api l w) = dom (fl_attrs F p)"
begin

end

text \<open>
  \<open>yields view v m x\<close>: in any state the library sees as \<open>v\<close>, the computation \<open>m\<close> succeeds
  with \<open>x\<close> and leaves the library as it was.
\<close>

definition yields :: "('w \<Rightarrow> 'x h5view_scheme) \<Rightarrow> 'x h5view_scheme \<Rightarrow> ('w, 'a) prog \<Rightarrow> 'a \<Rightarrow> bool" where
  "yields view v m x \<longleftrightarrow> (\<forall>w. view w = v \<longrightarrow> (\<exists>w'. m w = (Inr x, w') \<and> view w' = v))"

lemma yieldsD: "yields view v m x \<Longrightarrow> view w = v \<Longrightarrow> \<exists>w'. m w = (Inr x, w') \<and> view w' = v"
  by (simp add: yields_def)

lemma yields_done_with: "yields view v (done_with x) x"
  by (simp add: yields_def prog_simps)

lemma yields_and_then:
  assumes "yields view v m x" and "yields view v (k x) y"
  shows "yields view v (and_then m k) y"
  unfolding yields_def
proof (intro allI impI)
  fix w assume "view w = v"
  then obtain w1 where "m w = (Inr x, w1)" "view w1 = v" using yieldsD [OF assms(1)] by blast
  moreover obtain w2 where "k x w1 = (Inr y, w2)" "view w2 = v"
    using yieldsD [OF assms(2) \<open>view w1 = v\<close>] by blast
  ultimately show "\<exists>w'. and_then m k w = (Inr y, w') \<and> view w' = v"
    by (simp add: and_then_def)
qed

lemma yields_out:
  assumes "\<And>w. view w = v \<Longrightarrow> \<exists>s w'. call w = ((s, x), w') \<and> 0 \<le> s \<and> view w' = view w"
  shows "yields view v (CHECK_HDF5_OUT e call) x"
  unfolding yields_def
proof (intro allI impI)
  fix w assume w: "view w = v"
  obtain s w' where "call w = ((s, x), w')" "0 \<le> s" "view w' = view w" using assms [OF w] by blast
  then show "\<exists>w'. CHECK_HDF5_OUT e call w = (Inr x, w') \<and> view w' = v"
    using w by (auto simp: CHECK_HDF5_OUT_Inr)
qed

context hdf5_store
begin

lemma yields_scoped:
  assumes call: "\<And>w. view w = v \<Longrightarrow> \<exists>i w'. call w = (i, w') \<and> 0 \<le> i \<and> view w' = new_ref i r v"
    and body: "\<And>i. h5_refs v i = None \<Longrightarrow> yields view (new_ref i r v) (body i) x"
    and opens: "opens (\<lambda>w. handle_kinds (view w)) (kind_of r) call"
    and closes: "closes (\<lambda>w. handle_kinds (view w)) (kind_of r) close"
    and closed: "\<And>i w. handle_kinds (view w) i = Some (kind_of r) \<Longrightarrow>
      view (snd (close i w)) = drop_ref i (view w)"
  shows "yields view v (scoped (CHECK_HDF5_ID e call) close body) x"
  unfolding yields_def
proof (intro allI impI)
  fix w assume w: "view w = v"
  obtain i w1 where 1: "call w = (i, w1)" "0 \<le> i" "view w1 = new_ref i r v" using call [OF w] by blast
  have fresh: "h5_refs v i = None"
    using opensD(1) [OF opens 1(1,2)] w by (simp add: handle_kinds_def)
  obtain w2 where 2: "body i w1 = (Inr x, w2)" "view w2 = new_ref i r v"
    using yieldsD [OF body [OF fresh] 1(3)] by blast
  have kind: "handle_kinds (view w2) i = Some (kind_of r)" by (simp add: 2(2))
  obtain s w3 where 3: "close i w2 = (s, w3)" by fastforce
  have "0 \<le> s" using closesD [OF closes 3 kind] by simp
  moreover have "view w3 = v"
    using closed [OF kind] 3 fresh by (simp add: 2(2) drop_new_ref)
  ultimately show "\<exists>w'. scoped (CHECK_HDF5_ID e call) close body w = (Inr x, w') \<and> view w' = v"
    using 1 2 3 by (simp add: scoped_def and_then_def CHECK_HDF5_ID_def check_id_def prog_simps
        close_checked_def CHECK_HDF5_CALL_def check_call_def destroy_handle_def H5I_INVALID_HID_def)
qed

end

end
