(* ===== verification/Dump_Image.thy ===== *)
theory Dump_Image
  imports View_Dump Hdf5_Store
begin

text \<open>
  What the dump writer of \<open>src/krepe/capture/view_dump.cpp\<close> leaves in a file: the contents
  of a dump as operations on an HDF5 file, and the refinement by the writers, for any
  library that satisfies the laws of \<open>Hdf5_Store\<close>.
\<close>

section \<open>The contents of a dump\<close>

definition string_attr :: "string \<Rightarrow> h5attr" where
  "string_attr text = (C_String (length text + 1), Some (Chars (text @ [CHR 0x00])))"

definition uint64_attr :: "u64 \<Rightarrow> h5attr" where
  "uint64_attr v = (Native_Type NATIVE_UINT64, Some (Word64 v))"

definition int_attr :: "i32 \<Rightarrow> h5attr" where
  "int_attr v = (Native_Type NATIVE_INT, Some (Int32 v))"

definition byte_data :: "byte list \<Rightarrow> h5data" where
  "byte_data bs = (NATIVE_UCHAR, length bs, if bs = [] then None else Some (Uchars bs))"

definition int64_data :: "64 word list \<Rightarrow> h5data" where
  "int64_data xs = (NATIVE_INT64, length xs, if xs = [] then None else Some (Int64s xs))"

text \<open>Attributes of the object at a path, in the order they are written.\<close>

definition put_attrs :: "h5path \<Rightarrow> (string \<times> h5attr) list \<Rightarrow> h5file \<Rightarrow> h5file" where
  "put_attrs p as F = fold (\<lambda>(n, a). put_attr p n a) as F"

fun policy_attrs :: "policy_desc \<Rightarrow> (string \<times> h5attr) list" where
  "policy_attrs No_Policy = [(''type'', string_attr ''none'')]"
| "policy_attrs (Scalar_Policy n) = [(''type'', string_attr ''scalar''), (''end'', uint64_attr n)]"
| "policy_attrs (Range_Policy p) =
     [(''type'', string_attr ''range''),
      (''index_type_size'', int_attr (int_of_size (it_size (rp_index_type p)))),
      (''index_type_signed'', int_attr (int_of_bool (it_signed (rp_index_type p)))),
      (''space'', string_attr (rp_space p)), (''schedule'', string_attr (rp_schedule p)),
      (''begin'', uint64_attr (rp_begin p)), (''end'', uint64_attr (rp_end p)),
      (''chunk_size'', int_attr (rp_chunk_size p))]"
| "policy_attrs (Mdrange_Policy p) =
     [(''type'', string_attr ''mdrange''),
      (''index_type_size'', int_attr (int_of_size (it_size (mp_index_type p)))),
      (''index_type_signed'', int_attr (int_of_bool (it_signed (mp_index_type p)))),
      (''space'', string_attr (mp_space p)), (''schedule'', string_attr (mp_schedule p)),
      (''rank'', int_attr (int_of_size (mp_rank p))),
      (''outer_dir'', string_attr (mp_outer_dir p)), (''inner_dir'', string_attr (mp_inner_dir p))]"
| "policy_attrs (Team_Policy p) =
     [(''type'', string_attr ''team''),
      (''index_type_size'', int_attr (int_of_size (it_size (tp_index_type p)))),
      (''index_type_signed'', int_attr (int_of_bool (it_signed (tp_index_type p)))),
      (''space'', string_attr (tp_space p)), (''schedule'', string_attr (tp_schedule p)),
      (''team_size'', int_attr (tp_team_size p)), (''league_size'', int_attr (tp_league_size p)),
      (''vector_length'', int_attr (tp_vector_length p)),
      (''team_scratch_0'', int_attr (tp_team_scratch_0 p)),
      (''team_scratch_1'', int_attr (tp_team_scratch_1 p)),
      (''thread_scratch_0'', int_attr (tp_thread_scratch_0 p)),
      (''thread_scratch_1'', int_attr (tp_thread_scratch_1 p)),
      (''chunk_size'', int_attr (tp_chunk_size p))]"

fun policy_datasets :: "policy_desc \<Rightarrow> (string \<times> h5data) list" where
  "policy_datasets (Mdrange_Policy p) =
     [(''begin'', int64_data (mp_begin p)), (''end'', int64_data (mp_end p)),
      (''tile'', int64_data (mp_tile p))]"
| "policy_datasets _ = []"

definition put_datasets :: "h5path \<Rightarrow> (string \<times> h5data) list \<Rightarrow> h5file \<Rightarrow> h5file" where
  "put_datasets p ds F = fold (\<lambda>(n, d). put_data (p @ [n]) d) ds F"

definition image_policy :: "h5path \<Rightarrow> policy_desc \<Rightarrow> h5file \<Rightarrow> h5file" where
  "image_policy p policy F = put_datasets p (policy_datasets policy) (put_attrs p (policy_attrs policy) F)"

definition allocation_attrs ::
  "capture_build \<Rightarrow> capture_env \<Rightarrow> active_allocation \<Rightarrow> (string \<times> h5attr) list" where
  "allocation_attrs b env a =
     (let r = aa_record a; reason = fst (copy_allocation_bytes b env a []) in
      [(''label'', string_attr (ar_label r)), (''space'', string_attr (ar_space r)),
       (''ptr'', string_attr (pointer_to_string (aa_ptr a))),
       (''p_data'', string_attr (pointer_to_string (ar_p_data r))),
       (''size'', uint64_attr (ar_size r)), (''reported_size'', uint64_attr (ar_reported_size r)),
       (''bytes_dumped'', int_attr (int_of_bool (reason = [])))]
      @ (if reason = [] then [] else [(''skip_reason'', string_attr reason)]))"

definition image_allocation ::
  "capture_build \<Rightarrow> capture_env \<Rightarrow> h5path \<Rightarrow> active_allocation \<Rightarrow> h5file \<Rightarrow> h5file" where
  "image_allocation b env p a F =
     (let (reason, bytes) = copy_allocation_bytes b env a [];
          F' = put_attrs p (allocation_attrs b env a) F
      in if reason = [] then put_data (p @ [''bytes'']) (byte_data bytes) F' else F')"

definition image_snapshot ::
  "capture_build \<Rightarrow> capture_env \<Rightarrow> h5path \<Rightarrow> allocation_snapshot \<Rightarrow> h5file \<Rightarrow> h5file" where
  "image_snapshot b env p s F =
     fold (\<lambda>(i, a) F. let q = p @ [''views'', allocation_group_name a i] in
             image_allocation b env q a (put_group q F))
       (List.enumerate 0 (sn_allocations s))
       (put_group (p @ [''views''])
         (put_attrs p [(''active_allocations'', uint64_attr (of_nat (length (sn_allocations s)))),
                       (''active_bytes'', uint64_attr (sn_active_bytes s))]
           (put_group p F)))"

definition image_dump ::
  "capture_build \<Rightarrow> capture_env \<Rightarrow> allocation_snapshot \<Rightarrow> byte list \<Rightarrow> byte list \<Rightarrow>
   (string \<times> string) list \<Rightarrow> policy_desc \<Rightarrow> string \<Rightarrow> u64 \<Rightarrow> u64 \<Rightarrow> h5file \<Rightarrow> h5file"
where
  "image_dump b env s functor_data nvcc_data metadata policy label kernel_id kernel_invocation F =
     (let F1 = put_attrs [] [(''kernel_label'', string_attr label),
                 (''kernel_id'', uint64_attr kernel_id),
                 (''kernel_invocation'', uint64_attr kernel_invocation)] F;
          F2 = image_snapshot b env [''in''] s F1;
          F3 = put_attrs [''metadata''] (List.map (\<lambda>(k, v). (k, string_attr v)) metadata)
                 (put_group [''metadata''] F2);
          F4 = image_policy [''policy''] policy (put_group [''policy''] F3)
      in put_datasets [''functor'']
           [(''functor'', byte_data functor_data), (''nvcc_inner_lambda'', byte_data nvcc_data)]
           (put_group [''functor''] F4))"

lemma put_attrs_simps [simp]:
  "put_attrs p [] F = F"
  "put_attrs p ((n, a) # as) F = put_attrs p as (put_attr p n a F)"
  by (simp_all add: put_attrs_def)

lemma put_datasets_simps [simp]:
  "put_datasets p [] F = F"
  "put_datasets p ((n, d) # ds) F = put_datasets p ds (put_data (p @ [n]) d F)"
  by (simp_all add: put_datasets_def)

lemma split_path_group_name [simp]:
  "split_path (allocation_group_name a i) = [allocation_group_name a i]"
proof -
  have "\<forall>c \<in> set (to_string i). c \<noteq> CHR ''/''"
    and "\<forall>c \<in> set (sanitize_name (ar_label (aa_record a))). c \<noteq> CHR ''/''"
    using safe_to_string sanitize_name_safe is_alnum_not_slash by blast+
  then have "CHR ''/'' \<notin> set (allocation_group_name a i)"
    by (auto simp: allocation_group_name_def)
  then show ?thesis by (simp add: split_path_plain allocation_group_name_def)
qed

section \<open>The writers\<close>

context hdf5_store
begin

text \<open>An attribute that is created and written.\<close>

lemma attribute_written:
  assumes l: "place (view w) l = Some (f, p)" and d: "h5_disk (view w) f \<noteq> None"
    and ty: "type_of_tid (view w) ty = Some T"
    and run: "scoped (CHECK_HDF5_ID e (H5Acreate2 api l name ty sp)) (H5Aclose api)
      (\<lambda>attr. CHECK_HDF5_CALL e' (H5Awrite api attr ty buf)) w = (Inr x, w')"
  shows "view w' = on_file f (put_attr p name (T, Some buf)) (view w)"
proof -
  obtain a w1 w2 where 1: "H5Acreate2 api l name ty sp w = (a, w1)" "0 \<le> a" "h5_refs (view w) a = None"
    and call: "CHECK_HDF5_CALL e' (H5Awrite api a ty buf) w1 = (Inr x, w2)"
    and out: "handle_kinds (view w2) a = Some Attribute_Kind \<longrightarrow> view w' = drop_ref a (view w2)"
    by (rule scoped_view [OF run opens_calls(4) closing(3)])
  have w1: "view w1 = new_ref a (Attr_Ref f p name) (on_file f (put_attr p name (T, None)) (view w))"
    by (rule Acreate2 [OF l ty 1(1,2)])
  obtain s where s: "H5Awrite api a ty buf w1 = (s, w2)" "0 \<le> s"
    using call by (auto simp: CHECK_HDF5_CALL_Inr)
  have "view w2 = on_file f (put_attr p name (T, Some buf)) (view w1)"
    by (rule Awrite [OF _ _ _ s]) (use d 1(3) ty in \<open>simp_all add: w1 type_of_tid_new_ref\<close>)
  then show ?thesis using out w1 1(3) by (simp add: on_file_new_ref drop_new_ref)
qed

lemma attribute_in_space:
  assumes ty: "\<And>w. type_of_tid (view w) ty = Some T"
  shows "effect view l (scoped (CHECK_HDF5_ID e0 (H5Screate_scalar api)) (H5Sclose api) (\<lambda>space.
      scoped (CHECK_HDF5_ID e (H5Acreate2 api l name ty space)) (H5Aclose api)
        (\<lambda>attr. CHECK_HDF5_CALL e' (H5Awrite api attr ty buf))))
    f p (put_attr p name (T, Some buf))" (is "effect _ _ ?m _ _ _")
proof (rule effectI)
  fix w x w'
  assume l: "place (view w) l = Some (f, p)" and d: "h5_disk (view w) f \<noteq> None"
    and run: "?m w = (Inr x, w')"
  obtain i w1 w2 where 1: "H5Screate_scalar api w = (i, w1)" "0 \<le> i" "h5_refs (view w) i = None"
    and body: "scoped (CHECK_HDF5_ID e (H5Acreate2 api l name ty i)) (H5Aclose api)
        (\<lambda>attr. CHECK_HDF5_CALL e' (H5Awrite api attr ty buf)) w1 = (Inr x, w2)"
    and out: "handle_kinds (view w2) i = Some Space_Kind \<longrightarrow> view w' = drop_ref i (view w2)"
    by (rule scoped_view [OF run opens_calls(2) closing(2)])
  have w1: "view w1 = new_ref i (Space_Ref None) (view w)" by (rule Screate_scalar [OF 1(1,2)])
  have "view w2 = on_file f (put_attr p name (T, Some buf)) (view w1)"
    by (rule attribute_written [OF _ _ ty body]) (use d l 1(3) in \<open>simp_all add: w1 place_new_ref\<close>)
  then show "view w' = on_file f (put_attr p name (T, Some buf)) (view w)"
    using out w1 1(3) by (simp add: drop_new_ref)
qed

lemma write_uint64_effect:
  "effect view l (write_uint64_attribute api l name v) f p (put_attr p name (uint64_attr v))"
  unfolding write_uint64_attribute_def uint64_attr_def
  by (rule attribute_in_space) (simp add: type_of_tid_def)

lemma write_int_effect:
  "effect view l (write_int_attribute api l name v) f p (put_attr p name (int_attr v))"
  unfolding write_int_attribute_def int_attr_def
  by (rule attribute_in_space) (simp add: type_of_tid_def)

lemma write_string_effect:
  "effect view l (write_string_attribute api l name text) f p (put_attr p name (string_attr text))"
proof (rule effectI)
  fix w x w'
  let ?n = "if text = [] then 1 else length text + 1"
  assume l: "place (view w) l = Some (f, p)" and d: "h5_disk (view w) f \<noteq> None"
    and run: "write_string_attribute api l name text w = (Inr x, w')"
  obtain t w1 w6 where 1: "H5Tcopy_c_s1 api w = (t, w1)" "0 \<le> t" "h5_refs (view w) t = None"
    and body: "and_then (CHECK_HDF5_CALL ''H5Tset_size'' (H5Tset_size api t ?n)) (\<lambda>_.
       and_then (CHECK_HDF5_CALL ''H5Tset_strpad'' (H5Tset_strpad_nullterm api t)) (\<lambda>_.
       scoped (CHECK_HDF5_ID ''H5Screate'' (H5Screate_scalar api)) (H5Sclose api) (\<lambda>space.
       scoped (CHECK_HDF5_ID ''H5Acreate2'' (H5Acreate2 api l name (Type_Handle t) space))
         (H5Aclose api) (\<lambda>attr.
       CHECK_HDF5_CALL ''H5Awrite''
         (H5Awrite api attr (Type_Handle t) (Chars (text @ [CHR 0x00]))))))) w1 = (Inr x, w6)"
    and out: "handle_kinds (view w6) t = Some Type_Kind \<longrightarrow> view w' = drop_ref t (view w6)"
    by (rule scoped_view [OF run [unfolded write_string_attribute_def Let_def] opens_calls(1) closing(1)])
  have w1: "view w1 = new_ref t (Type_Ref (C_String 1)) (view w)" by (rule Tcopy [OF 1(1,2)])
  obtain u w2 where set: "CHECK_HDF5_CALL ''H5Tset_size'' (H5Tset_size api t ?n) w1 = (Inr u, w2)"
    and rest: "and_then (CHECK_HDF5_CALL ''H5Tset_strpad'' (H5Tset_strpad_nullterm api t)) (\<lambda>_.
       scoped (CHECK_HDF5_ID ''H5Screate'' (H5Screate_scalar api)) (H5Sclose api) (\<lambda>space.
       scoped (CHECK_HDF5_ID ''H5Acreate2'' (H5Acreate2 api l name (Type_Handle t) space))
         (H5Aclose api) (\<lambda>attr.
       CHECK_HDF5_CALL ''H5Awrite''
         (H5Awrite api attr (Type_Handle t) (Chars (text @ [CHR 0x00])))))) w2 = (Inr x, w6)"
    using body by (rule and_then_Inr_E)
  obtain s where s: "H5Tset_size api t ?n w1 = (s, w2)" "0 \<le> s"
    using set by (auto simp: CHECK_HDF5_CALL_Inr)
  have "view w2 = new_ref t (Type_Ref (C_String ?n)) (view w1)"
    by (rule Tset_size [OF _ s]) (simp add: w1)
  moreover have "?n = length text + 1" by simp
  ultimately have w2: "view w2 = new_ref t (Type_Ref (C_String (length text + 1))) (view w)"
    by (simp add: w1 new_ref_def)
  obtain u' w3 where pad: "CHECK_HDF5_CALL ''H5Tset_strpad'' (H5Tset_strpad_nullterm api t) w2 = (Inr u', w3)"
    and body3: "scoped (CHECK_HDF5_ID ''H5Screate'' (H5Screate_scalar api)) (H5Sclose api) (\<lambda>space.
       scoped (CHECK_HDF5_ID ''H5Acreate2'' (H5Acreate2 api l name (Type_Handle t) space))
         (H5Aclose api) (\<lambda>attr.
       CHECK_HDF5_CALL ''H5Awrite''
         (H5Awrite api attr (Type_Handle t) (Chars (text @ [CHR 0x00]))))) w3 = (Inr x, w6)"
    using rest by (rule and_then_Inr_E)
  obtain s' where s': "H5Tset_strpad_nullterm api t w2 = (s', w3)" "0 \<le> s'"
    using pad by (auto simp: CHECK_HDF5_CALL_Inr)
  have w3: "view w3 = new_ref t (Type_Ref (C_String (length text + 1))) (view w)"
    using Tset_strpad [OF s'] w2 by simp
  obtain i w4 w5 where 4: "H5Screate_scalar api w3 = (i, w4)" "0 \<le> i" "h5_refs (view w3) i = None"
    and body4: "scoped (CHECK_HDF5_ID ''H5Acreate2'' (H5Acreate2 api l name (Type_Handle t) i))
        (H5Aclose api) (\<lambda>attr. CHECK_HDF5_CALL ''H5Awrite''
          (H5Awrite api attr (Type_Handle t) (Chars (text @ [CHR 0x00])))) w4 = (Inr x, w5)"
    and out4: "handle_kinds (view w5) i = Some Space_Kind \<longrightarrow> view w6 = drop_ref i (view w5)"
    by (rule scoped_view [OF body3 opens_calls(2) closing(2)])
  have w4: "view w4 = new_ref i (Space_Ref None) (view w3)" by (rule Screate_scalar [OF 4(1,2)])
  have l4: "place (view w4) l = Some (f, p)"
    using l 1(3) 4(3) by (simp add: w4 w3 place_new_ref)
  have ty4: "type_of_tid (view w4) (Type_Handle t) = Some (C_String (length text + 1))"
    using 4(3) by (auto simp: w4 w3 type_of_tid_def split: if_splits)
  have "view w5 = on_file f (put_attr p name (string_attr text)) (view w4)"
    unfolding string_attr_def
    by (rule attribute_written [OF l4 _ ty4 body4]) (use d in \<open>simp add: w4 w3\<close>)
  then have "view w6 = on_file f (put_attr p name (string_attr text)) (view w3)"
    using out4 w4 4(3) by (simp add: drop_new_ref)
  then show "view w' = on_file f (put_attr p name (string_attr text)) (view w)"
    using out w3 1(3) by (simp add: drop_new_ref)
qed

lemma write_dataset_effect:
  assumes "split_path name = [name]"
  shows "effect view l (write_dataset api l name nty n buf) f p
    (put_data (p @ [name]) (nty, n, if n = 0 then None else Some buf))"
proof (rule effectI)
  fix w x w'
  let ?p = "p @ [name]"
  assume l: "place (view w) l = Some (f, p)" and d: "h5_disk (view w) f \<noteq> None"
    and run: "write_dataset api l name nty n buf w = (Inr x, w')"
  obtain i w1 w2 where 1: "H5Screate_simple api n w = (i, w1)" "0 \<le> i" "h5_refs (view w) i = None"
    and body: "scoped (CHECK_HDF5_ID ''H5Dcreate2'' (H5Dcreate2 api l name (Predefined nty) i))
        (H5Dclose api) (\<lambda>dataset.
          if n \<noteq> 0 then CHECK_HDF5_CALL ''H5Dwrite'' (H5Dwrite api dataset (Predefined nty) buf)
          else done_with ()) w1 = (Inr x, w2)"
    and out: "handle_kinds (view w2) i = Some Space_Kind \<longrightarrow> view w' = drop_ref i (view w2)"
    by (rule scoped_view [OF run [unfolded write_dataset_def] opens_calls(3) closing(2)])
  have w1: "view w1 = new_ref i (Space_Ref (Some n)) (view w)" by (rule Screate_simple [OF 1(1,2)])
  obtain j w3 w4 where 2: "H5Dcreate2 api l name (Predefined nty) i w1 = (j, w3)" "0 \<le> j"
      "h5_refs (view w1) j = None"
    and call: "(if n \<noteq> 0 then CHECK_HDF5_CALL ''H5Dwrite'' (H5Dwrite api j (Predefined nty) buf)
          else done_with ()) w3 = (Inr x, w4)"
    and out2: "handle_kinds (view w4) j = Some Dataset_Kind \<longrightarrow> view w2 = drop_ref j (view w4)"
    by (rule scoped_view [OF body opens_calls(7) closing(4)])
  have w3: "view w3 = new_ref j (Dataset_Ref f ?p) (on_file f (put_data ?p (nty, n, None)) (view w1))"
    using Dcreate2 [OF _ _ 2(1,2), of f p n] l 1(3) by (simp add: w1 place_new_ref assms)
  have w4: "view w4 = on_file f (put_data ?p (nty, n, if n = 0 then None else Some buf)) (view w3)"
  proof (cases "n = 0")
    case True
    then have "view w4 = view w3" using call by (simp add: prog_simps)
    then show ?thesis using True by (simp add: w3 on_file_new_ref)
  next
    case False
    then obtain s where s: "H5Dwrite api j (Predefined nty) buf w3 = (s, w4)" "0 \<le> s"
      using call by (auto simp: CHECK_HDF5_CALL_Inr)
    have "view w4 = on_file f (put_data ?p (nty, n, Some buf)) (view w3)"
      by (rule Dwrite [OF _ _ s]) (use d in \<open>simp_all add: w3 w1\<close>)
    then show ?thesis using False by simp
  qed
  then have "view w2 = on_file f (put_data ?p (nty, n, if n = 0 then None else Some buf)) (view w1)"
    using out2 w3 2(3) by (simp add: drop_new_ref del: if_split)
  then show "view w' = on_file f (put_data ?p (nty, n, if n = 0 then None else Some buf)) (view w)"
    using out w1 1(3) by (simp add: drop_new_ref del: if_split)
qed

lemma write_byte_dataset_effect:
  "split_path name = [name] \<Longrightarrow>
     effect view l (write_byte_dataset api l name bs) f p (put_data (p @ [name]) (byte_data bs))"
  unfolding write_byte_dataset_def byte_data_def
  using write_dataset_effect [of name l NATIVE_UCHAR "length bs" "Uchars bs" f p] by simp

lemma write_int64_dataset_effect:
  "split_path name = [name] \<Longrightarrow>
     effect view l (write_int64_dataset api l name xs) f p (put_data (p @ [name]) (int64_data xs))"
  unfolding write_int64_dataset_def int64_data_def
  using write_dataset_effect [of name l NATIVE_INT64 "length xs" "Int64s xs" f p] by simp

lemma in_new_group_effect:
  assumes "split_path name = [name]" and "\<And>i. effect view i (body i) f (p @ [name]) g"
  shows "effect view l (in_new_group api l name body) f p (\<lambda>F. g (put_group (p @ [name]) F))"
proof (rule effectI)
  fix w x w'
  assume l: "place (view w) l = Some (f, p)" and d: "h5_disk (view w) f \<noteq> None"
    and run: "in_new_group api l name body w = (Inr x, w')"
  obtain i w1 w2 where 1: "H5Gcreate2 api l name w = (i, w1)" "0 \<le> i" "h5_refs (view w) i = None"
    and body: "body i w1 = (Inr x, w2)"
    and out: "handle_kinds (view w2) i = Some Group_Kind \<longrightarrow> view w' = drop_ref i (view w2)"
    by (rule scoped_view [OF run [unfolded in_new_group_def] opens_calls(8) closing(5)])
  have w1: "view w1 = new_ref i (Group_Ref f (p @ [name])) (on_file f (put_group (p @ [name])) (view w))"
    using Gcreate2 [OF l 1(1,2)] assms(1) by simp
  have "view w2 = on_file f g (view w1)"
    by (rule effectD [OF assms(2) body]) (use d in \<open>simp_all add: w1 place_def\<close>)
  then show "view w' = on_file f (\<lambda>F. g (put_group (p @ [name]) F)) (view w)"
    using out w1 1(3) by (simp add: on_file_new_ref drop_new_ref)
qed

text \<open>A block of attribute writers is a list of attributes.\<close>

lemma attrs_effect_Cons:
  assumes "effect view l m f p (put_attr p n a)"
    and "effect view l (run_all ms) f p (\<lambda>F. h (put_attrs p as F))"
  shows "effect view l (run_all (m # ms)) f p (\<lambda>F. h (put_attrs p ((n, a) # as) F))"
  using effect_run_all_Cons [OF assms] by simp

lemma attrs_effect_Nil:
  "effect view l (run_all ms) f p h \<Longrightarrow> effect view l (run_all ms) f p (\<lambda>F. h (put_attrs p [] F))"
  by simp

lemma datasets_effect_Cons:
  assumes "effect view l m f p (put_data (p @ [n]) d)"
    and "effect view l (run_all ms) f p (put_datasets p ds)"
  shows "effect view l (run_all (m # ms)) f p (put_datasets p ((n, d) # ds))"
proof -
  have "put_datasets p ((n, d) # ds) = (\<lambda>F. put_datasets p ds (put_data (p @ [n]) d F))"
    by (simp add: fun_eq_iff)
  then show ?thesis using effect_run_all_Cons [OF assms] by simp
qed

lemma datasets_effect_Nil: "effect view l (run_all []) f p (put_datasets p [])"
proof -
  have "put_datasets p [] = (\<lambda>F. F)" by (simp add: fun_eq_iff)
  then show ?thesis using effect_run_all_Nil [of view l f p] by simp
qed

lemmas attrs_effects =
  attrs_effect_Cons attrs_effect_Nil datasets_effect_Cons datasets_effect_Nil
  write_string_effect write_uint64_effect write_int_effect write_byte_dataset_effect
  write_int64_dataset_effect

lemma write_policy_effect:
  "effect view l (write_policy api l policy) f p (image_policy p policy)"
proof -
  have none: "effect view l (write_policy api l No_Policy) f p (image_policy p No_Policy)"
  proof -
    have "image_policy p No_Policy = put_attr p ''type'' (string_attr ''none'')"
      by (simp add: image_policy_def fun_eq_iff)
    then show ?thesis using write_string_effect by simp
  qed
  have *: "image_policy p q = (\<lambda>F. put_datasets p (policy_datasets q) (put_attrs p (policy_attrs q) F))"
    for q by (simp add: image_policy_def fun_eq_iff)
  show ?thesis
  proof (cases policy)
    case No_Policy
    then show ?thesis using none by simp
  next
    case (Scalar_Policy q)
    show ?thesis
      unfolding Scalar_Policy * write_policy.simps policy_attrs.simps policy_datasets.simps
      by (rule attrs_effects | simp add: split_path_def)+
  next
    case (Range_Policy q)
    show ?thesis
      unfolding Range_Policy * write_policy.simps policy_attrs.simps policy_datasets.simps
      by (rule attrs_effects | simp add: split_path_def)+
  next
    case (Mdrange_Policy q)
    show ?thesis
      unfolding Mdrange_Policy * write_policy.simps policy_attrs.simps policy_datasets.simps
      by (rule attrs_effects | simp add: split_path_def)+
  next
    case (Team_Policy q)
    show ?thesis
      unfolding Team_Policy * write_policy.simps policy_attrs.simps policy_datasets.simps
      by (rule attrs_effects | simp add: split_path_def)+
  qed
qed

lemma write_allocation_group_effect:
  "effect view l (write_allocation_group b env api l a i) f p
     (\<lambda>F. let q = p @ [allocation_group_name a i] in image_allocation b env q a (put_group q F))"
proof -
  obtain reason bytes where copy: "copy_allocation_bytes b env a [] = (reason, bytes)" by fastforce
  let ?q = "p @ [allocation_group_name a i]"
  have "effect view j (run_all
         [write_string_attribute api j ''label'' (ar_label (aa_record a)),
          write_string_attribute api j ''space'' (ar_space (aa_record a)),
          write_string_attribute api j ''ptr'' (pointer_to_string (aa_ptr a)),
          write_string_attribute api j ''p_data'' (pointer_to_string (ar_p_data (aa_record a))),
          write_uint64_attribute api j ''size'' (ar_size (aa_record a)),
          write_uint64_attribute api j ''reported_size'' (ar_reported_size (aa_record a)),
          write_int_attribute api j ''bytes_dumped'' (int_of_bool (reason = [])),
          (if reason \<noteq> [] then write_string_attribute api j ''skip_reason'' reason
           else write_byte_dataset api j ''bytes'' bytes)]) f ?q (image_allocation b env ?q a)" for j
  proof (cases "reason = []")
    case True
    then have "image_allocation b env ?q a = (\<lambda>F. put_datasets ?q [(''bytes'', byte_data bytes)]
        (put_attrs ?q (allocation_attrs b env a) F))"
      by (simp add: image_allocation_def copy fun_eq_iff)
    then show ?thesis
      unfolding allocation_attrs_def copy Let_def fst_conv True
      by (simp only: simp_thms append.simps if_True if_False)
        (rule attrs_effects | simp add: split_path_def)+
  next
    case False
    then have "image_allocation b env ?q a = (\<lambda>F. put_datasets ?q []
        (put_attrs ?q (allocation_attrs b env a) F))"
      by (simp add: image_allocation_def copy fun_eq_iff)
    then show ?thesis
      using False unfolding allocation_attrs_def copy Let_def fst_conv
      by (simp only: simp_thms append.simps if_True if_False)
        (rule attrs_effects | simp add: split_path_def)+
  qed
  then show ?thesis
    unfolding write_allocation_group_def Let_def copy prod.case
    by (intro in_new_group_effect) simp_all
qed

lemma write_snapshot_effect:
  assumes "split_path name = [name]"
  shows "effect view l (write_snapshot b env api l name s) f p (image_snapshot b env (p @ [name]) s)"
proof -
  let ?q = "p @ [name]"
  let ?step = "\<lambda>(i, a) F. let r = ?q @ [''views'', allocation_group_name a i] in
      image_allocation b env r a (put_group r F)"
  let ?g = "fold ?step (List.enumerate 0 (sn_allocations s))"
  have each: "effect view k (for_each (\<lambda>(i, a). write_allocation_group b env api k a i)
      (List.enumerate 0 (sn_allocations s))) f (?q @ [''views'']) ?g" for k
  proof (rule effect_for_each)
    fix x :: "nat \<times> active_allocation"
    obtain i a where "x = (i, a)" by fastforce
    then show "effect view k (case x of (i, a) \<Rightarrow> write_allocation_group b env api k a i) f
        (?q @ [''views'']) (?step x)"
      using write_allocation_group_effect [of k b env a i f "?q @ [''views'']"] by simp
  qed
  have views: "effect view j (run_all [in_new_group api j ''views'' (\<lambda>views_group.
      for_each (\<lambda>(i, a). write_allocation_group b env api views_group a i)
        (List.enumerate 0 (sn_allocations s)))]) f ?q
      (\<lambda>F. ?g (put_group (?q @ [''views'']) F))" for j
    using effect_run_all_Cons [OF in_new_group_effect [OF _ each] effect_run_all_Nil]
    by (simp add: split_path_def)
  have "effect view j (run_all
         [write_uint64_attribute api j ''active_allocations'' (of_nat (length (sn_allocations s))),
          write_uint64_attribute api j ''active_bytes'' (sn_active_bytes s),
          in_new_group api j ''views'' (\<lambda>views_group.
            for_each (\<lambda>(i, a). write_allocation_group b env api views_group a i)
              (List.enumerate 0 (sn_allocations s)))]) f ?q
      (\<lambda>F. ?g (put_group (?q @ [''views''])
        (put_attrs ?q [(''active_allocations'', uint64_attr (of_nat (length (sn_allocations s)))),
                       (''active_bytes'', uint64_attr (sn_active_bytes s))] F)))" for j
    by (rule attrs_effect_Cons [OF write_uint64_effect]
        attrs_effect_Cons [OF write_uint64_effect] attrs_effect_Nil views)+
  then have "effect view l (write_snapshot b env api l name s) f p (\<lambda>F. ?g (put_group (?q @ [''views''])
        (put_attrs ?q [(''active_allocations'', uint64_attr (of_nat (length (sn_allocations s)))),
                       (''active_bytes'', uint64_attr (sn_active_bytes s))] (put_group ?q F))))"
    unfolding write_snapshot_def by (rule in_new_group_effect [OF assms])
  moreover have "image_snapshot b env ?q s = (\<lambda>F. ?g (put_group (?q @ [''views''])
        (put_attrs ?q [(''active_allocations'', uint64_attr (of_nat (length (sn_allocations s)))),
                       (''active_bytes'', uint64_attr (sn_active_bytes s))] (put_group ?q F))))"
    by (simp add: image_snapshot_def fun_eq_iff)
  ultimately show ?thesis by simp
qed

lemma write_metadata_effect:
  "effect view l (for_each (\<lambda>(key, value). write_string_attribute api l key value) metadata) f p
     (put_attrs p (List.map (\<lambda>(k, v). (k, string_attr v)) metadata))"
proof -
  have "effect view l (for_each (\<lambda>(key, value). write_string_attribute api l key value) metadata) f p
      (fold (\<lambda>(k, v). put_attr p k (string_attr v)) metadata)"
    by (rule effect_for_each) (auto simp: write_string_effect)
  moreover have "fold (\<lambda>(k, v). put_attr p k (string_attr v)) metadata =
      put_attrs p (List.map (\<lambda>(k, v). (k, string_attr v)) metadata)"
  proof (rule ext)
    fix F
    show "fold (\<lambda>(k, v). put_attr p k (string_attr v)) metadata F =
        put_attrs p (List.map (\<lambda>(k, v). (k, string_attr v)) metadata) F"
      by (induction metadata arbitrary: F) auto
  qed
  ultimately show ?thesis by simp
qed

lemma write_kernel_dump_effect:
  "effect view l (write_kernel_dump b env api s fd nd metadata policy label kid num l) f []
     (image_dump b env s fd nd metadata policy label kid num)"
proof -
  have fun_group: "effect view g (run_all [write_byte_dataset api g ''functor'' fd,
        write_byte_dataset api g ''nvcc_inner_lambda'' nd]) f [''functor'']
      (put_datasets [''functor''] [(''functor'', byte_data fd), (''nvcc_inner_lambda'', byte_data nd)])"
    for g
    by (rule attrs_effects | simp add: split_path_def)+
  have new: "effect view l (in_new_group api l name body) f [] (\<lambda>F. g (put_group [name] F))"
    if "split_path name = [name]" and "\<And>i. effect view i (body i) f [name] g" for name body g
    using in_new_group_effect [OF that(1), where p = "[]"] that(2) by simp
  have snap: "effect view l (write_snapshot b env api l ''in'' s) f [] (image_snapshot b env [''in''] s)"
    using write_snapshot_effect [of "''in''" l b env s f "[]"] by (simp add: split_path_def)
  have "effect view l (write_kernel_dump b env api s fd nd metadata policy label kid num l) f []
     (\<lambda>F. put_datasets [''functor''] [(''functor'', byte_data fd), (''nvcc_inner_lambda'', byte_data nd)]
        (put_group [''functor''] (image_policy [''policy''] policy (put_group [''policy'']
          (put_attrs [''metadata''] (List.map (\<lambda>(k, v). (k, string_attr v)) metadata)
            (put_group [''metadata''] (image_snapshot b env [''in''] s
              (put_attrs [] [(''kernel_label'', string_attr label), (''kernel_id'', uint64_attr kid),
                 (''kernel_invocation'', uint64_attr num)] F))))))))"
    unfolding write_kernel_dump_def
    by (rule attrs_effect_Cons [OF write_string_effect] attrs_effect_Cons [OF write_uint64_effect]
        attrs_effect_Nil effect_run_all_Cons [OF snap]
        effect_run_all_Cons [OF new [OF _ write_metadata_effect]]
        effect_run_all_Cons [OF new [OF _ write_policy_effect]]
        effect_run_all_Cons [OF new [OF _ fun_group]] effect_run_all_Nil | simp add: split_path_def)+
  moreover have "image_dump b env s fd nd metadata policy label kid num =
    (\<lambda>F. put_datasets [''functor''] [(''functor'', byte_data fd), (''nvcc_inner_lambda'', byte_data nd)]
        (put_group [''functor''] (image_policy [''policy''] policy (put_group [''policy'']
          (put_attrs [''metadata''] (List.map (\<lambda>(k, v). (k, string_attr v)) metadata)
            (put_group [''metadata''] (image_snapshot b env [''in''] s
              (put_attrs [] [(''kernel_label'', string_attr label), (''kernel_id'', uint64_attr kid),
                 (''kernel_invocation'', uint64_attr num)] F))))))))"
    by (simp add: image_dump_def fun_eq_iff)
  ultimately show ?thesis by simp
qed

lemma create_kernel_dump_view:
  assumes run: "create_kernel_dump b env api absolute s fd nd metadata policy label kid num w = (r, w')"
    and ok: "vr_ok r"
  shows "absolute (dump_filename label kid) = Inr (vr_filename r)"
    and "view w' = (view w)\<lparr>h5_disk := (h5_disk (view w))(vr_filename r \<mapsto>
      image_dump b env s fd nd metadata policy label kid num empty_file)\<rparr>"
proof -
  obtain path where abs: "absolute (dump_filename label kid) = Inr path"
    using run ok by (cases "absolute (dump_filename label kid)")
      (auto simp: create_kernel_dump_def dump_result_def Let_def)
  let ?m = "scoped (CHECK_HDF5_ID ''H5Fcreate'' (H5Fcreate_trunc api path)) (H5Fclose api)
     (write_kernel_dump b env api s fd nd metadata policy label kid num)"
  obtain outcome where m: "?m w = (outcome, w')" and r: "r = dump_result path outcome"
    using run abs by (auto simp: create_kernel_dump_def Let_def split: prod.splits)
  have "\<exists>u. outcome = Inr u"
    using ok r by (cases outcome) (auto simp: dump_result_def split: exn.splits)
  then obtain u where u: "outcome = Inr u" by blast
  then have name: "vr_filename r = path" using r by (simp add: dump_result_def)
  show "absolute (dump_filename label kid) = Inr (vr_filename r)" using abs name by simp
  obtain i w1 w2 where 1: "H5Fcreate_trunc api path w = (i, w1)" "0 \<le> i" "h5_refs (view w) i = None"
    and body: "write_kernel_dump b env api s fd nd metadata policy label kid num i w1 = (Inr u, w2)"
    and out: "handle_kinds (view w2) i = Some File_Kind \<longrightarrow> view w' = drop_ref i (view w2)"
    by (rule scoped_view [OF m [unfolded u] opens_calls(9) closing(6)])
  have w1: "view w1 = new_ref i (File_Ref path)
      ((view w)\<lparr>h5_disk := (h5_disk (view w))(path \<mapsto> empty_file)\<rparr>)"
    by (rule Fcreate_trunc [OF 1(1,2)])
  have "view w2 = on_file path (image_dump b env s fd nd metadata policy label kid num) (view w1)"
    by (rule effectD [OF write_kernel_dump_effect body]) (simp_all add: w1 place_def)
  then have "view w' = on_file path (image_dump b env s fd nd metadata policy label kid num)
      ((view w)\<lparr>h5_disk := (h5_disk (view w))(path \<mapsto> empty_file)\<rparr>)"
    using out w1 1(3) by (simp add: drop_new_ref)
  then show "view w' = (view w)\<lparr>h5_disk := (h5_disk (view w))(vr_filename r \<mapsto>
      image_dump b env s fd nd metadata policy label kid num empty_file)\<rparr>"
    by (simp add: on_file_def name)
qed

lemma append_kernel_output_view:
  assumes run: "append_kernel_output b env api s path w = (r, w')"
    and ok: "vr_ok r" and there: "h5_disk (view w) path \<noteq> None"
  shows "view w' = on_file path (image_snapshot b env [''out''] s) (view w)"
proof -
  let ?m = "scoped (CHECK_HDF5_ID ''H5Fopen'' (H5Fopen_rdwr api path)) (H5Fclose api)
     (\<lambda>file. write_snapshot b env api file ''out'' s)"
  obtain outcome where m: "?m w = (outcome, w')" and r: "r = dump_result path outcome"
    using run by (auto simp: append_kernel_output_def Let_def split: prod.splits)
  have "\<exists>u. outcome = Inr u"
    using ok r by (cases outcome) (auto simp: dump_result_def split: exn.splits)
  then obtain u where u: "outcome = Inr u" by blast
  obtain i w1 w2 where 1: "H5Fopen_rdwr api path w = (i, w1)" "0 \<le> i" "h5_refs (view w) i = None"
    and body: "write_snapshot b env api i ''out'' s w1 = (Inr u, w2)"
    and out: "handle_kinds (view w2) i = Some File_Kind \<longrightarrow> view w' = drop_ref i (view w2)"
    by (rule scoped_view [OF m [unfolded u] opens_calls(10) closing(6)])
  have w1: "view w1 = new_ref i (File_Ref path) (view w)" by (rule Fopen_rdwr [OF 1(1,2)])
  have "view w2 = on_file path (image_snapshot b env ([] @ [''out'']) s) (view w1)"
    by (rule effectD [OF write_snapshot_effect body])
      (use there in \<open>simp_all add: w1 place_def split_path_def\<close>)
  then show ?thesis using out w1 1(3) by (simp add: drop_new_ref)
qed

end

end
