(* ===== verification/Replay_Layout.thy ===== *)
theory Replay_Layout
  imports Prelude
begin

text \<open>
  Where the replayer puts the captured allocations (\<open>src/krepe/replay/allocation.hpp\<close>,
  \<open>memory_space_type.hpp\<close>, and \<open>compute_allocations\<close> of \<open>kernel_replayer.cpp\<close>):
  rounding a captured range out to whole pages, and merging the page ranges that overlap
  into the list of ranges to map.
\<close>

section \<open>Memory spaces\<close>

datatype memory_space_type = HOST | DEVICE

definition memory_space_type_from_string :: "string \<Rightarrow> memory_space_type" where
  "memory_space_type_from_string space_name = (if space_name = ''Host'' then HOST else DEVICE)"

text \<open>
  The device backend the replayer is compiled for (\<open>KOKKOS_ENABLE_CUDA\<close>,
  \<open>KOKKOS_ENABLE_HIP\<close>, an unsupported device space, or none).
\<close>

datatype device_backend = No_Backend | Unsupported_Backend | Cuda_Backend | Hip_Backend

definition has_device_space :: "device_backend \<Rightarrow> bool" where
  "has_device_space b = (b = Cuda_Backend \<or> b = Hip_Backend)"

section \<open>Ranges of addresses\<close>

text \<open>
  \<open>std::pair<std::byte*, std::size_t>\<close>, ordered lexicographically as \<open>std::pair\<close> is.
\<close>

datatype region = Region (base: addr) (len: u64)

instantiation region :: linorder
begin

definition less_eq_region :: "region \<Rightarrow> region \<Rightarrow> bool" where
  "less_eq_region r s = (base r < base s \<or> base r = base s \<and> len r \<le> len s)"

definition less_region :: "region \<Rightarrow> region \<Rightarrow> bool" where
  "less_region r s = (base r < base s \<or> base r = base s \<and> len r < len s)"

instance
proof
  fix x y z :: region
  show "(x < y) = (x \<le> y \<and> \<not> y \<le> x)"
    by (auto simp: less_eq_region_def less_region_def)
  show "x \<le> x"
    by (simp add: less_eq_region_def)
  show "x \<le> y \<Longrightarrow> y \<le> z \<Longrightarrow> x \<le> z"
    by (auto simp: less_eq_region_def)
  show "x \<le> y \<Longrightarrow> y \<le> x \<Longrightarrow> x = y"
    by (auto simp: less_eq_region_def intro: region.expand)
  show "x \<le> y \<or> y \<le> x"
    by (auto simp: less_eq_region_def)
qed

end

text \<open>
  The addresses of a range, as natural numbers, and the condition that the range does not
  run past the end of the address space.
\<close>

definition extent :: "region \<Rightarrow> nat set" where
  "extent r = {unat (base r) ..< unat (base r) + unat (len r)}"

definition fits :: "region \<Rightarrow> bool" where
  "fits r = (unat (base r) + unat (len r) < 2 ^ 64)"

definition extents :: "region list \<Rightarrow> nat set" where
  "extents rs = (\<Union>r \<in> set rs. extent r)"

text \<open>One range lies wholly below another.\<close>

definition below :: "region \<Rightarrow> region \<Rightarrow> bool" where
  "below r s = (unat (base r) + unat (len r) \<le> unat (base s))"

definition page_aligned :: "nat \<Rightarrow> region \<Rightarrow> bool" where
  "page_aligned g r = (g dvd unat (base r) \<and> g dvd unat (len r))"

lemma extents_simps [simp]:
  "extents [] = {}"
  "extents (r # rs) = extent r \<union> extents rs"
  by (auto simp: extents_def)

lemma below_disjoint: "below r s \<Longrightarrow> extent r \<inter> extent s = {}"
  by (auto simp: below_def extent_def)

section \<open>Rounding a range out to whole pages\<close>

text \<open>
  \<open>getpagesize()\<close> and the driver's granularity query are the machine's: parameters.  With
  CUDA the queried value is checked and then overwritten by a constant.
\<close>

definition device_allocation_granularity ::
  "device_backend \<Rightarrow> exn + u64 \<Rightarrow> exn + u64" where
  "device_allocation_granularity b query =
     (case query of
        Inl e \<Rightarrow> Inl e
      | Inr granularity \<Rightarrow> Inr (if b = Cuda_Backend then 0x2000000 else granularity))"

definition page_range :: "u64 \<Rightarrow> addr \<Rightarrow> u64 \<Rightarrow> region" where
  "page_range granularity target_address sz =
     (let aligned_address = (target_address div granularity) * granularity;
          sz' = sz + (target_address - aligned_address);
          total_size = ((sz' - 1) div granularity + 1) * granularity
      in Region aligned_address total_size)"

definition get_allocation_address ::
  "device_backend \<Rightarrow> u64 \<Rightarrow> exn + u64 \<Rightarrow> addr \<Rightarrow> u64 \<Rightarrow> memory_space_type \<Rightarrow> exn + region" where
  "get_allocation_address b pagesize query target_address sz space =
     (if space = HOST then Inr (page_range pagesize target_address sz)
      else if has_device_space b then
        (case device_allocation_granularity b query of
           Inl e \<Rightarrow> Inl e
         | Inr granularity \<Rightarrow> Inr (page_range granularity target_address sz))
      else Inl (Std_Exception
        ''Tried to compute a device allocation address but no device space is enabled''))"

section \<open>Merging the ranges that overlap\<close>

text \<open>
  The loop of \<open>compute_allocations\<close>: \<open>ca\<close>, \<open>cs\<close> are the current address and size.
  \<open>std::set\<close> is a strictly sorted list.
\<close>

fun merge_loop :: "addr \<Rightarrow> u64 \<Rightarrow> region list \<Rightarrow> region list" where
  "merge_loop ca cs [] = [Region ca cs]"
| "merge_loop ca cs (r # rs) =
     (let address = base r; sz = len r in
      if ca + cs > address
      then (let new_size = (address + sz) - ca
            in merge_loop ca (if new_size > cs then new_size else cs) rs)
      else Region ca cs # merge_loop address sz rs)"

definition compute_allocations :: "region list \<Rightarrow> region list" where
  "compute_allocations allocations =
     (case allocations of
        [] \<Rightarrow> []
      | r # rs \<Rightarrow> merge_loop (base r) (len r) rs)"

definition set_insert :: "region \<Rightarrow> region list \<Rightarrow> region list" where
  "set_insert r rs = insort_insert r rs"

section \<open>Facts on rounding\<close>

lemma round_up_nat:
  fixes n g :: nat
  assumes "0 < g" and "0 < n"
  shows "n \<le> ((n - 1) div g + 1) * g" and "((n - 1) div g + 1) * g < n + g"
proof -
  define q where "q = (n - 1) div g"
  have eq: "n - 1 = q * g + (n - 1) mod g" by (simp add: q_def)
  have lt: "(n - 1) mod g < g" using assms by simp
  have "(q + 1) * g = q * g + g" by simp
  with eq lt assms(2) have "n \<le> (q + 1) * g \<and> (q + 1) * g < n + g" by linarith
  then show "n \<le> ((n - 1) div g + 1) * g" and "((n - 1) div g + 1) * g < n + g"
    by (simp_all add: q_def)
qed

text \<open>The word computation of \<open>page_range\<close> does not wrap near the machine's addresses.\<close>

lemma page_range_unat:
  assumes g: "0 < g" and sz: "0 < sz"
    and room: "unat a + unat sz + unat g < 2 ^ 64"
  shows "unat (base (page_range g a sz)) = unat a div unat g * unat g"
    and "unat (len (page_range g a sz)) =
      ((unat sz + unat a mod unat g - 1) div unat g + 1) * unat g"
proof -
  let ?al = "(a div g) * g"
  have g0: "0 < unat g" using g by (simp add: word_less_nat_alt)
  have sz0: "0 < unat sz" using sz by (simp add: word_less_nat_alt)
  have al: "unat ?al = unat a div unat g * unat g"
    by (subst unat_mult_no_wrap) (simp_all add: unat_div le_less_trans [OF div_times_less_eq_dividend])
  then have al_le: "?al \<le> a" by (simp add: word_le_nat_alt)
  have off: "unat (a - ?al) = unat a mod unat g"
    using unat_sub_le [OF al_le] al by (simp add: minus_div_mult_eq_mod)
  have off_lt: "unat a mod unat g < unat g" using g0 by simp
  have s': "unat (sz + (a - ?al)) = unat sz + unat a mod unat g"
    using room off off_lt by (subst unat_add_no_wrap) auto
  then have "1 \<le> sz + (a - ?al)" using sz0 by (simp add: word_le_nat_alt)
  then have s1: "unat (sz + (a - ?al) - 1) = unat sz + unat a mod unat g - 1"
    using unat_sub_le s' by fastforce
  let ?n = "unat sz + unat a mod unat g"
  have up: "((?n - 1) div unat g + 1) * unat g < ?n + unat g"
    by (rule round_up_nat(2)) (use g0 sz0 in auto)
  have bound: "((?n - 1) div unat g + 1) * unat g < 2 ^ 64"
    using up room mod_less_eq_dividend [of "unat a" "unat g"] by linarith
  have q: "x \<le> x * unat g" for x :: nat
    using g0 mult_le_mono2 [of 1 "unat g" x] by simp
  have q1: "unat ((sz + (a - ?al) - 1) div g + 1) = (?n - 1) div unat g + 1"
    using bound q [of "(?n - 1) div unat g + 1"] s1 by (subst unat_add_no_wrap) (simp_all add: unat_div)
  have "unat (((sz + (a - ?al) - 1) div g + 1) * g) = ((?n - 1) div unat g + 1) * unat g"
    using bound q1 by (subst unat_mult_no_wrap) simp_all
  with al show "unat (base (page_range g a sz)) = unat a div unat g * unat g"
    and "unat (len (page_range g a sz)) =
      ((unat sz + unat a mod unat g - 1) div unat g + 1) * unat g"
    by (simp_all add: page_range_def Let_def)
qed

lemma page_range_covers:
  assumes g: "0 < g" and sz: "0 < sz"
    and room: "unat a + unat sz + unat g < 2 ^ 64"
  shows "page_aligned (unat g) (page_range g a sz)"
    and "fits (page_range g a sz)"
    and "{unat a ..< unat a + unat sz} \<subseteq> extent (page_range g a sz)"
    and "unat (len (page_range g a sz)) < unat sz + 2 * unat g"
proof -
  note u = page_range_unat [OF assms]
  let ?n = "unat sz + unat a mod unat g"
  have g0: "0 < unat g" and sz0: "0 < unat sz"
    using g sz by (simp_all add: word_less_nat_alt)
  have n0: "0 < ?n" using sz0 by simp
  note up = round_up_nat [OF g0 n0]
  have split: "unat a = unat a div unat g * unat g + unat a mod unat g" by simp
  have off: "unat a mod unat g < unat g" using g0 by simp
  show "page_aligned (unat g) (page_range g a sz)"
    unfolding page_aligned_def u by simp
  show "fits (page_range g a sz)"
    unfolding fits_def u using up(2) room split by linarith
  show "{unat a ..< unat a + unat sz} \<subseteq> extent (page_range g a sz)"
  proof -
    have "unat a div unat g * unat g \<le> unat a" by simp
    moreover have "unat a + unat sz
        \<le> unat a div unat g * unat g + ((?n - 1) div unat g + 1) * unat g"
      using up(1) split by linarith
    ultimately show ?thesis unfolding extent_def u by (simp only: ivl_subset simp_thms)
  qed
  show "unat (len (page_range g a sz)) < unat sz + 2 * unat g"
    unfolding u using up(2) off by linarith
qed

section \<open>Facts on merging\<close>

lemma fits_unat_end:
  assumes "fits r"
  shows "unat (base r + len r) = unat (base r) + unat (len r)"
  using assms by (simp add: fits_def unat_add_no_wrap)

text \<open>One step of the loop: what the current range becomes when it absorbs another.\<close>

definition absorb :: "region \<Rightarrow> region \<Rightarrow> region" where
  "absorb c r =
     (let new_size = (base r + len r) - base c
      in Region (base c) (if new_size > len c then new_size else len c))"

lemma merge_loop_simps:
  "merge_loop (base c) (len c) [] = [c]"
  "merge_loop (base c) (len c) (r # rs) =
     (if base c + len c > base r
      then merge_loop (base (absorb c r)) (len (absorb c r)) rs
      else c # merge_loop (base r) (len r) rs)"
  by (simp_all add: absorb_def Let_def)

declare merge_loop.simps [simp del]

lemma absorb_unat:
  assumes "fits c" and "fits r" and "base c \<le> base r"
  shows "base (absorb c r) = base c"
    and "unat (len (absorb c r)) =
      max (unat (len c)) (unat (base r) + unat (len r) - unat (base c))"
proof -
  have "base c \<le> base r + len r"
    using assms by (simp add: word_le_nat_alt fits_unat_end)
  then have new: "unat ((base r + len r) - base c) = unat (base r) + unat (len r) - unat (base c)"
    by (simp add: unat_sub_le fits_unat_end assms)
  show "base (absorb c r) = base c" by (simp add: absorb_def Let_def)
  show "unat (len (absorb c r)) =
      max (unat (len c)) (unat (base r) + unat (len r) - unat (base c))"
    by (simp add: absorb_def Let_def word_less_nat_alt new max_def)
qed

lemma absorb_extent:
  assumes "fits c" and "fits r" and "base c \<le> base r" and "base c + len c > base r"
  shows "extent (absorb c r) = extent c \<union> extent r" and "fits (absorb c r)"
proof -
  note u = absorb_unat [OF assms(1-3)]
  have lt: "unat (base r) < unat (base c) + unat (len c)"
    using assms by (simp add: word_less_nat_alt fits_unat_end)
  have le: "unat (base c) \<le> unat (base r)" using assms by (simp add: word_le_nat_alt)
  show "extent (absorb c r) = extent c \<union> extent r"
    unfolding extent_def u using lt le by auto
  show "fits (absorb c r)"
    using assms(1,2) le unfolding fits_def u by auto
qed

lemma absorb_aligned:
  assumes "fits c" and "fits r" and "base c \<le> base r"
    and "page_aligned g c" and "page_aligned g r"
  shows "page_aligned g (absorb c r)"
proof -
  have "g dvd unat (base r) + unat (len r) - unat (base c)"
    using assms by (auto simp: page_aligned_def intro: dvd_diff_nat)
  then show ?thesis
    using assms by (simp add: page_aligned_def absorb_unat max_def)
qed

text \<open>What the loop relies on: the ranges come sorted, none wraps.\<close>

definition mergeable :: "region \<Rightarrow> region list \<Rightarrow> bool" where
  "mergeable c rs \<longleftrightarrow>
     fits c \<and> (\<forall>r \<in> set rs. fits r) \<and> sorted rs \<and> (\<forall>r \<in> set rs. base c \<le> base r)"

lemma mergeable_hd:
  assumes "mergeable c (r # rs)"
  shows "fits c" and "fits r" and "base c \<le> base r"
  using assms by (simp_all add: mergeable_def)

lemma mergeable_next:
  assumes "mergeable c (r # rs)"
  shows "mergeable r rs"
  using assms by (auto simp: mergeable_def less_eq_region_def)

lemma mergeable_absorb:
  assumes m: "mergeable c (r # rs)" and "base c + len c > base r"
  shows "mergeable (absorb c r) rs"
  using m assms(2) absorb_extent(2) [OF mergeable_hd [OF m]] absorb_unat(1) [OF mergeable_hd [OF m]]
  by (simp add: mergeable_def)

lemma mergeable_sorted:
  "sorted (r # rs) \<Longrightarrow> \<forall>s \<in> set (r # rs). fits s \<Longrightarrow> mergeable r rs"
  by (auto simp: mergeable_def less_eq_region_def)

text \<open>
  The loop keeps the addresses, the bound, the alignment, and separates the ranges: four
  inductions that follow its two branches.
\<close>

lemma merge_loop_extents:
  "mergeable c rs \<Longrightarrow> extents (merge_loop (base c) (len c) rs) = extent c \<union> extents rs"
proof (induction rs arbitrary: c)
  case (Cons r rs)
  note hd = mergeable_hd [OF Cons.prems]
  show ?case
  proof (cases "base c + len c > base r")
    case True
    then show ?thesis
      using Cons.IH [OF mergeable_absorb [OF Cons.prems True]] absorb_extent(1) [OF hd True]
      by (simp add: merge_loop_simps Un_assoc)
  next
    case False
    then show ?thesis
      using Cons.IH [OF mergeable_next [OF Cons.prems]] by (simp add: merge_loop_simps)
  qed
qed (simp add: merge_loop_simps)

lemma merge_loop_all:
  assumes step: "\<And>c r. P c \<Longrightarrow> P r \<Longrightarrow> fits c \<Longrightarrow> fits r \<Longrightarrow> base c \<le> base r \<Longrightarrow>
      base c + len c > base r \<Longrightarrow> P (absorb c r)"
  shows "mergeable c rs \<Longrightarrow> \<forall>r \<in> set (c # rs). P r \<Longrightarrow>
    \<forall>r \<in> set (merge_loop (base c) (len c) rs). P r"
proof (induction rs arbitrary: c)
  case (Cons r rs)
  note hd = mergeable_hd [OF Cons.prems(1)]
  have P: "P c" "P r" "\<forall>s \<in> set rs. P s" using Cons.prems(2) by simp_all
  show ?case
  proof (cases "base c + len c > base r")
    case True
    then show ?thesis
      using Cons.IH [OF mergeable_absorb [OF Cons.prems(1) True]] step [OF P(1,2) hd True] P(3)
      by (simp add: merge_loop_simps)
  next
    case False
    then show ?thesis
      using Cons.IH [OF mergeable_next [OF Cons.prems(1)]] P by (simp add: merge_loop_simps)
  qed
qed (simp add: merge_loop_simps)

lemma merge_loop_fits:
  assumes "mergeable c rs"
  shows "\<forall>r \<in> set (merge_loop (base c) (len c) rs). fits r"
  using assms by (intro merge_loop_all) (auto simp: absorb_extent mergeable_def)

lemma merge_loop_aligned:
  assumes "mergeable c rs" and "\<forall>r \<in> set (c # rs). page_aligned g r"
  shows "\<forall>r \<in> set (merge_loop (base c) (len c) rs). page_aligned g r"
  using assms by (intro merge_loop_all) (auto simp: absorb_aligned)

lemma merge_loop_above:
  assumes "mergeable c rs" and "a \<le> base c"
  shows "\<forall>r \<in> set (merge_loop (base c) (len c) rs). a \<le> base r"
proof (rule merge_loop_all [OF _ assms(1)])
  show "\<forall>r \<in> set (c # rs). a \<le> base r"
    using assms by (auto simp: mergeable_def)
qed (simp add: absorb_unat)

lemma merge_loop_separated:
  "mergeable c rs \<Longrightarrow> sorted_wrt below (merge_loop (base c) (len c) rs)"
proof (induction rs arbitrary: c)
  case (Cons r rs)
  note hd = mergeable_hd [OF Cons.prems]
  show ?case
  proof (cases "base c + len c > base r")
    case True
    then show ?thesis
      using Cons.IH [OF mergeable_absorb [OF Cons.prems True]] by (simp add: merge_loop_simps)
  next
    case False
    have "unat (base c) + unat (len c) \<le> unat (base r)"
      using False fits_unat_end [OF hd(1)] by (simp add: not_less word_le_nat_alt)
    then have "\<forall>s \<in> set (merge_loop (base r) (len r) rs). below c s"
      using merge_loop_above [OF mergeable_next [OF Cons.prems] order_refl]
      by (auto simp: below_def word_le_nat_alt intro: order_trans)
    then show ?thesis
      using False Cons.IH [OF mergeable_next [OF Cons.prems]] by (simp add: merge_loop_simps)
  qed
qed (simp add: merge_loop_simps)

lemma compute_allocations_Cons:
  "sorted (r # rs) \<Longrightarrow> \<forall>s \<in> set (r # rs). fits s \<Longrightarrow>
   compute_allocations (r # rs) = merge_loop (base r) (len r) rs \<and> mergeable r rs"
  by (simp only: compute_allocations_def list.case mergeable_sorted simp_thms)

lemma compute_allocations_facts:
  assumes "sorted rs" and "\<forall>r \<in> set rs. fits r"
  shows "extents (compute_allocations rs) = extents rs"
    and "sorted_wrt below (compute_allocations rs)"
    and "\<forall>r \<in> set (compute_allocations rs). fits r"
    and "\<forall>r \<in> set rs. page_aligned g r \<Longrightarrow> \<forall>r \<in> set (compute_allocations rs). page_aligned g r"
proof -
  have "extents (compute_allocations rs) = extents rs \<and> sorted_wrt below (compute_allocations rs)
      \<and> (\<forall>r \<in> set (compute_allocations rs). fits r)
      \<and> ((\<forall>r \<in> set rs. page_aligned g r) \<longrightarrow>
           (\<forall>r \<in> set (compute_allocations rs). page_aligned g r))"
  proof (cases rs)
    case (Cons r ss)
    then obtain eq: "compute_allocations rs = merge_loop (base r) (len r) ss"
      and m: "mergeable r ss"
      using assms compute_allocations_Cons [of r ss] by blast
    show ?thesis
      unfolding eq unfolding Cons extents_simps(2)
      by (intro conjI impI merge_loop_extents [OF m] merge_loop_separated [OF m]
          merge_loop_fits [OF m] merge_loop_aligned [OF m])
  qed (simp add: compute_allocations_def)
  then show "extents (compute_allocations rs) = extents rs"
    and "sorted_wrt below (compute_allocations rs)"
    and "\<forall>r \<in> set (compute_allocations rs). fits r"
    and "\<forall>r \<in> set rs. page_aligned g r \<Longrightarrow> \<forall>r \<in> set (compute_allocations rs). page_aligned g r"
    by blast+
qed

lemma sorted_set_insert: "sorted rs \<Longrightarrow> sorted (set_insert r rs)"
  by (simp add: set_insert_def sorted_insort_insert)

lemma set_set_insert: "set (set_insert r rs) = insert r (set rs)"
  by (simp add: set_insert_def set_insort_insert)

section \<open>Properties\<close>

text \<open>
  Property C6.  \<open>compute_allocations\<close>: for the page ranges of the captured allocations,
  in the order \<open>std::set\<close> iterates, the ranges to map hold exactly the same addresses,
  are pairwise disjoint in increasing order (so that no mapping can collide with an
  earlier one), stay inside the address space, and are page-aligned when the inputs are.
\<close>

theorem compute_allocations_correct:
  assumes "sorted allocations"
    and "\<forall>r \<in> set allocations. fits r \<and> page_aligned g r"
  shows "extents (compute_allocations allocations) = extents allocations
    \<and> sorted_wrt below (compute_allocations allocations)
    \<and> (\<forall>r \<in> set (compute_allocations allocations). fits r \<and> page_aligned g r)"
  using compute_allocations_facts [of allocations] assms by blast

theorem compute_allocations_correct_witness:
  "extents (compute_allocations [Region 4096 8192, Region 8192 4096, Region 16384 4096])
     = extents [Region 4096 8192, Region 8192 4096, Region 16384 4096]
   \<and> compute_allocations [Region 4096 8192, Region 8192 4096, Region 16384 4096]
     = [Region 4096 8192, Region 16384 4096]"
  using compute_allocations_correct
    [of "[Region 4096 8192, Region 8192 4096, Region 16384 4096]" 4096]
  by (simp add: fits_def page_aligned_def less_eq_region_def compute_allocations_def
      merge_loop.simps Let_def)

text \<open>
  Property C29.  \<open>get_allocation_address\<close>: the page range computed for a captured
  allocation is aligned to the space's granularity, holds every byte of the allocation,
  wastes less than two pages, and does not wrap, for a nonempty allocation that does not
  end within one page of the end of the address space.
\<close>

theorem get_allocation_address_covers:
  assumes "get_allocation_address b pagesize query a sz space = Inr r"
    and "g = (if space = HOST then pagesize
              else case device_allocation_granularity b query of Inl e \<Rightarrow> 0 | Inr x \<Rightarrow> x)"
    and "0 < g" and "0 < sz" and "unat a + unat sz + unat g < 2 ^ 64"
  shows "page_aligned (unat g) r \<and> fits r
    \<and> {unat a ..< unat a + unat sz} \<subseteq> extent r
    \<and> unat (len r) < unat sz + 2 * unat g"
proof -
  have "r = page_range g a sz"
    using assms(1,2) by (auto simp: get_allocation_address_def split: if_splits sum.splits)
  then show ?thesis using page_range_covers [OF assms(3-5)] by simp
qed

theorem get_allocation_address_covers_witness:
  "get_allocation_address No_Backend 4096 (Inl Other_Exception) 5000 4000 HOST
     = Inr (Region 4096 8192)
   \<and> {5000 ..< 9000} \<subseteq> extent (Region 4096 8192)"
proof -
  have r: "get_allocation_address No_Backend 4096 (Inl Other_Exception) 5000 4000 HOST
      = Inr (Region 4096 8192)"
    by (simp add: get_allocation_address_def page_range_def Let_def)
  show ?thesis
    using r get_allocation_address_covers [OF r, of 4096] by simp
qed

end
