(* ===== verification/Dump_Reader.thy ===== *)
theory Dump_Reader
  imports Hdf5 Replay_Layout
begin

text \<open>
  The reading half of \<open>src/krepe/replay/kernel_replayer.cpp\<close>: attributes and datasets,
  the descriptions of the captured allocations and their bytes, the functor, and the
  execution policy.  Assertions are enabled: one that fails is \<open>Abort\<close>.
\<close>

section \<open>Attributes\<close>

text \<open>
  \<open>attribute\<close> is a string of \<open>data_size\<close> null characters that the read fills, and loses
  its last character.  A buffer that is not text cannot be read into it.
\<close>

definition string_of_buffer :: "nat \<Rightarrow> h5buf \<Rightarrow> ('w, string) prog" where
  "string_of_buffer data_size buf =
     (case buf of
        Chars s \<Rightarrow> done_with (butlast (take data_size (s @ replicate data_size (CHR 0x00))))
      | _ \<Rightarrow> throw Abort)"

definition get_hdf5_string_attribute ::
  "'w hdf5 \<Rightarrow> hid \<Rightarrow> string \<Rightarrow> string \<Rightarrow> ('w, string) prog" where
  "get_hdf5_string_attribute api grp name attr_name =
     scoped (CHECK_HDF5_ID ''H5Aopen_by_name'' (H5Aopen_by_name api grp name attr_name))
       (H5Aclose api) (\<lambda>attr.
     and_then (CHECK_HDF5_OUT ''H5Aget_info'' (H5Aget_info api attr)) (\<lambda>data_size.
     scoped (CHECK_HDF5_ID ''H5Aget_type'' (H5Aget_type api attr)) (H5Tclose api) (\<lambda>ty.
     and_then (CHECK_HDF5_OUT ''H5Aread'' (H5Aread api attr (Type_Handle ty)))
       (string_of_buffer data_size))))"

text \<open>\<open>assert(attr_info.data_size == sizeof(T))\<close> comes before the read.\<close>

definition get_hdf5_int_attribute ::
  "'w hdf5 \<Rightarrow> hid \<Rightarrow> string \<Rightarrow> string \<Rightarrow> ('w, i32) prog" where
  "get_hdf5_int_attribute api grp name attr_name =
     scoped (CHECK_HDF5_ID ''H5Aopen_by_name'' (H5Aopen_by_name api grp name attr_name))
       (H5Aclose api) (\<lambda>attr.
     and_then (CHECK_HDF5_OUT ''H5Aget_info'' (H5Aget_info api attr)) (\<lambda>data_size.
     scoped (CHECK_HDF5_ID ''H5Aget_type'' (H5Aget_type api attr)) (H5Tclose api) (\<lambda>ty.
     if data_size \<noteq> 4 then throw Abort
     else and_then (CHECK_HDF5_OUT ''H5Aread'' (H5Aread api attr (Type_Handle ty))) (\<lambda>buf.
       case buf of Int32 v \<Rightarrow> done_with v | _ \<Rightarrow> throw Abort))))"

definition get_hdf5_uint64_attribute ::
  "'w hdf5 \<Rightarrow> hid \<Rightarrow> string \<Rightarrow> string \<Rightarrow> ('w, u64) prog" where
  "get_hdf5_uint64_attribute api grp name attr_name =
     scoped (CHECK_HDF5_ID ''H5Aopen_by_name'' (H5Aopen_by_name api grp name attr_name))
       (H5Aclose api) (\<lambda>attr.
     and_then (CHECK_HDF5_OUT ''H5Aget_info'' (H5Aget_info api attr)) (\<lambda>data_size.
     scoped (CHECK_HDF5_ID ''H5Aget_type'' (H5Aget_type api attr)) (H5Tclose api) (\<lambda>ty.
     if data_size \<noteq> 8 then throw Abort
     else and_then (CHECK_HDF5_OUT ''H5Aread'' (H5Aread api attr (Type_Handle ty))) (\<lambda>buf.
       case buf of Word64 v \<Rightarrow> done_with v | _ \<Rightarrow> throw Abort))))"

section \<open>Datasets\<close>

definition read_uchars :: "'w hdf5 \<Rightarrow> hid \<Rightarrow> string \<Rightarrow> ('w, byte list) prog" where
  "read_uchars api root name =
     and_then (CHECK_HDF5_OUT ''H5LTread_dataset'' (H5LTread_dataset api root name NATIVE_UCHAR))
       (\<lambda>buf. case buf of Uchars bs \<Rightarrow> done_with bs | _ \<Rightarrow> throw Abort)"

text \<open>
  The rank and the shape of a dataset that is asserted to be one-dimensional, of integers
  of the given size: its element count.
\<close>

definition asserted_dataset_info :: "'w hdf5 \<Rightarrow> hid \<Rightarrow> string \<Rightarrow> nat \<Rightarrow> ('w, nat) prog" where
  "asserted_dataset_info api root name element_size =
     and_then (CHECK_HDF5_OUT ''H5LTget_dataset_ndims'' (H5LTget_dataset_ndims api root name)) (\<lambda>rank.
     if rank \<noteq> 1 then throw Abort
     else and_then (CHECK_HDF5_OUT ''H5LTget_dataset_info'' (H5LTget_dataset_info api root name)) (\<lambda>info.
     if \<not> info_is_integer info \<or> info_type_size info \<noteq> element_size then throw Abort
     else done_with (info_count info)))"

definition read_hdf5_int64_dataset :: "'w hdf5 \<Rightarrow> hid \<Rightarrow> string \<Rightarrow> ('w, 64 word list) prog" where
  "read_hdf5_int64_dataset api root name =
     and_then (asserted_dataset_info api root name 8) (\<lambda>dim.
     and_then (CHECK_HDF5_OUT ''H5LTread_dataset'' (H5LTread_dataset api root name NATIVE_INT64)) (\<lambda>buf.
     case buf of Int64s xs \<Rightarrow> done_with xs | _ \<Rightarrow> throw Abort))"

definition check_byte_dataset :: "'w hdf5 \<Rightarrow> hid \<Rightarrow> string \<Rightarrow> u64 \<Rightarrow> ('w, unit) prog" where
  "check_byte_dataset api grp name sz =
     (let dataset = name @ ''/bytes'' in
      and_then (CHECK_HDF5_OUT ''H5LTget_dataset_ndims'' (H5LTget_dataset_ndims api grp dataset)) (\<lambda>rank.
      if rank \<noteq> 1
      then throw (Std_Exception (''Expected a one-dimensional byte dataset: '' @ dataset))
      else and_then (CHECK_HDF5_OUT ''H5LTget_dataset_info'' (H5LTget_dataset_info api grp dataset)) (\<lambda>info.
      if \<not> info_is_integer info \<or> info_type_size info \<noteq> 1 \<or> info_count info \<noteq> unat sz
      then throw (Std_Exception (''Inconsistent allocation byte dataset: '' @ dataset))
      else done_with ())))"

section \<open>The captured allocations\<close>

text \<open>A name in single quotes, as the messages of the exceptions show it.\<close>

definition quoted :: "string \<Rightarrow> string" where
  "quoted s = [CHR 0x27] @ s @ [CHR 0x27]"

record snapshot_allocation =
  sa_label :: string
  sa_space :: string
  sa_allocation_id :: addr
  sa_address :: addr
  sa_size :: u64
  sa_bytes_dumped :: bool

definition pointer_attribute :: "'w hdf5 \<Rightarrow> hid \<Rightarrow> string \<Rightarrow> string \<Rightarrow> ('w, addr) prog" where
  "pointer_attribute api grp name attribute =
     and_then (get_hdf5_string_attribute api grp name attribute) (\<lambda>text.
       case stoull_16 text of Inl e \<Rightarrow> throw e | Inr p \<Rightarrow> done_with p)"

definition read_allocation_info ::
  "'w hdf5 \<Rightarrow> hid \<Rightarrow> string \<Rightarrow> ('w, snapshot_allocation) prog" where
  "read_allocation_info api grp name =
     and_then (get_hdf5_uint64_attribute api grp name ''size'') (\<lambda>sz.
     and_then (get_hdf5_string_attribute api grp name ''label'') (\<lambda>label.
     and_then (get_hdf5_string_attribute api grp name ''space'') (\<lambda>space.
     and_then (pointer_attribute api grp name ''ptr'') (\<lambda>ptr.
     and_then (pointer_attribute api grp name ''p_data'') (\<lambda>p_data.
     and_then (get_hdf5_int_attribute api grp name ''bytes_dumped'') (\<lambda>dumped.
     done_with \<lparr>sa_label = label, sa_space = space, sa_allocation_id = ptr, sa_address = p_data,
       sa_size = sz, sa_bytes_dumped = (dumped \<noteq> 0)\<rparr>))))))"

text \<open>
  The iteration over the links of a group: the first callback that throws stops it, and
  the exception it left in the context is thrown again.  The group is closed either way.
\<close>

definition iterate_allocations ::
  "'w hdf5 \<Rightarrow> hid \<Rightarrow> string \<Rightarrow> (hid \<Rightarrow> string \<Rightarrow> 's \<Rightarrow> ('w, 's) prog) \<Rightarrow> 's \<Rightarrow> ('w, 's) prog"
where
  "iterate_allocations api file path callback s w =
     (let (grp, w1) = H5Literate_open api file path w in
      if grp < 0 then throw (call_failed ''status'') w1
      else let (outcome, w2) = fold_each (callback grp) (H5Literate_names api grp w1) s w1
           in (outcome, destroy_handle (H5Gclose api) grp w2))"

text \<open>
  \<open>get_hdf5_dataset_alloc_info<target>\<close> collects the page ranges of the allocations of one
  kind of memory space.
\<close>

record replay_build =
  rb_backend :: device_backend
  rb_nvcc_hdl_workaround :: bool
  rb_exec_spaces :: "string list"
  rb_kokkos_5_2 :: bool

definition get_hdf5_dataset_alloc_info ::
  "'w hdf5 \<Rightarrow> replay_build \<Rightarrow> u64 \<Rightarrow> exn + u64 \<Rightarrow> memory_space_type \<Rightarrow> hid \<Rightarrow> string \<Rightarrow>
   region list \<Rightarrow> ('w, region list) prog"
where
  "get_hdf5_dataset_alloc_info api rb pagesize query target grp name allocations =
     and_then (read_allocation_info api grp name) (\<lambda>entry.
       let space = memory_space_type_from_string (sa_space entry) in
       if space \<noteq> target then done_with allocations
       else if \<not> sa_bytes_dumped entry
       then throw (Std_Exception (''Input allocation '' @ quoted (sa_label entry) @
              '' is not available in the kernel dump''))
       else and_then (check_byte_dataset api grp name (sa_size entry)) (\<lambda>_.
         if sa_size entry \<noteq> 0
         then (case get_allocation_address (rb_backend rb) pagesize query (sa_address entry)
                 (sa_size entry) space of
                 Inl e \<Rightarrow> throw e
               | Inr r \<Rightarrow> done_with (set_insert r allocations))
         else done_with allocations))"

text \<open>
  \<open>allocate_hdf5_dataset\<close>: the callback gets the description and, unless there is nothing
  to copy, the bytes.  \<open>host_buffer\<close> allocates the staging buffer: whether there is one, or
  the exception; reading into a null pointer is undefined.
\<close>

definition allocate_hdf5_dataset ::
  "'w hdf5 \<Rightarrow> (u64 \<Rightarrow> memory_space_type \<Rightarrow> exn + bool) \<Rightarrow>
   (snapshot_allocation \<Rightarrow> byte list option \<Rightarrow> 's \<Rightarrow> ('w, 's) prog) \<Rightarrow>
   hid \<Rightarrow> string \<Rightarrow> 's \<Rightarrow> ('w, 's) prog"
where
  "allocate_hdf5_dataset api host_buffer callback grp name s =
     and_then (read_allocation_info api grp name) (\<lambda>entry.
     and_then (if sa_bytes_dumped entry then check_byte_dataset api grp name (sa_size entry)
               else done_with ()) (\<lambda>_.
     if \<not> sa_bytes_dumped entry \<or> sa_size entry = 0 then callback entry None s
     else case host_buffer (sa_size entry) (memory_space_type_from_string (sa_space entry)) of
            Inl e \<Rightarrow> throw e
          | Inr False \<Rightarrow> throw Abort
          | Inr True \<Rightarrow> and_then (read_uchars api grp (name @ ''/bytes'')) (\<lambda>bytes.
              callback entry (Some bytes) s)))"

section \<open>Metadata\<close>

text \<open>
  \<open>read_hdf5_metadata\<close>, with the insertion into the map as a parameter, and
  \<open>H5Aiterate_by_name\<close>: over the attributes of the group \<open>metadata\<close>.  Its callback does
  not catch: an exception that leaves it crosses the library, which is undefined.
\<close>

definition read_hdf5_metadata ::
  "'w hdf5 \<Rightarrow> (string \<Rightarrow> string \<Rightarrow> ('w, unit) prog) \<Rightarrow> hid \<Rightarrow> string \<Rightarrow> ('w, unit) prog" where
  "read_hdf5_metadata api insert_entry grp name =
     and_then (get_hdf5_string_attribute api grp ''.'' name) (insert_entry name)"

definition iterate_metadata ::
  "'w hdf5 \<Rightarrow> (string \<Rightarrow> string \<Rightarrow> ('w, unit) prog) \<Rightarrow> hid \<Rightarrow> ('w, unit) prog" where
  "iterate_metadata api insert_entry file w =
     (let (grp, w1) = H5Literate_open api file ''metadata'' w in
      if grp < 0 then throw (call_failed ''H5Aiterate_by_name'') w1
      else case for_each (read_hdf5_metadata api insert_entry grp) (H5Aiterate_names api grp w1) w1 of
             (Inl e, w2) \<Rightarrow> (Inl Abort, destroy_handle (H5Gclose api) grp w2)
           | (Inr u, w2) \<Rightarrow> (Inr u, destroy_handle (H5Gclose api) grp w2))"

section \<open>The execution policy\<close>

text \<open>
  The variants that are visited at run time.  \<open>replay_build\<close> names the execution spaces
  that are enabled; the alternatives of \<open>exec_space_var_t\<close> are tags of them.
\<close>

datatype index_type = Int8 | Uint8 | Int16 | Uint16 | Int32_Type | Uint32 | Int64 | Uint64

datatype schedule_type = Static_Schedule | Dynamic_Schedule

datatype iterate_dir = Iterate_Left | Iterate_Right

record replay_range =
  rr_begin :: u64
  rr_end :: u64
  rr_chunk_size :: i32
  rr_index_type :: index_type
  rr_schedule :: schedule_type
  rr_exec_space :: string

record replay_mdrange =
  rm_begin :: "64 word list"
  rm_end :: "64 word list"
  rm_tile :: "64 word list"
  rm_index_type :: index_type
  rm_schedule :: schedule_type
  rm_exec_space :: string
  rm_rank :: nat
  rm_outer_dir :: iterate_dir
  rm_inner_dir :: iterate_dir

record replay_team =
  rt_team_size :: i32
  rt_league_size :: i32
  rt_vector_length :: i32
  rt_team_scratch_0 :: i32
  rt_team_scratch_1 :: i32
  rt_thread_scratch_0 :: i32
  rt_thread_scratch_1 :: i32
  rt_chunk_size :: i32
  rt_index_type :: index_type
  rt_schedule :: schedule_type
  rt_exec_space :: string

datatype policy_var =
  Replay_None
| Replay_Scalar u64
| Replay_Range replay_range
| Replay_Mdrange replay_mdrange
| Replay_Team replay_team

definition get_policy_index_type_from_props :: "bool \<Rightarrow> u64 \<Rightarrow> exn + index_type" where
  "get_policy_index_type_from_props index_type_signed index_type_size =
     (if index_type_signed then
        if index_type_size = 1 then Inr Int8
        else if index_type_size = 2 then Inr Int16
        else if index_type_size = 4 then Inr Int32_Type
        else if index_type_size = 8 then Inr Int64
        else Inl (Std_Exception (''unexpected index type size '' @ to_string (unat index_type_size)))
      else
        if index_type_size = 1 then Inr Uint8
        else if index_type_size = 2 then Inr Uint16
        else if index_type_size = 4 then Inr Uint32
        else if index_type_size = 8 then Inr Uint64
        else Inl (Std_Exception (''unexpected index type size '' @ to_string (unat index_type_size))))"

definition get_policy_schedule_from_name :: "string \<Rightarrow> exn + schedule_type" where
  "get_policy_schedule_from_name schedule =
     (if schedule = ''static'' then Inr Static_Schedule
      else if schedule = ''dynamic'' then Inr Dynamic_Schedule
      else Inl (Std_Exception (''Unexpected schedule type '' @ quoted schedule @ '' found in the dump'')))"

definition exec_space_names :: "string list" where
  "exec_space_names = [''Serial'', ''OpenMP'', ''Threads'', ''HPX'', ''Cuda'', ''HIP'']"

definition get_policy_exec_space_from_name :: "replay_build \<Rightarrow> string \<Rightarrow> exn + string" where
  "get_policy_exec_space_from_name rb space =
     (if space \<in> set exec_space_names \<and> space \<in> set (rb_exec_spaces rb) then Inr space
      else Inl (Std_Exception (''No enabled execution space corresponds to '' @ space)))"

definition policy_rank_of :: "replay_build \<Rightarrow> i32 \<Rightarrow> exn + nat" where
  "policy_rank_of rb rank =
     (if rank = 1 \<and> rb_kokkos_5_2 rb \<or> rank \<in> {2, 3, 4, 5, 6} then Inr (unat rank)
      else Inl (Std_Exception (''Unexpected mdrange policy rank '' @
        (if sint rank < 0 then ''-'' @ to_string (nat (- sint rank)) else to_string (nat (sint rank))))))"

definition iterate_dir_of_name :: "string \<Rightarrow> exn + iterate_dir" where
  "iterate_dir_of_name name =
     (if name = ''left'' then Inr Iterate_Left
      else if name = ''right'' then Inr Iterate_Right
      else Inl (Std_Exception (''Unexpected iteration pattern '' @ quoted name)))"

text \<open>A helper that returns or throws, called from the reader.\<close>

definition returned :: "exn + 'a \<Rightarrow> ('w, 'a) prog" where
  "returned r = (case r of Inl e \<Rightarrow> throw e | Inr x \<Rightarrow> done_with x)"

definition read_range_policy ::
  "'w hdf5 \<Rightarrow> hid \<Rightarrow> index_type \<Rightarrow> schedule_type \<Rightarrow> string \<Rightarrow> ('w, policy_var) prog" where
  "read_range_policy api file index_type schedule exec_space =
     and_then (get_hdf5_uint64_attribute api file ''policy'' ''begin'') (\<lambda>lower.
     and_then (get_hdf5_uint64_attribute api file ''policy'' ''end'') (\<lambda>upper.
     and_then (get_hdf5_int_attribute api file ''policy'' ''chunk_size'') (\<lambda>chunk_size.
     done_with (Replay_Range
       \<lparr>rr_begin = lower, rr_end = upper, rr_chunk_size = chunk_size, rr_index_type = index_type,
        rr_schedule = schedule, rr_exec_space = exec_space\<rparr>))))"

definition read_mdrange_policy ::
  "'w hdf5 \<Rightarrow> replay_build \<Rightarrow> hid \<Rightarrow> index_type \<Rightarrow> schedule_type \<Rightarrow> string \<Rightarrow> ('w, policy_var) prog"
where
  "read_mdrange_policy api rb file index_type schedule exec_space =
     and_then (get_hdf5_int_attribute api file ''policy'' ''rank'') (\<lambda>rank.
     and_then (returned (policy_rank_of rb rank)) (\<lambda>policy_rank.
     and_then (get_hdf5_string_attribute api file ''policy'' ''outer_dir'') (\<lambda>outer_name.
     and_then (returned (iterate_dir_of_name outer_name)) (\<lambda>outer_dir.
     and_then (get_hdf5_string_attribute api file ''policy'' ''inner_dir'') (\<lambda>inner_name.
     and_then (returned (iterate_dir_of_name inner_name)) (\<lambda>inner_dir.
     and_then (read_hdf5_int64_dataset api file ''policy/begin'') (\<lambda>lower.
     and_then (read_hdf5_int64_dataset api file ''policy/end'') (\<lambda>upper.
     and_then (read_hdf5_int64_dataset api file ''policy/tile'') (\<lambda>tile.
     done_with (Replay_Mdrange
       \<lparr>rm_begin = lower, rm_end = upper, rm_tile = tile, rm_index_type = index_type,
        rm_schedule = schedule, rm_exec_space = exec_space, rm_rank = policy_rank,
        rm_outer_dir = outer_dir, rm_inner_dir = inner_dir\<rparr>))))))))))"

definition read_team_policy ::
  "'w hdf5 \<Rightarrow> hid \<Rightarrow> index_type \<Rightarrow> schedule_type \<Rightarrow> string \<Rightarrow> ('w, policy_var) prog" where
  "read_team_policy api file index_type schedule exec_space =
     and_then (get_hdf5_int_attribute api file ''policy'' ''team_size'') (\<lambda>team_size.
     and_then (get_hdf5_int_attribute api file ''policy'' ''league_size'') (\<lambda>league_size.
     and_then (get_hdf5_int_attribute api file ''policy'' ''vector_length'') (\<lambda>vector_length.
     and_then (get_hdf5_int_attribute api file ''policy'' ''team_scratch_0'') (\<lambda>team_scratch_0.
     and_then (get_hdf5_int_attribute api file ''policy'' ''team_scratch_1'') (\<lambda>team_scratch_1.
     and_then (get_hdf5_int_attribute api file ''policy'' ''thread_scratch_0'') (\<lambda>thread_scratch_0.
     and_then (get_hdf5_int_attribute api file ''policy'' ''thread_scratch_1'') (\<lambda>thread_scratch_1.
     and_then (get_hdf5_int_attribute api file ''policy'' ''chunk_size'') (\<lambda>chunk_size.
     done_with (Replay_Team
       \<lparr>rt_team_size = team_size, rt_league_size = league_size, rt_vector_length = vector_length,
        rt_team_scratch_0 = team_scratch_0, rt_team_scratch_1 = team_scratch_1,
        rt_thread_scratch_0 = thread_scratch_0, rt_thread_scratch_1 = thread_scratch_1,
        rt_chunk_size = chunk_size, rt_index_type = index_type, rt_schedule = schedule,
        rt_exec_space = exec_space\<rparr>)))))))))"

text \<open>
  \<open>read_policy_from_hdf5\<close> after it has read the type of the policy.  The stored integers
  convert to \<open>bool\<close> and, with their sign, to \<open>std::size_t\<close>.
\<close>

definition read_policy_of_type ::
  "'w hdf5 \<Rightarrow> replay_build \<Rightarrow> hid \<Rightarrow> string \<Rightarrow> ('w, policy_var) prog" where
  "read_policy_of_type api rb file ty =
     (if ty = ''none'' then done_with Replay_None
     else if ty = ''scalar''
     then and_then (get_hdf5_uint64_attribute api file ''policy'' ''end'') (\<lambda>n.
            done_with (Replay_Scalar n))
     else
       and_then (get_hdf5_int_attribute api file ''policy'' ''index_type_signed'') (\<lambda>index_type_signed.
       and_then (get_hdf5_int_attribute api file ''policy'' ''index_type_size'') (\<lambda>index_type_size.
       and_then (returned (get_policy_index_type_from_props (index_type_signed \<noteq> 0)
         (scast index_type_size))) (\<lambda>index_type.
       and_then (get_hdf5_string_attribute api file ''policy'' ''space'') (\<lambda>exec_space_name.
       and_then (returned (get_policy_exec_space_from_name rb exec_space_name)) (\<lambda>exec_space.
       and_then (get_hdf5_string_attribute api file ''policy'' ''schedule'') (\<lambda>schedule_name.
       and_then (returned (get_policy_schedule_from_name schedule_name)) (\<lambda>schedule.
       if ty = ''range'' then read_range_policy api file index_type schedule exec_space
       else if ty = ''mdrange'' then read_mdrange_policy api rb file index_type schedule exec_space
       else if ty = ''team'' then read_team_policy api file index_type schedule exec_space
       else throw (Std_Exception (''Unknown policy type '' @ quoted ty))))))))))"

end
