(* ===== verification/Dump_Roundtrip.thy ===== *)
theory Dump_Roundtrip
  imports Dump_Image Dump_Reader
begin

text \<open>
  What the replayer reads from a file the capture tool wrote: the readers of
  \<open>src/krepe/replay/kernel_replayer.cpp\<close> against the contents described in \<open>Dump_Image\<close>,
  for any library that satisfies the laws of \<open>Hdf5_Store\<close>.
\<close>

section \<open>The readers on any file\<close>

context hdf5_reader
begin

text \<open>The shape the three attribute readers share.\<close>

lemma yields_attribute:
  assumes l: "place v l = Some (f, p)"
    and a: "attr_at v f (p @ split_path obj) name = Some (T, Some buf)"
    and decode: "\<And>u m. yields view u m buf \<Longrightarrow> yields view u (decode (type_size T) m) x"
  shows "yields view v (scoped (CHECK_HDF5_ID e (H5Aopen_by_name api l obj name)) (H5Aclose api) (\<lambda>attr.
     and_then (CHECK_HDF5_OUT e1 (H5Aget_info api attr)) (\<lambda>data_size.
     scoped (CHECK_HDF5_ID e2 (H5Aget_type api attr)) (H5Tclose api) (\<lambda>ty.
     decode data_size (CHECK_HDF5_OUT e3 (H5Aread api attr (Type_Handle ty))))))) x"
proof (rule yields_scoped [where r = "Attr_Ref f (p @ split_path obj) name"])
  fix w assume "view w = v"
  then show "\<exists>i w'. H5Aopen_by_name api l obj name w = (i, w') \<and> 0 \<le> i \<and>
      view w' = new_ref i (Attr_Ref f (p @ split_path obj) name) v"
    using Aopen_by_name [of w l f p obj name] l a by simp
next
  fix h assume fresh: "h5_refs v h = None"
  let ?v = "new_ref h (Attr_Ref f (p @ split_path obj) name) v"
  have a': "attr_at ?v f (p @ split_path obj) name = Some (T, Some buf)" using a by simp
  show "yields view ?v (and_then (CHECK_HDF5_OUT e1 (H5Aget_info api h)) (\<lambda>data_size.
     scoped (CHECK_HDF5_ID e2 (H5Aget_type api h)) (H5Tclose api) (\<lambda>ty.
     decode data_size (CHECK_HDF5_OUT e3 (H5Aread api h (Type_Handle ty)))))) x"
  proof (rule yields_and_then [where x = "type_size T"])
    show "yields view ?v (CHECK_HDF5_OUT e1 (H5Aget_info api h)) (type_size T)"
    proof (rule yields_out)
      fix w assume "view w = ?v"
      then show "\<exists>s w'. H5Aget_info api h w = ((s, type_size T), w') \<and> 0 \<le> s \<and> view w' = view w"
        using Aget_info [of w h f "p @ split_path obj" name T "Some buf"] a' by simp
    qed
    show "yields view ?v (scoped (CHECK_HDF5_ID e2 (H5Aget_type api h)) (H5Tclose api) (\<lambda>ty.
       decode (type_size T) (CHECK_HDF5_OUT e3 (H5Aread api h (Type_Handle ty))))) x"
    proof (rule yields_scoped [where r = "Type_Ref T"])
      fix w assume "view w = ?v"
      then show "\<exists>i w'. H5Aget_type api h w = (i, w') \<and> 0 \<le> i \<and> view w' = new_ref i (Type_Ref T) ?v"
        using Aget_type [of w h f "p @ split_path obj" name T "Some buf"] a' by simp
    next
      fix t assume t: "h5_refs ?v t = None"
      let ?u = "new_ref t (Type_Ref T) ?v"
      have h: "h5_refs ?u h = Some (Attr_Ref f (p @ split_path obj) name)"
        using t by (auto split: if_splits)
      have read: "yields view ?u (CHECK_HDF5_OUT e3 (H5Aread api h (Type_Handle t))) buf"
      proof (rule yields_out)
        fix w assume w: "view w = ?u"
        have "attr_at (view w) f (p @ split_path obj) name = Some (T, Some buf)" using a w by simp
        moreover have "type_of_tid (view w) (Type_Handle t) = Some T"
          using w by (simp add: type_of_tid_def)
        ultimately show "\<exists>s w'. H5Aread api h (Type_Handle t) w = ((s, buf), w') \<and> 0 \<le> s \<and>
            view w' = view w"
          using Aread [of w h f "p @ split_path obj" name] h w by simp
      qed
      show "yields view ?u (decode (type_size T) (CHECK_HDF5_OUT e3 (H5Aread api h (Type_Handle t)))) x"
        by (rule decode [OF read])
    qed (simp_all add: opens_calls closes_calls closing)
  qed
qed (simp_all add: opens_calls closes_calls closing)

lemma yields_string:
  assumes "place v l = Some (f, p)"
    and "attr_at v f (p @ split_path obj) name = Some (string_attr text)"
  shows "yields view v (get_hdf5_string_attribute api l obj name) text"
  unfolding get_hdf5_string_attribute_def
  by (rule yields_attribute [OF assms(1) assms(2) [unfolded string_attr_def],
        where decode = "\<lambda>n m. and_then m (string_of_buffer n)"])
    (rule yields_and_then, assumption, simp add: string_of_buffer_def yields_done_with)

lemma yields_int:
  assumes "place v l = Some (f, p)"
    and "attr_at v f (p @ split_path obj) name = Some (int_attr n)"
  shows "yields view v (get_hdf5_int_attribute api l obj name) n"
  unfolding get_hdf5_int_attribute_def
  by (rule yields_attribute [OF assms(1) assms(2) [unfolded int_attr_def],
        where decode = "\<lambda>n m. if n \<noteq> 4 then throw Abort
          else and_then m (\<lambda>buf. case buf of Int32 v \<Rightarrow> done_with v | _ \<Rightarrow> throw Abort)"])
    (simp, rule yields_and_then, assumption, simp add: yields_done_with)

lemma yields_uint64:
  assumes "place v l = Some (f, p)"
    and "attr_at v f (p @ split_path obj) name = Some (uint64_attr n)"
  shows "yields view v (get_hdf5_uint64_attribute api l obj name) n"
  unfolding get_hdf5_uint64_attribute_def
  by (rule yields_attribute [OF assms(1) assms(2) [unfolded uint64_attr_def],
        where decode = "\<lambda>n m. if n \<noteq> 8 then throw Abort
          else and_then m (\<lambda>buf. case buf of Word64 v \<Rightarrow> done_with v | _ \<Rightarrow> throw Abort)"])
    (simp, rule yields_and_then, assumption, simp add: yields_done_with)

lemma yields_ndims:
  assumes "place v l = Some (f, p)" and "data_at v f (p @ split_path obj) = Some d"
  shows "yields view v (CHECK_HDF5_OUT e (H5LTget_dataset_ndims api l obj)) 1"
  by (rule yields_out) (use get_ndims assms in blast)

lemma yields_info:
  assumes "place v l = Some (f, p)" and "data_at v f (p @ split_path obj) = Some (nty, n, x)"
  shows "yields view v (CHECK_HDF5_OUT e (H5LTget_dataset_info api l obj))
    \<lparr>info_count = n, info_is_integer = True, info_type_size = type_size (Native_Type nty)\<rparr>"
  by (rule yields_out) (use get_dataset_info assms in blast)

lemma yields_read_dataset:
  assumes "place v l = Some (f, p)" and "data_at v f (p @ split_path obj) = Some (nty, n, x)"
    and "x = Some buf \<or> n = 0 \<and> x = None \<and> buf = empty_buffer nty"
  shows "yields view v (CHECK_HDF5_OUT e (H5LTread_dataset api l obj nty)) buf"
  by (rule yields_out) (use read_dataset read_empty_dataset assms in blast)

lemma yields_read_uchars:
  assumes "place v l = Some (f, p)" and "data_at v f (p @ split_path obj) = Some (byte_data bs)"
  shows "yields view v (read_uchars api l obj) bs"
  unfolding read_uchars_def
proof (rule yields_and_then)
  show "yields view v (CHECK_HDF5_OUT ''H5LTread_dataset'' (H5LTread_dataset api l obj NATIVE_UCHAR))
      (Uchars bs)"
    by (rule yields_read_dataset [OF assms(1) assms(2) [unfolded byte_data_def]]) auto
qed (simp add: yields_done_with)

lemma yields_asserted_info:
  assumes "place v l = Some (f, p)" and "data_at v f (p @ split_path obj) = Some (nty, n, x)"
    and "type_size (Native_Type nty) = k"
  shows "yields view v (asserted_dataset_info api l obj k) n"
  unfolding asserted_dataset_info_def
  by (rule yields_and_then [OF yields_ndims [OF assms(1,2)]],
      simp, rule yields_and_then [OF yields_info [OF assms(1,2)]],
      simp add: yields_done_with assms(3))

lemma yields_read_int64:
  assumes "place v l = Some (f, p)" and "data_at v f (p @ split_path obj) = Some (int64_data xs)"
  shows "yields view v (read_hdf5_int64_dataset api l obj) xs"
  unfolding read_hdf5_int64_dataset_def
proof (rule yields_and_then)
  show "yields view v (asserted_dataset_info api l obj 8) (length xs)"
    by (rule yields_asserted_info [OF assms(1) assms(2) [unfolded int64_data_def]]) simp
  show "yields view v (and_then
      (CHECK_HDF5_OUT ''H5LTread_dataset'' (H5LTread_dataset api l obj NATIVE_INT64))
      (\<lambda>buf. case buf of Int64s xs \<Rightarrow> done_with xs | _ \<Rightarrow> throw Abort)) xs"
  proof (rule yields_and_then)
    show "yields view v (CHECK_HDF5_OUT ''H5LTread_dataset'' (H5LTread_dataset api l obj NATIVE_INT64))
        (Int64s xs)"
      by (rule yields_read_dataset [OF assms(1) assms(2) [unfolded int64_data_def]]) auto
  qed (simp add: yields_done_with)
qed

lemma yields_check_bytes:
  assumes "place v l = Some (f, p)"
    and "data_at v f (p @ split_path (name @ ''/bytes'')) = Some (byte_data bs)"
    and "length bs = unat sz"
  shows "yields view v (check_byte_dataset api l name sz) ()"
  unfolding check_byte_dataset_def Let_def
  by (rule yields_and_then [OF yields_ndims [OF assms(1,2)]], simp,
      rule yields_and_then [OF yields_info [OF assms(1) assms(2) [unfolded byte_data_def]]],
      simp add: yields_done_with assms(3))

end

section \<open>The policy\<close>

text \<open>
  The replay policy a captured policy stands for, if the replayer's build supports it: the
  index type of that size and sign, the enabled execution space and the schedule of that
  name, the rank and the directions; every other field unchanged.
\<close>

definition right :: "exn + 'a \<Rightarrow> 'a option" where
  "right r = (case r of Inl _ \<Rightarrow> None | Inr x \<Rightarrow> Some x)"

definition expected_traits ::
  "replay_build \<Rightarrow> index_type_desc \<Rightarrow> string \<Rightarrow> string \<Rightarrow> (index_type \<times> schedule_type \<times> string) option"
where
  "expected_traits rb it space schedule =
     Option.bind (right (get_policy_index_type_from_props (it_signed it) (it_size it))) (\<lambda>t.
     Option.bind (right (get_policy_exec_space_from_name rb space)) (\<lambda>e.
     Option.bind (right (get_policy_schedule_from_name schedule)) (\<lambda>sch. Some (t, sch, e))))"

definition expected_rank :: "replay_build \<Rightarrow> u64 \<Rightarrow> nat option" where
  "expected_rank rb rank =
     (if rank = 1 \<and> rb_kokkos_5_2 rb \<or> rank \<in> {2, 3, 4, 5, 6} then Some (unat rank) else None)"

fun expected_policy :: "replay_build \<Rightarrow> policy_desc \<Rightarrow> policy_var option" where
  "expected_policy rb No_Policy = Some Replay_None"
| "expected_policy rb (Scalar_Policy n) = Some (Replay_Scalar n)"
| "expected_policy rb (Range_Policy p) =
     Option.bind (expected_traits rb (rp_index_type p) (rp_space p) (rp_schedule p)) (\<lambda>(t, sch, e).
     Some (Replay_Range \<lparr>rr_begin = rp_begin p, rr_end = rp_end p, rr_chunk_size = rp_chunk_size p,
       rr_index_type = t, rr_schedule = sch, rr_exec_space = e\<rparr>))"
| "expected_policy rb (Mdrange_Policy p) =
     Option.bind (expected_traits rb (mp_index_type p) (mp_space p) (mp_schedule p)) (\<lambda>(t, sch, e).
     Option.bind (expected_rank rb (mp_rank p)) (\<lambda>rank.
     Option.bind (right (iterate_dir_of_name (mp_outer_dir p))) (\<lambda>outer.
     Option.bind (right (iterate_dir_of_name (mp_inner_dir p))) (\<lambda>inner.
     Some (Replay_Mdrange \<lparr>rm_begin = mp_begin p, rm_end = mp_end p, rm_tile = mp_tile p,
       rm_index_type = t, rm_schedule = sch, rm_exec_space = e, rm_rank = rank,
       rm_outer_dir = outer, rm_inner_dir = inner\<rparr>)))))"
| "expected_policy rb (Team_Policy p) =
     Option.bind (expected_traits rb (tp_index_type p) (tp_space p) (tp_schedule p)) (\<lambda>(t, sch, e).
     Some (Replay_Team \<lparr>rt_team_size = tp_team_size p, rt_league_size = tp_league_size p,
       rt_vector_length = tp_vector_length p, rt_team_scratch_0 = tp_team_scratch_0 p,
       rt_team_scratch_1 = tp_team_scratch_1 p, rt_thread_scratch_0 = tp_thread_scratch_0 p,
       rt_thread_scratch_1 = tp_thread_scratch_1 p, rt_chunk_size = tp_chunk_size p,
       rt_index_type = t, rt_schedule = sch, rt_exec_space = e\<rparr>))"

lemma right_Some: "right r = Some x \<longleftrightarrow> r = Inr x"
  by (cases r) (simp_all add: right_def)

lemma index_type_size_kept:
  assumes "get_policy_index_type_from_props sg n = Inr t"
  shows "scast (int_of_size n) = n"
  using assms
  by (auto simp: get_policy_index_type_from_props_def int_of_size_def split: if_splits)

lemma expected_rank_kept:
  assumes "expected_rank rb n = Some k"
  shows "policy_rank_of rb (int_of_size n) = Inr k"
  using assms by (auto simp: expected_rank_def policy_rank_of_def int_of_size_def split: if_splits)

text \<open>The attributes and datasets of a policy group.\<close>

definition holds_policy :: "'x h5view_scheme \<Rightarrow> string \<Rightarrow> policy_desc \<Rightarrow> bool" where
  "holds_policy v f policy \<longleftrightarrow>
     (\<forall>(n, a) \<in> set (policy_attrs policy). attr_at v f [''policy''] n = Some a) \<and>
     (\<forall>(n, d) \<in> set (policy_datasets policy). data_at v f [''policy'', n] = Some d)"

lemma split_path_literals [simp]:
  "split_path ''policy'' = [''policy'']"
  "split_path ''policy/begin'' = [''policy'', ''begin'']"
  "split_path ''policy/end'' = [''policy'', ''end'']"
  "split_path ''policy/tile'' = [''policy'', ''tile'']"
  "split_path ''functor/functor'' = [''functor'', ''functor'']"
  "split_path ''functor/nvcc_inner_lambda'' = [''functor'', ''nvcc_inner_lambda'']"
  "split_path ''metadata'' = [''metadata'']"
  "split_path ''in/views'' = [''in'', ''views'']"
  "split_path ''out/views'' = [''out'', ''views'']"
  "split_path ''out'' = [''out'']"
  "split_path ''.'' = []"
  by (simp_all add: split_path_def)

context hdf5_reader
begin

lemma yields_policy_string:
  assumes "place v file = Some (f, [])" and "holds_policy v f policy"
    and "(name, string_attr chars) \<in> set (policy_attrs policy)"
  shows "yields view v (get_hdf5_string_attribute api file ''policy'' name) chars"
  by (rule yields_string [OF assms(1)]) (use assms(2,3) in \<open>auto simp: holds_policy_def\<close>)

lemma yields_policy_int:
  assumes "place v file = Some (f, [])" and "holds_policy v f policy"
    and "(name, int_attr n) \<in> set (policy_attrs policy)"
  shows "yields view v (get_hdf5_int_attribute api file ''policy'' name) n"
  by (rule yields_int [OF assms(1)]) (use assms(2,3) in \<open>auto simp: holds_policy_def\<close>)

lemma yields_policy_uint64:
  assumes "place v file = Some (f, [])" and "holds_policy v f policy"
    and "(name, uint64_attr n) \<in> set (policy_attrs policy)"
  shows "yields view v (get_hdf5_uint64_attribute api file ''policy'' name) n"
  by (rule yields_uint64 [OF assms(1)]) (use assms(2,3) in \<open>auto simp: holds_policy_def\<close>)

lemma yields_policy_data:
  assumes "place v file = Some (f, [])" and "holds_policy v f policy"
    and "(name, int64_data xs) \<in> set (policy_datasets policy)"
    and "split_path path = [''policy'', name]"
  shows "yields view v (read_hdf5_int64_dataset api file path) xs"
  by (rule yields_read_int64 [OF assms(1)]) (use assms(2-4) in \<open>auto simp: holds_policy_def\<close>)

lemma yields_returned: "r = Inr x \<Longrightarrow> yields view v (returned r) x"
  by (simp add: returned_def yields_done_with)

lemma expected_traitsD:
  assumes "expected_traits rb it space schedule = Some (t, sch, e)"
  shows "get_policy_index_type_from_props (it_signed it) (it_size it) = Inr t"
    and "get_policy_exec_space_from_name rb space = Inr e"
    and "get_policy_schedule_from_name schedule = Inr sch"
  using assms by (auto simp: expected_traits_def right_Some bind_eq_Some_conv)

text \<open>The part of the reader that the three structured policies share.\<close>

lemma yields_structured_policy:
  assumes l: "place v file = Some (f, [])" and h: "holds_policy v f policy"
    and ty: "ty \<notin> {''none'', ''scalar''}"
    and size_attr: "(''index_type_size'', int_attr (int_of_size (it_size it))) \<in> set (policy_attrs policy)"
    and sign_attr: "(''index_type_signed'', int_attr (int_of_bool (it_signed it))) \<in> set (policy_attrs policy)"
    and space: "(''space'', string_attr space) \<in> set (policy_attrs policy)"
    and schedule: "(''schedule'', string_attr schedule) \<in> set (policy_attrs policy)"
    and traits: "expected_traits rb it space schedule = Some (t, sch, e)"
    and rest: "yields view v (if ty = ''range'' then read_range_policy api file t sch e
       else if ty = ''mdrange'' then read_mdrange_policy api rb file t sch e
       else if ty = ''team'' then read_team_policy api file t sch e
       else throw (Std_Exception (''Unknown policy type '' @ quoted ty))) pv"
  shows "yields view v (read_policy_of_type api rb file ty) pv"
proof -
  note d = expected_traitsD [OF traits]
  have ne: "ty \<noteq> ''none''" "ty \<noteq> ''scalar''" using ty by auto
  have idx: "get_policy_index_type_from_props (int_of_bool (it_signed it) \<noteq> 0)
      (scast (int_of_size (it_size it))) = Inr t"
    using d(1) index_type_size_kept [OF d(1)] by (cases "it_signed it") (simp_all add: int_of_bool_def)
  show ?thesis
    unfolding read_policy_of_type_def
    by (simp only: ne if_False,
        rule yields_and_then [OF yields_policy_int [OF l h sign_attr]],
        rule yields_and_then [OF yields_policy_int [OF l h size_attr]],
        rule yields_and_then [OF yields_returned [OF idx]],
        rule yields_and_then [OF yields_policy_string [OF l h space]],
        rule yields_and_then [OF yields_returned [OF d(2)]],
        rule yields_and_then [OF yields_policy_string [OF l h schedule]],
        rule yields_and_then [OF yields_returned [OF d(3)]],
        rule rest)
qed

lemma yields_range_policy:
  assumes l: "place v file = Some (f, [])" and h: "holds_policy v f (Range_Policy p)"
  shows "yields view v (read_range_policy api file t sch e)
    (Replay_Range \<lparr>rr_begin = rp_begin p, rr_end = rp_end p, rr_chunk_size = rp_chunk_size p,
       rr_index_type = t, rr_schedule = sch, rr_exec_space = e\<rparr>)"
  unfolding read_range_policy_def
  by (rule yields_and_then [OF yields_policy_uint64 [OF l h]], simp,
      rule yields_and_then [OF yields_policy_uint64 [OF l h]], simp,
      rule yields_and_then [OF yields_policy_int [OF l h]], simp, rule yields_done_with)

lemma yields_mdrange_policy:
  assumes l: "place v file = Some (f, [])" and h: "holds_policy v f (Mdrange_Policy p)"
    and rank: "expected_rank rb (mp_rank p) = Some rank"
    and outer: "iterate_dir_of_name (mp_outer_dir p) = Inr outer"
    and inner: "iterate_dir_of_name (mp_inner_dir p) = Inr inner"
  shows "yields view v (read_mdrange_policy api rb file t sch e)
    (Replay_Mdrange \<lparr>rm_begin = mp_begin p, rm_end = mp_end p, rm_tile = mp_tile p,
       rm_index_type = t, rm_schedule = sch, rm_exec_space = e, rm_rank = rank,
       rm_outer_dir = outer, rm_inner_dir = inner\<rparr>)"
  unfolding read_mdrange_policy_def
  by (rule yields_and_then [OF yields_policy_int [OF l h, where n = "int_of_size (mp_rank p)"]], simp,
      rule yields_and_then [OF yields_returned [OF expected_rank_kept [OF rank]]],
      rule yields_and_then [OF yields_policy_string [OF l h, where chars = "mp_outer_dir p"]], simp,
      rule yields_and_then [OF yields_returned [OF outer]],
      rule yields_and_then [OF yields_policy_string [OF l h, where chars = "mp_inner_dir p"]], simp,
      rule yields_and_then [OF yields_returned [OF inner]],
      rule yields_and_then [OF yields_policy_data [OF l h, where name = "''begin''"]], simp, simp,
      rule yields_and_then [OF yields_policy_data [OF l h, where name = "''end''"]], simp, simp,
      rule yields_and_then [OF yields_policy_data [OF l h, where name = "''tile''"]], simp, simp,
      rule yields_done_with)

lemma yields_team_policy:
  assumes l: "place v file = Some (f, [])" and h: "holds_policy v f (Team_Policy p)"
  shows "yields view v (read_team_policy api file t sch e)
    (Replay_Team \<lparr>rt_team_size = tp_team_size p, rt_league_size = tp_league_size p,
       rt_vector_length = tp_vector_length p, rt_team_scratch_0 = tp_team_scratch_0 p,
       rt_team_scratch_1 = tp_team_scratch_1 p, rt_thread_scratch_0 = tp_thread_scratch_0 p,
       rt_thread_scratch_1 = tp_thread_scratch_1 p, rt_chunk_size = tp_chunk_size p,
       rt_index_type = t, rt_schedule = sch, rt_exec_space = e\<rparr>)"
  unfolding read_team_policy_def
  by ((rule yields_and_then [OF yields_policy_int [OF l h]], simp)+, rule yields_done_with)

text \<open>The type of a policy, and the rest of the reader.\<close>

fun policy_type :: "policy_desc \<Rightarrow> string" where
  "policy_type No_Policy = ''none''"
| "policy_type (Scalar_Policy n) = ''scalar''"
| "policy_type (Range_Policy p) = ''range''"
| "policy_type (Mdrange_Policy p) = ''mdrange''"
| "policy_type (Team_Policy p) = ''team''"

lemma yields_policy_type:
  assumes "place v file = Some (f, [])" and "holds_policy v f policy"
  shows "yields view v (get_hdf5_string_attribute api file ''policy'' ''type'') (policy_type policy)"
  by (rule yields_policy_string [OF assms]) (cases policy; simp)

lemma yields_policy:
  assumes l: "place v file = Some (f, [])" and h: "holds_policy v f policy"
    and expected: "expected_policy rb policy = Some pv"
  shows "yields view v (read_policy_of_type api rb file (policy_type policy)) pv"
proof (cases policy)
  case No_Policy
  then show ?thesis
    using expected by (simp add: read_policy_of_type_def yields_done_with)
next
  case (Scalar_Policy n)
  have "yields view v (and_then (get_hdf5_uint64_attribute api file ''policy'' ''end'') (\<lambda>n.
      done_with (Replay_Scalar n))) pv"
    by (rule yields_and_then [OF yields_policy_uint64 [OF l h, where n = n]])
      (use Scalar_Policy expected in \<open>simp_all add: yields_done_with\<close>)
  then show ?thesis
    using Scalar_Policy by (simp add: read_policy_of_type_def)
next
  case (Range_Policy p)
  obtain t sch e where tr: "expected_traits rb (rp_index_type p) (rp_space p) (rp_schedule p) = Some (t, sch, e)"
    and pv: "pv = Replay_Range \<lparr>rr_begin = rp_begin p, rr_end = rp_end p,
       rr_chunk_size = rp_chunk_size p, rr_index_type = t, rr_schedule = sch, rr_exec_space = e\<rparr>"
    using expected Range_Policy by (auto simp: bind_eq_Some_conv)
  show ?thesis
    unfolding Range_Policy policy_type.simps
    by (rule yields_structured_policy [OF l h _ _ _ _ _ tr])
      (use Range_Policy yields_range_policy [OF l h [unfolded Range_Policy]] in \<open>simp_all add: pv\<close>)
next
  case (Mdrange_Policy p)
  obtain t sch e rank outer inner where
    tr: "expected_traits rb (mp_index_type p) (mp_space p) (mp_schedule p) = Some (t, sch, e)"
    and rank: "expected_rank rb (mp_rank p) = Some rank"
    and dirs: "iterate_dir_of_name (mp_outer_dir p) = Inr outer"
      "iterate_dir_of_name (mp_inner_dir p) = Inr inner"
    and pv: "pv = Replay_Mdrange \<lparr>rm_begin = mp_begin p, rm_end = mp_end p, rm_tile = mp_tile p,
       rm_index_type = t, rm_schedule = sch, rm_exec_space = e, rm_rank = rank,
       rm_outer_dir = outer, rm_inner_dir = inner\<rparr>"
    using expected Mdrange_Policy by (auto simp: bind_eq_Some_conv right_Some)
  show ?thesis
    unfolding Mdrange_Policy policy_type.simps
    by (rule yields_structured_policy [OF l h _ _ _ _ _ tr])
      (use Mdrange_Policy yields_mdrange_policy [OF l h [unfolded Mdrange_Policy] rank dirs] in
        \<open>simp_all add: pv\<close>)
next
  case (Team_Policy p)
  obtain t sch e where tr: "expected_traits rb (tp_index_type p) (tp_space p) (tp_schedule p) = Some (t, sch, e)"
    and pv: "pv = Replay_Team \<lparr>rt_team_size = tp_team_size p, rt_league_size = tp_league_size p,
       rt_vector_length = tp_vector_length p, rt_team_scratch_0 = tp_team_scratch_0 p,
       rt_team_scratch_1 = tp_team_scratch_1 p, rt_thread_scratch_0 = tp_thread_scratch_0 p,
       rt_thread_scratch_1 = tp_thread_scratch_1 p, rt_chunk_size = tp_chunk_size p,
       rt_index_type = t, rt_schedule = sch, rt_exec_space = e\<rparr>"
    using expected Team_Policy by (auto simp: bind_eq_Some_conv)
  show ?thesis
    unfolding Team_Policy policy_type.simps
    by (rule yields_structured_policy [OF l h _ _ _ _ _ tr])
      (use Team_Policy yields_team_policy [OF l h [unfolded Team_Policy]] in \<open>simp_all add: pv\<close>)
qed

end

end
