(* ===== verification/Dump_Contents.thy ===== *)
theory Dump_Contents
  imports Dump_Image
begin

text \<open>
  Looking things up in the contents of a dump: which paths each part of \<open>Dump_Image\<close>
  touches, and what a file holds of the snapshot, the metadata, the policy and the functor
  after all parts have been written.
\<close>

section \<open>What an operation touches\<close>

definition same_at :: "h5file \<Rightarrow> h5file \<Rightarrow> h5path \<Rightarrow> bool" where
  "same_at F G q \<longleftrightarrow>
     fl_attrs F q = fl_attrs G q \<and> fl_datasets F q = fl_datasets G q \<and>
     (q \<in> fl_groups F \<longleftrightarrow> q \<in> fl_groups G)"

definition under :: "h5path \<Rightarrow> h5path \<Rightarrow> bool" where
  "under p q \<longleftrightarrow> take (length p) q = p"

definition only_under :: "h5path \<Rightarrow> (h5file \<Rightarrow> h5file) \<Rightarrow> bool" where
  "only_under p g \<longleftrightarrow> (\<forall>F q. \<not> under p q \<longrightarrow> same_at F (g F) q)"

lemma same_at_refl [simp]: "same_at F F q"
  by (simp add: same_at_def)

lemma same_at_trans: "same_at F G q \<Longrightarrow> same_at G H q \<Longrightarrow> same_at F H q"
  by (simp add: same_at_def)

lemma under_append [simp]: "under p (p @ r)"
  by (simp add: under_def)

lemma under_refl [simp]: "under p p"
  by (simp add: under_def)

lemma under_appendD: "under (p @ r) q \<Longrightarrow> under p q"
proof -
  assume "under (p @ r) q"
  then have "take (length p) (take (length (p @ r)) q) = take (length p) (p @ r)"
    by (simp only: under_def)
  then show "under p q" by (simp add: under_def)
qed

lemma only_underD: "only_under p g \<Longrightarrow> \<not> under p q \<Longrightarrow> same_at F (g F) q"
  by (simp add: only_under_def)

lemma only_under_mono: "only_under (p @ r) g \<Longrightarrow> only_under p g"
  unfolding only_under_def using under_appendD by blast

lemma only_under_comp:
  "only_under p g \<Longrightarrow> only_under p h \<Longrightarrow> only_under p (\<lambda>F. h (g F))"
  unfolding only_under_def using same_at_trans by blast

lemma only_under_fold:
  "(\<And>x. x \<in> set xs \<Longrightarrow> only_under p (g x)) \<Longrightarrow> only_under p (fold g xs)"
proof (induction xs)
  case (Cons x xs)
  then show ?case using only_under_comp [of p "g x" "fold g xs"] by (simp add: comp_def)
qed (simp add: only_under_def)

lemma under_ne: "\<not> under p q \<Longrightarrow> q \<noteq> p @ r"
  by auto

lemma only_under_puts:
  "only_under p (put_attr p n a)" "only_under p (put_group p)"
  "only_under p (put_group (p @ [n]))" "only_under p (put_data (p @ [n]) d)"
  by (auto simp: only_under_def same_at_def put_attr_def put_group_def put_data_def)

lemma only_under_put_attrs: "only_under p (put_attrs p as)"
  unfolding put_attrs_def by (rule only_under_fold) (auto simp: only_under_puts)

lemma only_under_put_datasets: "only_under p (put_datasets p ds)"
  unfolding put_datasets_def by (rule only_under_fold) (auto simp: only_under_puts)

lemma only_under_image_policy: "only_under p (image_policy p policy)"
  unfolding image_policy_def [abs_def]
  by (rule only_under_comp [OF only_under_put_attrs only_under_put_datasets])

lemma only_under_image_allocation: "only_under p (image_allocation b env p a)"
proof -
  have "image_allocation b env p a = (\<lambda>F. (if fst (copy_allocation_bytes b env a []) = []
      then put_data (p @ [''bytes'']) (byte_data (snd (copy_allocation_bytes b env a []))) else (\<lambda>F. F))
      (put_attrs p (allocation_attrs b env a) F))"
    by (simp add: image_allocation_def fun_eq_iff case_prod_beta)
  moreover have "only_under p (if c then put_data (p @ [n]) d else (\<lambda>F. F))" for c n d
    by (simp add: only_under_puts) (simp add: only_under_def)
  ultimately show ?thesis using only_under_comp [OF only_under_put_attrs] by simp
qed

section \<open>Steps at different paths\<close>

text \<open>
  In a sequence of steps that each stay below a path of their own, what lies below one
  path is the work of its step alone.
\<close>

lemma fold_own_step:
  assumes steps: "\<And>y. y \<in> set xs \<Longrightarrow> only_under (P y) (g y)"
    and len: "\<And>y. y \<in> set xs \<Longrightarrow> length (P y) = n"
    and inj: "\<And>y z. y \<in> set xs \<Longrightarrow> z \<in> set xs \<Longrightarrow> P y = P z \<Longrightarrow> y = z"
    and dist: "distinct xs" and x: "x \<in> set xs"
  obtains G where "\<And>q. under (P x) q \<Longrightarrow> same_at F G q"
    and "\<And>q. under (P x) q \<Longrightarrow> same_at (g x G) (fold g xs F) q"
proof -
  obtain ys zs where xs: "xs = ys @ x # zs" using x by (auto simp: in_set_conv_decomp)
  have other: "\<not> under (P y) q" if "y \<in> set xs" "y \<noteq> x" "under (P x) q" for y q
    using that inj [OF that(1) x] len [OF that(1)] len [OF x] by (auto simp: under_def)
  have skip: "same_at H (fold g us H) q"
    if "set us \<subseteq> set xs" "x \<notin> set us" "under (P x) q" for us H q
    using that
  proof (induction us arbitrary: H)
    case (Cons u us)
    have "same_at H (g u H) q"
      by (rule only_underD [OF steps other]) (use Cons.prems in auto)
    moreover have "same_at (g u H) (fold g us (g u H)) q" using Cons by simp
    ultimately have "same_at H (fold g us (g u H)) q" by (rule same_at_trans)
    then show ?case by simp
  qed simp
  have x': "x \<notin> set ys" "x \<notin> set zs" using dist by (auto simp: xs)
  show thesis
  proof (rule that [of "fold g ys F"])
    show "\<And>q. under (P x) q \<Longrightarrow> same_at F (fold g ys F) q"
      by (rule skip) (use x' in \<open>auto simp: xs\<close>)
    show "\<And>q. under (P x) q \<Longrightarrow> same_at (g x (fold g ys F)) (fold g xs F) q"
    proof -
      fix q assume "under (P x) q"
      moreover have "set zs \<subseteq> set xs" by (auto simp: xs)
      ultimately show "same_at (g x (fold g ys F)) (fold g xs F) q"
        using skip [of zs q "g x (fold g ys F)"] x' by (simp add: xs)
    qed
  qed
qed

section \<open>Attributes by name\<close>

lemma put_attrs_fields [simp]:
  "fl_attrs (put_attrs p as F) q =
     (if q = p then fl_attrs F p ++ map_of (rev as) else fl_attrs F q)"
  "fl_groups (put_attrs p as F) = fl_groups F"
  "fl_datasets (put_attrs p as F) = fl_datasets F"
proof -
  show "fl_attrs (put_attrs p as F) q =
      (if q = p then fl_attrs F p ++ map_of (rev as) else fl_attrs F q)"
    by (induction as arbitrary: F) (auto simp: put_attr_def map_add_def fun_eq_iff split: option.splits)
  show "fl_groups (put_attrs p as F) = fl_groups F"
    by (induction as arbitrary: F) (auto simp: put_attr_def)
  show "fl_datasets (put_attrs p as F) = fl_datasets F"
    by (induction as arbitrary: F) (auto simp: put_attr_def)
qed

lemma put_datasets_fields [simp]:
  "fl_attrs (put_datasets p ds F) = fl_attrs F"
  "fl_groups (put_datasets p ds F) = fl_groups F"
  by (induction ds arbitrary: F) (auto simp: put_data_def)

lemma put_datasets_lookup:
  "distinct (List.map fst ds) \<Longrightarrow> (n, d) \<in> set ds \<Longrightarrow> fl_datasets (put_datasets p ds F) (p @ [n]) = Some d"
  "n \<notin> fst ` set ds \<Longrightarrow> fl_datasets (put_datasets p ds F) (p @ [n]) = fl_datasets F (p @ [n])"
proof -
  have other: "n \<notin> fst ` set ds \<Longrightarrow>
      fl_datasets (put_datasets p ds F) (p @ [n]) = fl_datasets F (p @ [n])" for n F and ds :: "(string \<times> h5data) list"
    by (induction ds arbitrary: F) (auto simp: put_data_def)
  then show "n \<notin> fst ` set ds \<Longrightarrow> fl_datasets (put_datasets p ds F) (p @ [n]) = fl_datasets F (p @ [n])" .
  show "distinct (List.map fst ds) \<Longrightarrow> (n, d) \<in> set ds \<Longrightarrow>
      fl_datasets (put_datasets p ds F) (p @ [n]) = Some d"
  proof (induction ds arbitrary: F)
    case (Cons e ds)
    then show ?case using other [of n ds] by (cases e) (auto simp: put_data_def)
  qed simp
qed

lemma attr_listed:
  "distinct (List.map fst as) \<Longrightarrow> (n, a) \<in> set as \<Longrightarrow> (m ++ map_of (rev as)) n = Some a"
  by (simp add: map_add_Some_iff map_of_eq_Some_iff rev_map [symmetric])

section \<open>The snapshot\<close>

text \<open>What a file holds of an allocation at a path, and of a snapshot.\<close>

definition stored_allocation ::
  "capture_build \<Rightarrow> capture_env \<Rightarrow> h5file \<Rightarrow> h5path \<Rightarrow> active_allocation \<Rightarrow> bool" where
  "stored_allocation b env F q a \<longleftrightarrow>
     (\<forall>(n, v) \<in> set (allocation_attrs b env a). fl_attrs F q n = Some v) \<and>
     (case copy_allocation_bytes b env a [] of (reason, bytes) \<Rightarrow>
        reason = [] \<longrightarrow> fl_datasets F (q @ [''bytes'']) = Some (byte_data bytes))"

definition named_allocations :: "allocation_snapshot \<Rightarrow> (string \<times> active_allocation) list" where
  "named_allocations s =
     List.map (\<lambda>(i, a). (allocation_group_name a i, a)) (List.enumerate 0 (sn_allocations s))"

definition holds_snapshot ::
  "capture_build \<Rightarrow> capture_env \<Rightarrow> h5file \<Rightarrow> h5path \<Rightarrow> allocation_snapshot \<Rightarrow> bool" where
  "holds_snapshot b env F p s \<longleftrightarrow>
     p \<in> fl_groups F \<and> p @ [''views''] \<in> fl_groups F \<and>
     children F (p @ [''views'']) = fst ` set (named_allocations s) \<and>
     (\<forall>(n, a) \<in> set (named_allocations s). stored_allocation b env F (p @ [''views'', n]) a)"

definition empty_under :: "h5file \<Rightarrow> h5path \<Rightarrow> bool" where
  "empty_under F p \<longleftrightarrow> (\<forall>q. under p q \<longrightarrow> q \<notin> fl_groups F \<and> fl_datasets F q = None)"

lemma stored_allocation_cong:
  assumes "\<And>r. under q r \<Longrightarrow> same_at F G r"
  shows "stored_allocation b env F q a = stored_allocation b env G q a"
  using assms [of q] assms [of "q @ [''bytes'']"]
  by (simp add: stored_allocation_def same_at_def)

lemma children_cong:
  assumes "\<And>r. under p r \<Longrightarrow> same_at F G r"
  shows "children F p = children G p"
  using assms [of "p @ [n]" for n] by (auto simp: children_def same_at_def dom_def)

lemma holds_snapshot_cong:
  assumes "\<And>r. under p r \<Longrightarrow> same_at F G r"
  shows "holds_snapshot b env F p s = holds_snapshot b env G p s"
proof -
  have v: "\<And>r. under (p @ [''views'']) r \<Longrightarrow> same_at F G r"
    using assms under_appendD by blast
  have n: "stored_allocation b env F (p @ [''views'', n]) a =
      stored_allocation b env G (p @ [''views'', n]) a" for n a
    by (rule stored_allocation_cong) (use assms under_appendD in blast)
  show ?thesis
    using children_cong [OF v] assms [of p] assms [of "p @ [''views'']"]
    by (simp add: holds_snapshot_def n same_at_def)
qed

lemma allocation_attrs_distinct: "distinct (List.map fst (allocation_attrs b env a))"
  by (simp add: allocation_attrs_def Let_def)

lemma stored_image_allocation: "stored_allocation b env (image_allocation b env q a F) q a"
proof -
  obtain reason bytes where c: "copy_allocation_bytes b env a [] = (reason, bytes)" by fastforce
  have *: "fl_attrs (image_allocation b env q a F) q =
      fl_attrs F q ++ map_of (rev (allocation_attrs b env a))"
    by (simp add: image_allocation_def c put_data_def Let_def)
  have "fl_attrs (image_allocation b env q a F) q n = Some v"
    if "(n, v) \<in> set (allocation_attrs b env a)" for n v
    unfolding * using allocation_attrs_distinct that by (rule attr_listed)
  moreover have "reason = [] \<Longrightarrow> fl_datasets (image_allocation b env q a F) (q @ [''bytes'']) =
      Some (byte_data bytes)"
    by (simp add: image_allocation_def c put_data_def Let_def)
  ultimately show ?thesis by (auto simp: stored_allocation_def c)
qed

lemma image_allocation_paths:
  "fl_groups (image_allocation b env q a F) = fl_groups F"
  "dom (fl_datasets (image_allocation b env q a F)) \<subseteq> insert (q @ [''bytes'']) (dom (fl_datasets F))"
  by (auto simp: image_allocation_def put_data_def Let_def split: prod.splits if_splits)

lemma put_group_fields [simp]:
  "fl_groups (put_group p F) = insert p (fl_groups F)"
  "fl_attrs (put_group p F) = fl_attrs F" "fl_datasets (put_group p F) = fl_datasets F"
  by (simp_all add: put_group_def)

definition image_allocations ::
  "capture_build \<Rightarrow> capture_env \<Rightarrow> h5path \<Rightarrow> (string \<times> active_allocation) list \<Rightarrow> h5file \<Rightarrow> h5file"
where
  "image_allocations b env p xs =
     fold (\<lambda>(n, a) F. image_allocation b env (p @ [n]) a (put_group (p @ [n]) F)) xs"

lemma image_allocations_groups:
  "fl_groups (image_allocations b env p xs F) = fl_groups F \<union> (\<lambda>n. p @ [n]) ` fst ` set xs"
  unfolding image_allocations_def
  by (induction xs arbitrary: F) (auto simp: image_allocation_paths)

lemma image_allocations_datasets:
  "dom (fl_datasets (image_allocations b env p xs F))
     \<subseteq> dom (fl_datasets F) \<union> (\<lambda>n. p @ [n, ''bytes'']) ` fst ` set xs"
  unfolding image_allocations_def
proof (induction xs arbitrary: F)
  case (Cons x xs)
  obtain n a where x: "x = (n, a)" by fastforce
  have "dom (fl_datasets (image_allocation b env (p @ [n]) a (put_group (p @ [n]) F)))
      \<subseteq> insert (p @ [n, ''bytes'']) (dom (fl_datasets F))"
    using image_allocation_paths(2) [of b env "p @ [n]" a "put_group (p @ [n]) F"] by simp
  with Cons.IH [of "image_allocation b env (p @ [n]) a (put_group (p @ [n]) F)"]
  show ?case
    unfolding x fold.simps comp_def prod.case List.set_simps image_insert fst_conv by blast
qed simp

lemma named_distinct:
  "distinct (List.map fst (named_allocations s))"
proof -
  have "inj_on (\<lambda>(i, a). allocation_group_name a i) (set (List.enumerate 0 (sn_allocations s)))"
  proof (rule inj_onI)
    fix x y
    assume "x \<in> set (List.enumerate 0 (sn_allocations s))" "y \<in> set (List.enumerate 0 (sn_allocations s))"
      and "(\<lambda>(i, a). allocation_group_name a i) x = (\<lambda>(i, a). allocation_group_name a i) y"
    moreover from this have "fst x = fst y"
      by (auto simp: case_prod_beta dest: allocation_group_name_inj)
    ultimately show "x = y" by (auto simp: in_set_enumerate_eq prod_eq_iff)
  qed
  then show ?thesis
    by (simp add: named_allocations_def comp_def case_prod_beta' distinct_map)
qed

lemma image_snapshot_named:
  "image_snapshot b env p s F =
     image_allocations b env (p @ [''views'']) (named_allocations s)
       (put_group (p @ [''views''])
         (put_attrs p [(''active_allocations'', uint64_attr (of_nat (length (sn_allocations s)))),
                       (''active_bytes'', uint64_attr (sn_active_bytes s))]
           (put_group p F)))"
  by (simp add: image_snapshot_def image_allocations_def named_allocations_def fold_map comp_def
    case_prod_beta' Let_def del: put_attrs_simps)

lemma only_under_step:
  "only_under (p @ [n]) (\<lambda>F. image_allocation b env (p @ [n]) a (put_group (p @ [n]) F))"
  by (rule only_under_comp [OF only_under_puts(2) only_under_image_allocation])

lemma only_under_image_allocations: "only_under p (image_allocations b env p xs)"
  unfolding image_allocations_def
  by (rule only_under_fold) (auto intro: only_under_mono [OF only_under_step])

lemma only_under_image_snapshot: "only_under p (image_snapshot b env p s)"
  unfolding image_snapshot_named [abs_def]
  using only_under_comp [OF only_under_comp [OF only_under_comp [OF only_under_puts(2)
    only_under_put_attrs] only_under_puts(3)] only_under_mono [OF only_under_image_allocations]]
  by blast

lemma image_allocations_stored:
  assumes dist: "distinct (List.map fst xs)" and x: "(n, a) \<in> set xs"
  shows "stored_allocation b env (image_allocations b env p xs F) (p @ [n]) a"
proof -
  let ?g = "\<lambda>(n, a) F. image_allocation b env (p @ [n]) a (put_group (p @ [n]) F)"
  have inj: "y = z" if "y \<in> set xs" "z \<in> set xs" "p @ [fst y] = p @ [fst z]" for y z
    using dist that by (auto simp: distinct_map inj_on_def)
  have own: "only_under (p @ [fst y]) (?g y)" for y
    using only_under_step by (simp add: case_prod_beta)
  obtain G where "\<And>q. under (p @ [fst (n, a)]) q \<Longrightarrow> same_at (?g (n, a) G) (fold ?g xs F) q"
    using dist by (rule_tac fold_own_step [where g = ?g and P = "\<lambda>y. p @ [fst y]" and xs = xs
      and n = "length p + 1" and x = "(n, a)" and F = F, OF own _ inj _ x]) (auto simp: distinct_map)
  then have "stored_allocation b env (?g (n, a) G) (p @ [n]) a =
      stored_allocation b env (fold ?g xs F) (p @ [n]) a"
    by (intro stored_allocation_cong) simp
  then show ?thesis using stored_image_allocation by (simp add: image_allocations_def)
qed

lemma image_snapshot_holds:
  assumes "empty_under F p"
  shows "holds_snapshot b env (image_snapshot b env p s F) p s"
proof -
  let ?V = "p @ [''views'']" and ?xs = "named_allocations s"
  let ?A = "put_attrs p [(''active_allocations'', uint64_attr (of_nat (length (sn_allocations s)))),
      (''active_bytes'', uint64_attr (sn_active_bytes s))] (put_group p F)"
  define H where "H = put_group ?V ?A"
  have img: "image_snapshot b env p s F = image_allocations b env ?V ?xs H"
    unfolding H_def by (rule image_snapshot_named)
  have groups: "fl_groups H = insert ?V (insert p (fl_groups F))" and data: "fl_datasets H = fl_datasets F"
    by (simp_all add: H_def del: put_attrs_simps)
  have free: "?V @ [n] \<notin> fl_groups F" "fl_datasets F (?V @ [n]) = None" for n
    using assms by (simp_all add: empty_under_def under_def)
  have kids: "children (image_allocations b env ?V ?xs H) ?V = fst ` set ?xs"
  proof -
    have "?V @ [n] \<in> fl_groups (image_allocations b env ?V ?xs H) \<longleftrightarrow> n \<in> fst ` set ?xs" for n
      using free(1) [of n] by (auto simp: image_allocations_groups groups)
    moreover have "?V @ [n] \<notin> dom (fl_datasets (image_allocations b env ?V ?xs H))" for n
      using free(2) [of n] image_allocations_datasets [of b env ?V ?xs H] by (auto simp: data)
    ultimately show ?thesis by (auto simp: children_def)
  qed
  have "stored_allocation b env (image_allocations b env ?V ?xs H) (?V @ [n]) a"
    if "(n, a) \<in> set ?xs" for n a
    using named_distinct that by (rule image_allocations_stored)
  then show ?thesis
    unfolding holds_snapshot_def img
    using kids by (auto simp: image_allocations_groups groups)
qed

section \<open>The whole dump\<close>

definition stored_policy :: "h5file \<Rightarrow> policy_desc \<Rightarrow> bool" where
  "stored_policy F policy \<longleftrightarrow>
     (\<forall>(n, a) \<in> set (policy_attrs policy). fl_attrs F [''policy''] n = Some a) \<and>
     (\<forall>(n, d) \<in> set (policy_datasets policy). fl_datasets F [''policy'', n] = Some d)"

definition stored_functor :: "h5file \<Rightarrow> byte list \<Rightarrow> byte list \<Rightarrow> bool" where
  "stored_functor F functor_data nvcc_data \<longleftrightarrow>
     fl_datasets F [''functor'', ''functor''] = Some (byte_data functor_data) \<and>
     fl_datasets F [''functor'', ''nvcc_inner_lambda''] = Some (byte_data nvcc_data)"

definition stored_metadata :: "h5file \<Rightarrow> (string \<times> string) list \<Rightarrow> bool" where
  "stored_metadata F metadata \<longleftrightarrow>
     [''metadata''] \<in> fl_groups F \<and>
     fl_attrs F [''metadata''] = map_of (rev (List.map (\<lambda>(k, v). (k, string_attr v)) metadata))"

definition stored_kernel :: "h5file \<Rightarrow> string \<Rightarrow> u64 \<Rightarrow> u64 \<Rightarrow> bool" where
  "stored_kernel F label kernel_id kernel_invocation \<longleftrightarrow>
     fl_attrs F [] ''kernel_label'' = Some (string_attr label) \<and>
     fl_attrs F [] ''kernel_id'' = Some (uint64_attr kernel_id) \<and>
     fl_attrs F [] ''kernel_invocation'' = Some (uint64_attr kernel_invocation)"

definition holds_dump ::
  "capture_build \<Rightarrow> capture_env \<Rightarrow> h5file \<Rightarrow> allocation_snapshot \<Rightarrow> byte list \<Rightarrow> byte list \<Rightarrow>
   (string \<times> string) list \<Rightarrow> policy_desc \<Rightarrow> string \<Rightarrow> u64 \<Rightarrow> u64 \<Rightarrow> bool"
where
  "holds_dump b env F s functor_data nvcc_data metadata policy label kernel_id kernel_invocation \<longleftrightarrow>
     holds_snapshot b env F [''in''] s \<and> stored_metadata F metadata \<and> stored_policy F policy \<and>
     stored_functor F functor_data nvcc_data \<and> stored_kernel F label kernel_id kernel_invocation"

lemma under_single: "under [n] q \<longleftrightarrow> q \<noteq> [] \<and> hd q = n"
  by (cases q) (simp_all add: under_def)

lemma same_at_sym: "same_at F G q \<Longrightarrow> same_at G F q"
  by (simp add: same_at_def)

lemma same_under_sibling:
  assumes "only_under [m] g" and "m \<noteq> n" and "under [n] q"
  shows "same_at (g F) F q"
  using only_underD [OF assms(1), of q F] assms(2,3) by (simp add: under_single same_at_sym)

lemma same_at_root: "only_under [m] g \<Longrightarrow> same_at (g F) F []"
  using only_underD [of "[m]" g "[]" F] by (simp add: under_single same_at_sym)

text \<open>A part of the dump outlives a step that stays below another name.\<close>

lemma parts_outlive:
  assumes "only_under [m] g"
  shows "m \<noteq> n \<Longrightarrow> holds_snapshot b env (g F) [n] s = holds_snapshot b env F [n] s"
    and "m \<noteq> ''metadata'' \<Longrightarrow> stored_metadata (g F) metadata = stored_metadata F metadata"
    and "m \<noteq> ''policy'' \<Longrightarrow> stored_policy (g F) policy = stored_policy F policy"
    and "m \<noteq> ''functor'' \<Longrightarrow> stored_functor (g F) fd nd = stored_functor F fd nd"
    and "stored_kernel (g F) label kid num = stored_kernel F label kid num"
    and "m \<noteq> n \<Longrightarrow> empty_under (g F) [n] = empty_under F [n]"
proof -
  note same = same_under_sibling [OF assms]
  have at: "same_at (g F) F (n # r)" if "m \<noteq> n" for n r
    using same [OF that, of "n # r"] by (simp add: under_def)
  show "m \<noteq> n \<Longrightarrow> holds_snapshot b env (g F) [n] s = holds_snapshot b env F [n] s"
    by (rule holds_snapshot_cong) (rule same)
  show "m \<noteq> ''metadata'' \<Longrightarrow> stored_metadata (g F) metadata = stored_metadata F metadata"
    using at [of "''metadata''" "[]"] by (simp add: stored_metadata_def same_at_def)
  show "m \<noteq> ''policy'' \<Longrightarrow> stored_policy (g F) policy = stored_policy F policy"
    using at [of "''policy''"] by (simp add: stored_policy_def same_at_def)
  show "m \<noteq> ''functor'' \<Longrightarrow> stored_functor (g F) fd nd = stored_functor F fd nd"
    using at [of "''functor''"] by (simp add: stored_functor_def same_at_def)
  show "stored_kernel (g F) label kid num = stored_kernel F label kid num"
    using same_at_root [OF assms] by (simp add: stored_kernel_def same_at_def)
  show "m \<noteq> n \<Longrightarrow> empty_under (g F) [n] = empty_under F [n]"
    using same unfolding empty_under_def same_at_def by metis
qed

lemma policy_entries_distinct:
  "distinct (List.map fst (policy_attrs policy))" "distinct (List.map fst (policy_datasets policy))"
  by (cases policy; simp)+

lemma stored_image_policy: "stored_policy (image_policy [''policy''] policy F) policy"
proof -
  let ?G = "put_attrs [''policy''] (policy_attrs policy) F"
  have a: "fl_attrs (image_policy [''policy''] policy F) [''policy''] =
      fl_attrs F [''policy''] ++ map_of (rev (policy_attrs policy))"
    by (simp add: image_policy_def)
  have d: "fl_datasets (image_policy [''policy''] policy F) [''policy'', n] = Some d"
    if "(n, d) \<in> set (policy_datasets policy)" for n d
    using put_datasets_lookup(1) [OF policy_entries_distinct(2) that, of "[''policy'']" ?G]
    by (simp add: image_policy_def)
  show ?thesis
    unfolding stored_policy_def a using attr_listed [OF policy_entries_distinct(1)] d by blast
qed

text \<open>The steps that follow the attributes of the file, each below a name of its own.\<close>

definition dump_metadata :: "(string \<times> string) list \<Rightarrow> h5file \<Rightarrow> h5file" where
  "dump_metadata metadata F =
     put_attrs [''metadata''] (List.map (\<lambda>(k, v). (k, string_attr v)) metadata) (put_group [''metadata''] F)"

definition dump_policy :: "policy_desc \<Rightarrow> h5file \<Rightarrow> h5file" where
  "dump_policy policy F = image_policy [''policy''] policy (put_group [''policy''] F)"

definition dump_functor :: "byte list \<Rightarrow> byte list \<Rightarrow> h5file \<Rightarrow> h5file" where
  "dump_functor fd nd F =
     put_datasets [''functor''] [(''functor'', byte_data fd), (''nvcc_inner_lambda'', byte_data nd)]
       (put_group [''functor''] F)"

definition dump_kernel :: "string \<Rightarrow> u64 \<Rightarrow> u64 \<Rightarrow> h5file \<Rightarrow> h5file" where
  "dump_kernel label kid num F =
     put_attrs [] [(''kernel_label'', string_attr label), (''kernel_id'', uint64_attr kid),
       (''kernel_invocation'', uint64_attr num)] F"

lemma dump_parts_under:
  "only_under [''metadata''] (dump_metadata metadata)" "only_under [''policy''] (dump_policy policy)"
  "only_under [''functor''] (dump_functor fd nd)" "only_under [n] (image_snapshot b env [n] s)"
  unfolding dump_metadata_def [abs_def] dump_policy_def [abs_def] dump_functor_def [abs_def]
  by (rule only_under_comp [OF only_under_puts(2) only_under_put_attrs]
      only_under_comp [OF only_under_puts(2) only_under_image_policy]
      only_under_comp [OF only_under_puts(2) only_under_put_datasets] only_under_image_snapshot)+

lemma image_dump_parts:
  "image_dump b env s fd nd metadata policy label kid num F =
     dump_functor fd nd (dump_policy policy (dump_metadata metadata
       (image_snapshot b env [''in''] s (dump_kernel label kid num F))))"
  by (simp add: image_dump_def dump_metadata_def dump_policy_def dump_functor_def dump_kernel_def
    del: put_attrs_simps put_datasets_simps)

lemma dump_parts_stored:
  "stored_policy (dump_policy policy F) policy"
  "stored_functor (dump_functor fd nd F) fd nd"
  "stored_kernel (dump_kernel label kid num F) label kid num"
  "fl_attrs F [''metadata''] = Map.empty \<Longrightarrow> stored_metadata (dump_metadata metadata F) metadata"
  by (simp_all add: dump_policy_def stored_image_policy dump_functor_def stored_functor_def
    put_data_def dump_kernel_def stored_kernel_def put_attr_def dump_metadata_def stored_metadata_def)

lemma image_dump_holds:
  "holds_dump b env (image_dump b env s fd nd metadata policy label kid num empty_file)
     s fd nd metadata policy label kid num"
  "empty_under (image_dump b env s fd nd metadata policy label kid num empty_file) [''out'']"
proof -
  let ?K = "dump_kernel label kid num empty_file"
  have start: "empty_under ?K [n]" for n
    by (simp add: dump_kernel_def empty_under_def under_single empty_file_def put_attr_def)
  have no_attrs: "fl_attrs (image_snapshot b env [''in''] s ?K) [''metadata''] = Map.empty"
    using same_under_sibling [OF dump_parts_under(4) [of "''in''" b env s], of "''metadata''" "[''metadata'']" ?K]
    by (simp add: same_at_def under_def dump_kernel_def put_attr_def empty_file_def)
  note outlive = parts_outlive [OF dump_parts_under(1)] parts_outlive [OF dump_parts_under(2)]
    parts_outlive [OF dump_parts_under(3)] parts_outlive [OF dump_parts_under(4)]
  show "holds_dump b env (image_dump b env s fd nd metadata policy label kid num empty_file)
     s fd nd metadata policy label kid num"
    unfolding image_dump_parts holds_dump_def
    by (simp add: outlive dump_parts_stored no_attrs image_snapshot_holds start)
  show "empty_under (image_dump b env s fd nd metadata policy label kid num empty_file) [''out'']"
    unfolding image_dump_parts by (simp add: outlive start)
qed

lemma output_added:
  assumes "holds_dump b env F s fd nd metadata policy label kid num" and "empty_under F [''out'']"
  shows "holds_dump b env (image_snapshot b' env' [''out''] s' F) s fd nd metadata policy label kid num"
    and "holds_snapshot b' env' (image_snapshot b' env' [''out''] s' F) [''out''] s'"
  using assms image_snapshot_holds [OF assms(2)]
  by (simp_all add: holds_dump_def parts_outlive [OF dump_parts_under(4)])

end
