(* ===== verification/Allocation_Roundtrip.thy ===== *)
theory Allocation_Roundtrip
  imports Dump_Roundtrip Dump_Contents
begin

text \<open>
  What the replayer reads of the allocations, the functor and the metadata of a file that
  holds a captured dump (\<open>holds_dump\<close> of \<open>Dump_Contents\<close>).
\<close>

section \<open>A captured allocation\<close>

definition captured_entry :: "capture_build \<Rightarrow> capture_env \<Rightarrow> active_allocation \<Rightarrow> snapshot_allocation" where
  "captured_entry b env a =
     \<lparr>sa_label = ar_label (aa_record a), sa_space = ar_space (aa_record a),
      sa_allocation_id = aa_ptr a, sa_address = ar_p_data (aa_record a),
      sa_size = ar_size (aa_record a),
      sa_bytes_dumped = (fst (copy_allocation_bytes b env a []) = [])\<rparr>"

text \<open>The bytes that were dumped: as many as the recorded size says.\<close>

definition fully_dumped :: "capture_build \<Rightarrow> capture_env \<Rightarrow> active_allocation \<Rightarrow> byte list \<Rightarrow> bool" where
  "fully_dumped b env a bytes \<longleftrightarrow>
     dumpable b env (aa_record a) = Some bytes \<and> length bytes = unat (ar_size (aa_record a))"

lemma fully_dumped_copy:
  "fully_dumped b env a bytes \<Longrightarrow> copy_allocation_bytes b env a [] = ([], bytes)"
  by (simp add: fully_dumped_def copy_allocation_bytes_dumpable)

lemma fully_dumped_entry:
  "fully_dumped b env a bytes \<Longrightarrow> sa_bytes_dumped (captured_entry b env a)"
  by (simp add: captured_entry_def fully_dumped_copy)

lemma plain_group_name:
  "CHR ''/'' \<notin> set (allocation_group_name a i)" "allocation_group_name a i \<noteq> []"
  "allocation_group_name a i \<noteq> ''.''"
proof -
  have "\<forall>c \<in> set (to_string i). c \<noteq> CHR ''/''"
    and "\<forall>c \<in> set (sanitize_name (ar_label (aa_record a))). c \<noteq> CHR ''/''"
    using safe_to_string sanitize_name_safe is_alnum_not_slash by blast+
  then show "CHR ''/'' \<notin> set (allocation_group_name a i)"
    by (auto simp: allocation_group_name_def)
  show "allocation_group_name a i \<noteq> []" "allocation_group_name a i \<noteq> ''.''"
    by (simp_all add: allocation_group_name_def)
qed

lemma named_allocation_plain:
  assumes "(n, a) \<in> set (named_allocations s)"
  shows "split_path n = [n]" and "split_path (n @ ''/bytes'') = [n, ''bytes'']"
proof -
  obtain i where "n = allocation_group_name a i" using assms by (auto simp: named_allocations_def)
  then show "split_path n = [n]" and "split_path (n @ ''/bytes'') = [n, ''bytes'']"
    using plain_group_name split_path_plain by (simp_all add: split_path_plain split_path_def)
qed

context hdf5_reader
begin

lemma yields_pointer:
  assumes "place v l = Some (f, p)"
    and "attr_at v f (p @ split_path obj) name = Some (string_attr (pointer_to_string a))"
  shows "yields view v (pointer_attribute api l obj name) a"
  unfolding pointer_attribute_def
  by (rule yields_and_then [OF yields_string [OF assms]]) (simp add: text_simps yields_done_with)

lemma yields_allocation_info:
  assumes l: "place v grp = Some (f, p)" and F: "h5_disk v f = Some F"
    and st: "stored_allocation b env F (p @ [n]) a" and n: "split_path n = [n]"
  shows "yields view v (read_allocation_info api grp n) (captured_entry b env a)"
proof -
  have at: "attr_at v f (p @ split_path n) name = Some x"
    if "(name, x) \<in> set (allocation_attrs b env a)" for name x
    using st that by (auto simp: attr_at_def F n stored_allocation_def)
  have dumped: "(int_of_bool (fst (copy_allocation_bytes b env a []) = []) \<noteq> 0) =
      (fst (copy_allocation_bytes b env a []) = [])"
    by (simp add: int_of_bool_def)
  let ?r = "aa_record a"
  have attrs:
    "attr_at v f (p @ split_path n) ''size'' = Some (uint64_attr (ar_size ?r))"
    "attr_at v f (p @ split_path n) ''label'' = Some (string_attr (ar_label ?r))"
    "attr_at v f (p @ split_path n) ''space'' = Some (string_attr (ar_space ?r))"
    "attr_at v f (p @ split_path n) ''ptr'' = Some (string_attr (pointer_to_string (aa_ptr a)))"
    "attr_at v f (p @ split_path n) ''p_data'' = Some (string_attr (pointer_to_string (ar_p_data ?r)))"
    "attr_at v f (p @ split_path n) ''bytes_dumped'' =
       Some (int_attr (int_of_bool (fst (copy_allocation_bytes b env a []) = [])))"
    by (rule at; simp add: allocation_attrs_def Let_def)+
  show ?thesis
    unfolding read_allocation_info_def
    by (rule yields_and_then [OF yields_uint64 [OF l attrs(1)]],
        rule yields_and_then [OF yields_string [OF l attrs(2)]],
        rule yields_and_then [OF yields_string [OF l attrs(3)]],
        rule yields_and_then [OF yields_pointer [OF l attrs(4)]],
        rule yields_and_then [OF yields_pointer [OF l attrs(5)]],
        rule yields_and_then [OF yields_int [OF l attrs(6)]],
        simp add: captured_entry_def dumped yields_done_with)
qed

lemma yields_check_bytes_stored:
  assumes l: "place v grp = Some (f, p)" and F: "h5_disk v f = Some F"
    and st: "stored_allocation b env F (p @ [n]) a" and d: "fully_dumped b env a bytes"
    and n: "split_path (n @ ''/bytes'') = [n, ''bytes'']"
  shows "yields view v (check_byte_dataset api grp n (ar_size (aa_record a))) ()"
    and "yields view v (read_uchars api grp (n @ ''/bytes'')) bytes"
proof -
  have data: "data_at v f (p @ split_path (n @ ''/bytes'')) = Some (byte_data bytes)"
    using st fully_dumped_copy [OF d] by (simp add: data_at_def F stored_allocation_def n)
  show "yields view v (check_byte_dataset api grp n (ar_size (aa_record a))) ()"
    by (rule yields_check_bytes [OF l data]) (use d in \<open>simp add: fully_dumped_def\<close>)
  show "yields view v (read_uchars api grp (n @ ''/bytes'')) bytes"
    by (rule yields_read_uchars [OF l data])
qed

end

end
