(* ===== verification/Cli.thy ===== *)
theory Cli
  imports Prelude "HOL-Library.Multiset"
begin

text \<open>
  The command line of the replayer (\<open>remove_cli_args\<close>, \<open>find_cli_option\<close> and
  \<open>find_cli_flag\<close> of \<open>src/krepe/replay/kernel_replayer.cpp\<close>): an option is looked up
  and removed from \<open>argv\<close> in place.
\<close>

section \<open>The code\<close>

text \<open>\<open>argv\<close> is the whole array; its first \<open>argc\<close> elements are the arguments.\<close>

definition swap_args :: "nat \<Rightarrow> nat \<Rightarrow> string list \<Rightarrow> string list" where
  "swap_args n i argv = argv[i := argv ! (i + n), i + n := argv ! i]"

definition remove_cli_args :: "nat \<Rightarrow> string list \<Rightarrow> nat \<Rightarrow> nat \<Rightarrow> nat \<times> string list" where
  "remove_cli_args argc argv pos n =
     (argc - n, if pos + n < argc then fold (swap_args n) [pos..<argc - n] argv else argv)"

text \<open>
  The loop of \<open>find_cli_option\<close> over the indices that are left.  A null \<open>std::string_view\<close>
  is \<open>None\<close>.
\<close>

fun find_option_at :: "nat \<Rightarrow> string list \<Rightarrow> string \<Rightarrow> nat list \<Rightarrow> string option \<times> nat \<times> string list"
where
  "find_option_at argc argv flag [] = (None, argc, argv)"
| "find_option_at argc argv flag (i # is) =
     (let current_arg = argv ! i in
      if length current_arg > length flag \<and> take (length flag) current_arg = flag
         \<and> current_arg ! length flag = CHR ''=''
      then (Some (tl (dropWhile (\<lambda>c. c \<noteq> CHR ''='') current_arg)), remove_cli_args argc argv i 1)
      else if current_arg = flag
      then (if i + 1 = argc then (None, argc, argv)
            else (Some (argv ! (i + 1)), remove_cli_args argc argv i 2))
      else find_option_at argc argv flag is)"

definition find_cli_option :: "nat \<Rightarrow> string list \<Rightarrow> string \<Rightarrow> string option \<times> nat \<times> string list" where
  "find_cli_option argc argv flag = find_option_at argc argv flag [1..<argc]"

fun find_flag_at :: "nat \<Rightarrow> string list \<Rightarrow> string \<Rightarrow> nat list \<Rightarrow> bool \<times> nat \<times> string list" where
  "find_flag_at argc argv flag [] = (False, argc, argv)"
| "find_flag_at argc argv flag (i # is) =
     (if argv ! i = flag then (True, remove_cli_args argc argv i 1)
      else find_flag_at argc argv flag is)"

definition find_cli_flag :: "nat \<Rightarrow> string list \<Rightarrow> string \<Rightarrow> bool \<times> nat \<times> string list" where
  "find_cli_flag argc argv flag = find_flag_at argc argv flag [1..<argc]"

section \<open>Removing arguments\<close>

lemma length_swap_args [simp]: "length (swap_args n i argv) = length argv"
  by (simp add: swap_args_def)

lemma length_fold_swap_args [simp]: "length (fold (swap_args n) is argv) = length argv"
  by (induction "is" arbitrary: argv) simp_all

lemma swap_args_nth:
  "i + n < length argv \<Longrightarrow> swap_args n i argv ! j =
     (if j = i + n then argv ! i else if j = i then argv ! (i + n) else argv ! j)"
  by (simp add: swap_args_def nth_list_update)

text \<open>After \<open>k\<close> swaps the first \<open>k\<close> arguments have moved down and those above are untouched.\<close>

lemma fold_swap_args_nth:
  assumes "pos + k + n \<le> length argv" and "0 < n"
  shows "(j < pos \<longrightarrow> fold (swap_args n) [pos..<pos + k] argv ! j = argv ! j) \<and>
    (pos \<le> j \<and> j < pos + k \<longrightarrow> fold (swap_args n) [pos..<pos + k] argv ! j = argv ! (j + n)) \<and>
    (pos + k + n \<le> j \<longrightarrow> fold (swap_args n) [pos..<pos + k] argv ! j = argv ! j)"
  using assms
proof (induction k arbitrary: j)
  case (Suc k)
  let ?a = "fold (swap_args n) [pos..<pos + k] argv"
  have step: "fold (swap_args n) [pos..<pos + Suc k] argv = swap_args n (pos + k) ?a" by simp
  have room: "pos + k + n < length ?a" using Suc.prems by simp
  have next_arg: "?a ! (pos + k + n) = argv ! (pos + k + n)" using Suc.IH [of "pos + k + n"] Suc.prems by simp
  show ?case
    unfolding step using Suc.IH [of j] Suc.prems room next_arg
    by (auto simp: swap_args_nth less_Suc_eq)
qed auto

lemma mset_swap_args: "i + n < length argv \<Longrightarrow> mset (swap_args n i argv) = mset argv"
  unfolding swap_args_def by (rule mset_swap) simp_all

lemma mset_fold_swap_args:
  "pos + k + n \<le> length argv \<Longrightarrow> mset (fold (swap_args n) [pos..<pos + k] argv) = mset argv"
  by (induction k) (simp_all add: mset_swap_args)

lemma remove_cli_args_correct:
  assumes "pos + n \<le> argc" and "argc \<le> length argv" and "0 < n"
  shows "fst (remove_cli_args argc argv pos n) = argc - n"
    and "take (argc - n) (snd (remove_cli_args argc argv pos n)) =
      take pos argv @ drop (pos + n) (take argc argv)"
    and "mset (snd (remove_cli_args argc argv pos n)) = mset argv"
proof -
  let ?argv = "snd (remove_cli_args argc argv pos n)"
  show "fst (remove_cli_args argc argv pos n) = argc - n" by (simp add: remove_cli_args_def)
  have all: "?argv = fold (swap_args n) [pos..<pos + (argc - n - pos)] argv"
    using assms by (cases "pos + n < argc") (simp_all add: remove_cli_args_def)
  have room: "pos + (argc - n - pos) + n \<le> length argv" using assms by simp
  note nth = fold_swap_args_nth [OF room assms(3), folded all]
  show "take (argc - n) ?argv = take pos argv @ drop (pos + n) (take argc argv)"
  proof (rule nth_equalityI)
    show "length (take (argc - n) ?argv) = length (take pos argv @ drop (pos + n) (take argc argv))"
      using assms by (simp add: all)
    fix j assume "j < length (take (argc - n) ?argv)"
    then have j: "j < argc - n" "j < length argv" by (simp_all add: all)
    show "take (argc - n) ?argv ! j = (take pos argv @ drop (pos + n) (take argc argv)) ! j"
      using j nth [of j] assms by (auto simp: nth_append add.commute)
  qed
  show "mset ?argv = mset argv" unfolding all by (rule mset_fold_swap_args [OF room])
qed

section \<open>Looking arguments up\<close>

text \<open>What the searches promise, on the arguments that follow the program's name.\<close>

fun option_of_args :: "string \<Rightarrow> string list \<Rightarrow> string option \<times> string list" where
  "option_of_args flag [] = (None, [])"
| "option_of_args flag (x # xs) =
     (if take (length flag + 1) x = flag @ ''='' then (Some (drop (length flag + 1) x), xs)
      else if x = flag then (case xs of [] \<Rightarrow> (None, [x]) | v # ys \<Rightarrow> (Some v, ys))
      else (let (r, ys) = option_of_args flag xs in (r, x # ys)))"

fun flag_of_args :: "string \<Rightarrow> string list \<Rightarrow> bool \<times> string list" where
  "flag_of_args flag [] = (False, [])"
| "flag_of_args flag (x # xs) =
     (if x = flag then (True, xs) else (let (r, ys) = flag_of_args flag xs in (r, x # ys)))"

lemma flag_with_value:
  "(length x > length flag \<and> take (length flag) x = flag \<and> x ! length flag = CHR ''='')
     = (take (length flag + 1) x = flag @ ''='')"
proof (cases "length flag < length x")
  case True
  then show ?thesis by (simp add: take_Suc_conv_app_nth)
next
  case False
  then have "take (length flag + 1) x = x" "length x \<noteq> length (flag @ ''='')" by simp_all
  with False show ?thesis by metis
qed

lemma value_after_equal:
  assumes "take (length flag + 1) x = flag @ ''=''" and "CHR ''='' \<notin> set flag"
  shows "tl (dropWhile (\<lambda>c. c \<noteq> CHR ''='') x) = drop (length flag + 1) x"
proof -
  have x: "x = flag @ ''='' @ drop (length flag + 1) x"
    using append_take_drop_id [of "length flag + 1" x] assms(1) by (metis append_assoc)
  have "dropWhile (\<lambda>c. c \<noteq> CHR ''='') (flag @ ''='' @ drop (length flag + 1) x)
      = ''='' @ drop (length flag + 1) x"
    using assms(2) by (subst dropWhile_append2) auto
  then show ?thesis using x by (metis append_Cons append_Nil list.sel(3))
qed

text \<open>
  The arguments from an index on: the search and the promise agree, whatever came before.
\<close>

lemma drop_take_Cons:
  "i < n \<Longrightarrow> n \<le> length xs \<Longrightarrow> drop i (take n xs) = xs ! i # drop (i + 1) (take n xs)"
  using Cons_nth_drop_Suc [of i "take n xs"] by simp

lemma find_option_at_correct:
  assumes "i \<le> argc" and "argc \<le> length argv" and "CHR ''='' \<notin> set flag"
  shows "let (r, argc', argv') = find_option_at argc argv flag [i..<argc];
             (s, rest) = option_of_args flag (drop i (take argc argv))
         in r = s \<and> take argc' argv' = take i argv @ rest \<and> mset argv' = mset argv"
  using assms
proof (induction "argc - i" arbitrary: i)
  case 0
  then show ?case by simp
next
  case (Suc k)
  then have i: "i < argc" by simp
  then have up: "[i..<argc] = i # [i + 1..<argc]" by (simp add: upt_rec)
  have args: "drop i (take argc argv) = argv ! i # drop (i + 1) (take argc argv)"
    using i Suc.prems by (rule_tac drop_take_Cons)
  show ?case
  proof (cases "take (length flag + 1) (argv ! i) = flag @ ''=''")
    case True
    then show ?thesis
      using remove_cli_args_correct [of i 1 argc argv] i Suc.prems
        value_after_equal [OF True Suc.prems(3)] flag_with_value [of flag "argv ! i"]
      by (simp add: up args case_prod_beta Let_def)
  next
    case ne: False
    show ?thesis
    proof (cases "argv ! i = flag")
      case True
      show ?thesis
      proof (cases "i + 1 = argc")
        case last: True
        have none: "drop (i + 1) (take argc argv) = []" using last by simp
        have "option_of_args flag (drop i (take argc argv)) = (None, [flag])"
          unfolding args none using True by simp
        moreover have "take argc argv = take i argv @ [flag]"
          using last True Suc.prems by (simp add: take_Suc_conv_app_nth flip: last)
        moreover have "find_option_at argc argv flag [i..<argc] = (None, argc, argv)"
          using True last by (simp add: up)
        ultimately show ?thesis by (simp del: find_option_at.simps)
      next
        case False
        then have i2: "i + 1 < argc" using i by simp
        have "drop (i + 1) (take argc argv) = argv ! (i + 1) # drop (i + 2) (take argc argv)"
          using drop_take_Cons [OF i2] Suc.prems by simp
        then show ?thesis
          using True ne False remove_cli_args_correct [of i 2 argc argv] i2 Suc.prems
            flag_with_value [of flag "argv ! i"]
          by (simp add: up args case_prod_beta Let_def)
      qed
    next
      case False
      have "take i argv @ [argv ! i] = take (i + 1) argv"
        using i Suc.prems by (simp add: take_Suc_conv_app_nth)
      then show ?thesis
        using Suc.hyps(1) [of "i + 1"] Suc.hyps(2) Suc.prems i False ne
          flag_with_value [of flag "argv ! i"]
        by (auto simp: up args case_prod_beta Let_def)
    qed
  qed
qed

lemma find_flag_at_correct:
  assumes "i \<le> argc" and "argc \<le> length argv"
  shows "let (r, argc', argv') = find_flag_at argc argv flag [i..<argc];
             (s, rest) = flag_of_args flag (drop i (take argc argv))
         in r = s \<and> take argc' argv' = take i argv @ rest \<and> mset argv' = mset argv"
  using assms
proof (induction "argc - i" arbitrary: i)
  case 0
  then show ?case by simp
next
  case (Suc k)
  then have i: "i < argc" by simp
  then have up: "[i..<argc] = i # [i + 1..<argc]" by (simp add: upt_rec)
  have args: "drop i (take argc argv) = argv ! i # drop (i + 1) (take argc argv)"
    using i Suc.prems by (rule_tac drop_take_Cons)
  have "take i argv @ [argv ! i] = take (i + 1) argv"
    using i Suc.prems by (simp add: take_Suc_conv_app_nth)
  then show ?case
    using Suc.hyps(1) [of "i + 1"] Suc.hyps(2) Suc.prems i
      remove_cli_args_correct [of i 1 argc argv]
    by (simp add: up args case_prod_beta Let_def)
qed

section \<open>Properties\<close>

text \<open>
  Property C34.  \<open>find_cli_option\<close> and \<open>find_cli_flag\<close> on the arguments \<open>prog # args\<close>, for a
  flag without an equal sign: the answer is that of the first matching argument
  (\<open>--flag=value\<close>, or \<open>--flag value\<close>; a flag in the last place has no value), exactly the
  matched arguments are removed from \<open>argc\<close> and \<open>argv\<close>, the others keep their order, and
  \<open>argv\<close> is a permutation of what it was.
\<close>

theorem cli_lookup_correct:
  assumes "CHR ''='' \<notin> set flag"
  shows "let argv = prog # args @ beyond; argc = length (prog # args) in
    (let (r, argc', argv') = find_cli_option argc argv flag; (s, rest) = option_of_args flag args
     in r = s \<and> take argc' argv' = prog # rest \<and> mset argv' = mset argv) \<and>
    (let (r, argc', argv') = find_cli_flag argc argv flag; (s, rest) = flag_of_args flag args
     in r = s \<and> take argc' argv' = prog # rest \<and> mset argv' = mset argv)"
  using find_option_at_correct [of 1 "length (prog # args)" "prog # args @ beyond" flag]
    find_flag_at_correct [of 1 "length (prog # args)" "prog # args @ beyond" flag] assms
  by (simp add: find_cli_option_def find_cli_flag_def Let_def)

text \<open>The dump among other arguments, and the array after the search.\<close>

theorem cli_lookup_correct_witness:
  "CHR ''='' \<notin> set ''--d'' \<and>
   find_cli_option 4 [''p'', ''a'', ''--d'', ''f.h5''] ''--d'' = (Some ''f.h5'', 2, [''p'', ''a'', ''--d'', ''f.h5'']) \<and>
   take 2 (snd (snd (find_cli_option 4 [''p'', ''a'', ''--d'', ''f.h5''] ''--d''))) = [''p'', ''a'']"
  using cli_lookup_correct [of "''--d''" "''p''" "[''a'', ''--d'', ''f.h5'']" "[]"] 
  by (simp add: find_cli_option_def upt_rec remove_cli_args_def)

end
