(* ===== verification/Raw_Allocation.thy ===== *)
theory Raw_Allocation
  imports Replay_Layout
begin

text \<open>
  The memory the replayer takes from the machine: \<open>src/krepe/replay/allocation.hpp\<close>
  (\<open>Allocation\<close>, \<open>copy_data\<close>) and \<open>host_allocation.hpp\<close>, \<open>cuda_allocation.hpp\<close>,
  \<open>hip_allocation.hpp\<close>: mapping pages at the captured addresses, copying the captured
  bytes into them, the buffers of the reference outputs, and giving everything back.

  The operating system and the driver of the device are parameters: the fields of a record
  of functions on a state \<open>'o\<close>.  A driver call that fails throws.
\<close>

section \<open>The platform\<close>

record 'o platform =
  pf_backend :: device_backend
  pf_pagesize :: u64
  pf_new :: "u64 \<Rightarrow> exn option"
  pf_malloc_host :: "u64 \<Rightarrow> exn option"
  pf_malloc :: "u64 \<Rightarrow> 'o \<Rightarrow> addr \<times> 'o"
  pf_free :: "addr \<Rightarrow> 'o \<Rightarrow> 'o"
  pf_mmap :: "addr \<Rightarrow> u64 \<Rightarrow> 'o \<Rightarrow> (int + addr) \<times> 'o"
  pf_munmap :: "addr \<Rightarrow> u64 \<Rightarrow> 'o \<Rightarrow> 'o"
  pf_fresh :: "'o \<Rightarrow> addr \<Rightarrow> byte"
  pf_strerror :: "int \<Rightarrow> string"
  pf_supports_vmm :: "'o \<Rightarrow> (exn + bool) \<times> 'o"
  pf_granularity :: "exn + u64"
  pf_mem_create :: "u64 \<Rightarrow> 'o \<Rightarrow> (exn + int) \<times> 'o"
  pf_address_reserve :: "u64 \<Rightarrow> addr \<Rightarrow> 'o \<Rightarrow> (exn + addr) \<times> 'o"
  pf_mem_map :: "addr \<Rightarrow> u64 \<Rightarrow> int \<Rightarrow> 'o \<Rightarrow> (exn + unit) \<times> 'o"
  pf_set_access :: "addr \<Rightarrow> u64 \<Rightarrow> 'o \<Rightarrow> (exn + unit) \<times> 'o"
  pf_mem_release :: "int \<Rightarrow> 'o \<Rightarrow> (exn + unit) \<times> 'o"
  pf_mem_unmap :: "addr \<Rightarrow> u64 \<Rightarrow> 'o \<Rightarrow> (exn + unit) \<times> 'o"
  pf_address_free :: "addr \<Rightarrow> u64 \<Rightarrow> 'o \<Rightarrow> (exn + unit) \<times> 'o"
  pf_device_malloc :: "u64 \<Rightarrow> 'o \<Rightarrow> (exn + addr) \<times> 'o"
  pf_device_free :: "addr \<Rightarrow> 'o \<Rightarrow> (exn + unit) \<times> 'o"
  pf_memcpy_to_device :: "addr \<Rightarrow> byte list \<Rightarrow> 'o \<Rightarrow> (exn + unit) \<times> 'o"

text \<open>The state of the platform, and the bytes of host and device memory.\<close>

record 'o machine =
  mc_os :: 'o
  mc_host :: memory
  mc_device :: memory

definition memory_of :: "memory_space_type \<Rightarrow> 'o machine \<Rightarrow> memory" where
  "memory_of space mc = (case space of HOST \<Rightarrow> mc_host mc | DEVICE \<Rightarrow> mc_device mc)"

text \<open>A call of the platform, from the program.\<close>

definition os_call :: "('o \<Rightarrow> (exn + 'a) \<times> 'o) \<Rightarrow> ('o machine, 'a) prog" where
  "os_call f m = (let (r, os) = f (mc_os m) in (r, m\<lparr>mc_os := os\<rparr>))"

definition os_do :: "('o \<Rightarrow> 'a \<times> 'o) \<Rightarrow> ('o machine, 'a) prog" where
  "os_do f m = (let (x, os) = f (mc_os m) in (Inr x, m\<lparr>mc_os := os\<rparr>))"

section \<open>Host memory\<close>

text \<open>The pages \<open>mmap\<close> returns hold what the platform put there.\<close>

definition host_pages :: "addr \<Rightarrow> u64 \<Rightarrow> 'o platform \<Rightarrow> ('o machine, unit) prog" where
  "host_pages a n pf m =
     (Inr (), m\<lparr>mc_host := (\<lambda>x. if x - a < n then pf_fresh pf (mc_os m) x else mc_host m x)\<rparr>)"

definition EEXIST :: int where
  "EEXIST = 17"

definition host_allocate :: "'o platform \<Rightarrow> addr \<Rightarrow> u64 \<Rightarrow> ('o machine, addr \<times> u64) prog" where
  "host_allocate pf aligned_address sz =
     (if aligned_address mod pf_pagesize pf \<noteq> 0 then throw Abort
      else and_then (os_do (pf_mmap pf aligned_address sz)) (\<lambda>result.
        case result of
          Inl errno \<Rightarrow>
            if errno = EEXIST
            then throw (Std_Exception ''Failed to allocate to a predefined host address'')
            else throw (Std_Exception
              (''Unknown error when trying to allocate to a predefined host address: ''
               @ pf_strerror pf errno))
        | Inr address \<Rightarrow>
            if address \<noteq> aligned_address
            then and_then (os_do (\<lambda>os. ((), pf_munmap pf address sz os))) (\<lambda>_.
                   throw (Std_Exception ''Failed to allocate to a predefined host address''))
            else and_then (host_pages address sz pf) (\<lambda>_. done_with (address, sz))))"

definition host_deallocate :: "'o platform \<Rightarrow> addr \<Rightarrow> u64 \<Rightarrow> ('o machine, unit) prog" where
  "host_deallocate pf address sz = os_do (\<lambda>os. ((), pf_munmap pf address sz os))"

definition host_copy_data :: "addr \<Rightarrow> byte list \<Rightarrow> ('o machine, unit) prog" where
  "host_copy_data address data m = (Inr (), m\<lparr>mc_host := write_bytes address data (mc_host m)\<rparr>)"

text \<open>\<open>malloc\<close> is not checked: a copy to the null pointer is undefined.\<close>

definition regular_host_allocate :: "'o platform \<Rightarrow> u64 \<Rightarrow> byte list \<Rightarrow> ('o machine, addr) prog" where
  "regular_host_allocate pf sz data =
     and_then (os_do (pf_malloc pf sz)) (\<lambda>ptr.
     if ptr = nullptr then throw Abort
     else and_then (host_copy_data ptr data) (\<lambda>_. done_with ptr))"

section \<open>Device memory\<close>

text \<open>
  Physical memory, an address range, and the mapping of one to the other: with CUDA, then
  with HIP.  Only CUDA's version compares the address it got with the one it asked for.
\<close>

definition map_reserved :: "'o platform \<Rightarrow> addr \<Rightarrow> u64 \<Rightarrow> int \<Rightarrow> ('o machine, addr \<times> u64) prog" where
  "map_reserved pf real_address sz handle =
     and_then (os_call (pf_mem_map pf real_address sz handle)) (\<lambda>_.
     and_then (os_call (pf_set_access pf real_address sz)) (\<lambda>_.
     and_then (os_call (pf_mem_release pf handle)) (\<lambda>_.
     done_with (real_address, sz))))"

definition cuda_device_allocate :: "'o platform \<Rightarrow> addr \<Rightarrow> u64 \<Rightarrow> ('o machine, addr \<times> u64) prog" where
  "cuda_device_allocate pf target_address sz =
     and_then (os_call (pf_mem_create pf sz)) (\<lambda>handle.
     and_then (os_call (pf_address_reserve pf sz target_address)) (\<lambda>real_address.
     if real_address \<noteq> target_address
     then throw (Std_Exception ''Failed to allocate data at a specific device address'')
     else map_reserved pf real_address sz handle))"

definition hip_device_allocate :: "'o platform \<Rightarrow> addr \<Rightarrow> u64 \<Rightarrow> ('o machine, addr \<times> u64) prog" where
  "hip_device_allocate pf target_address sz =
     and_then (os_call (pf_mem_create pf sz)) (\<lambda>handle.
     and_then (os_call (pf_address_reserve pf sz target_address)) (\<lambda>real_address.
     map_reserved pf real_address sz handle))"

definition device_allocate :: "'o platform \<Rightarrow> addr \<Rightarrow> u64 \<Rightarrow> ('o machine, addr \<times> u64) prog" where
  "device_allocate pf target_address sz =
     (if pf_backend pf = Cuda_Backend then cuda_device_allocate pf target_address sz
      else hip_device_allocate pf target_address sz)"

definition device_deallocate :: "'o platform \<Rightarrow> addr \<Rightarrow> u64 \<Rightarrow> ('o machine, unit) prog" where
  "device_deallocate pf address sz =
     and_then (os_call (pf_mem_unmap pf address sz)) (\<lambda>_. os_call (pf_address_free pf address sz))"

definition device_copy_data :: "'o platform \<Rightarrow> addr \<Rightarrow> byte list \<Rightarrow> ('o machine, unit) prog" where
  "device_copy_data pf address data =
     and_then (os_call (pf_memcpy_to_device pf address data)) (\<lambda>_ m.
       (Inr (), m\<lparr>mc_device := write_bytes address data (mc_device m)\<rparr>))"

definition regular_device_allocate :: "'o platform \<Rightarrow> u64 \<Rightarrow> byte list \<Rightarrow> ('o machine, addr) prog" where
  "regular_device_allocate pf sz data =
     and_then (os_call (pf_device_malloc pf sz)) (\<lambda>ptr.
     and_then (device_copy_data pf ptr data) (\<lambda>_. done_with ptr))"

text \<open>\<open>device_init\<close>: without a backend there is nothing to ask.\<close>

definition device_init :: "'o platform \<Rightarrow> ('o machine, unit) prog" where
  "device_init pf =
     (if \<not> has_device_space (pf_backend pf) then done_with ()
      else and_then (os_call (pf_supports_vmm pf)) (\<lambda>supported.
        if \<not> supported
        then throw (Std_Exception ''The selected device does not support virtual memory management'')
        else done_with ()))"

definition copy_data ::
  "'o platform \<Rightarrow> memory_space_type \<Rightarrow> addr \<Rightarrow> byte list \<Rightarrow> ('o machine, unit) prog" where
  "copy_data pf space address data =
     (if space = HOST then host_copy_data address data
      else if has_device_space (pf_backend pf) then device_copy_data pf address data
      else throw (Std_Exception
        ''Tried to copy data to a device space but no device backend is enabled''))"

text \<open>
  The staging buffers of the reader: whether there is one, or the exception.  Without a
  backend the buffer of a device allocation is a null pointer.
\<close>

definition allocate_host_buffer :: "'o platform \<Rightarrow> u64 \<Rightarrow> memory_space_type \<Rightarrow> exn + bool" where
  "allocate_host_buffer pf sz mem =
     (if mem = HOST then (case pf_new pf sz of Some e \<Rightarrow> Inl e | None \<Rightarrow> Inr True)
      else if has_device_space (pf_backend pf)
      then (case pf_malloc_host pf sz of Some e \<Rightarrow> Inl e | None \<Rightarrow> Inr True)
      else Inr False)"

section \<open>Allocation objects\<close>

text \<open>
  \<open>Allocation\<close>.  A moved-to object has a memory space that was never initialized: \<open>None\<close>,
  and reading it is undefined.
\<close>

record allocation_object =
  al_address :: addr
  al_size :: u64
  al_space :: "memory_space_type option"

definition construct_allocation ::
  "'o platform \<Rightarrow> memory_space_type \<Rightarrow> addr \<Rightarrow> u64 \<Rightarrow> ('o machine, allocation_object) prog" where
  "construct_allocation pf memory_space target_address requested_size =
     and_then
       (if memory_space = HOST then host_allocate pf target_address requested_size
        else if has_device_space (pf_backend pf) then device_allocate pf target_address requested_size
        else if pf_backend pf = Unsupported_Backend
        then throw (Std_Exception ''Trying to allocate on an unsupported device space'')
        else throw (Std_Exception
          ''Trying to allocate on device but no device backend has been enabled''))
       (\<lambda>(address, sz).
         done_with \<lparr>al_address = address, al_size = sz, al_space = Some memory_space\<rparr>)"

text \<open>A destructor that throws terminates the process.\<close>

definition destroy_allocation :: "'o platform \<Rightarrow> allocation_object \<Rightarrow> ('o machine, unit) prog" where
  "destroy_allocation pf a m =
     (if al_address a = nullptr then (Inr (), m)
      else case al_space a of
        None \<Rightarrow> (Inl Abort, m)
      | Some HOST \<Rightarrow> host_deallocate pf (al_address a) (al_size a) m
      | Some DEVICE \<Rightarrow>
          if has_device_space (pf_backend pf)
          then (case device_deallocate pf (al_address a) (al_size a) m of
                  (Inl e, m') \<Rightarrow> (Inl Abort, m')
                | (Inr u, m') \<Rightarrow> (Inr u, m'))
          else (Inr (), m))"

text \<open>The new object and what is left of the other one; the assignment also forgets its own pages.\<close>

definition move_allocation :: "allocation_object \<Rightarrow> allocation_object \<times> allocation_object" where
  "move_allocation other =
     (\<lparr>al_address = al_address other, al_size = al_size other, al_space = None\<rparr>,
      other\<lparr>al_address := nullptr, al_size := 0\<rparr>)"

definition move_assign_allocation ::
  "allocation_object \<Rightarrow> allocation_object \<Rightarrow> allocation_object \<times> allocation_object" where
  "move_assign_allocation this other =
     (this\<lparr>al_address := al_address other, al_size := al_size other\<rparr>,
      other\<lparr>al_address := nullptr, al_size := 0\<rparr>)"

end
