(* ===== verification/Hdf5_Beside.thy ===== *)
theory Hdf5_Beside
  imports Hdf5_Store
begin

text \<open>
  A library used by a program that has a state of its own: the same calls on a pair of the
  library's state and the program's, which they leave alone.  The laws of \<open>Hdf5_Store\<close>
  carry over, with a view that also holds the program's state, so the facts proved of a
  computation on the library say that it does not touch the program's state either.
\<close>

definition beside :: "('w \<Rightarrow> 'r \<times> 'w) \<Rightarrow> 'w \<times> 's \<Rightarrow> 'r \<times> ('w \<times> 's)" where
  "beside f ws = (let (x, w) = f (fst ws) in (x, (w, snd ws)))"

definition api_beside :: "'w hdf5 \<Rightarrow> ('w \<times> 's) hdf5" where
  "api_beside api =
     \<lparr>H5Tcopy_c_s1 = beside (H5Tcopy_c_s1 api), H5Tset_size = (\<lambda>t n. beside (H5Tset_size api t n)),
      H5Tset_strpad_nullterm = (\<lambda>t. beside (H5Tset_strpad_nullterm api t)),
      H5Tclose = (\<lambda>t. beside (H5Tclose api t)), H5Screate_scalar = beside (H5Screate_scalar api),
      H5Screate_simple = (\<lambda>n. beside (H5Screate_simple api n)),
      H5Sclose = (\<lambda>i. beside (H5Sclose api i)),
      H5Acreate2 = (\<lambda>l n t i. beside (H5Acreate2 api l n t i)),
      H5Awrite = (\<lambda>a t b. beside (H5Awrite api a t b)),
      H5Aopen_by_name = (\<lambda>l obj n. beside (H5Aopen_by_name api l obj n)),
      H5Aget_info = (\<lambda>a. beside (H5Aget_info api a)), H5Aget_type = (\<lambda>a. beside (H5Aget_type api a)),
      H5Aread = (\<lambda>a t. beside (H5Aread api a t)), H5Aclose = (\<lambda>a. beside (H5Aclose api a)),
      H5Dcreate2 = (\<lambda>l n t i. beside (H5Dcreate2 api l n t i)),
      H5Dwrite = (\<lambda>d t b. beside (H5Dwrite api d t b)), H5Dclose = (\<lambda>d. beside (H5Dclose api d)),
      H5Gcreate2 = (\<lambda>l n. beside (H5Gcreate2 api l n)), H5Gclose = (\<lambda>g. beside (H5Gclose api g)),
      H5Fcreate_trunc = (\<lambda>fn. beside (H5Fcreate_trunc api fn)),
      H5Fopen_rdwr = (\<lambda>fn. beside (H5Fopen_rdwr api fn)),
      H5Fopen_rdonly = (\<lambda>fn. beside (H5Fopen_rdonly api fn)),
      H5Fclose = (\<lambda>i. beside (H5Fclose api i)),
      H5LTget_dataset_ndims = (\<lambda>l n. beside (H5LTget_dataset_ndims api l n)),
      H5LTget_dataset_info = (\<lambda>l n. beside (H5LTget_dataset_info api l n)),
      H5Lexists = (\<lambda>l n. beside (H5Lexists api l n)),
      H5Literate_open = (\<lambda>l n. beside (H5Literate_open api l n)),
      H5Literate_names = (\<lambda>l ws. H5Literate_names api l (fst ws)),
      H5Aiterate_names = (\<lambda>l ws. H5Aiterate_names api l (fst ws)),
      H5LTread_dataset = (\<lambda>l n t. beside (H5LTread_dataset api l n t))\<rparr>"

definition with_state :: "'x h5view_scheme \<Rightarrow> 's \<Rightarrow> ('x \<times> 's) h5view_scheme" where
  "with_state v s = \<lparr>h5_refs = h5_refs v, h5_disk = h5_disk v, \<dots> = (h5view.more v, s)\<rparr>"

definition beside_view :: "('w \<Rightarrow> 'x h5view_scheme) \<Rightarrow> 'w \<times> 's \<Rightarrow> ('x \<times> 's) h5view_scheme" where
  "beside_view view ws = with_state (view (fst ws)) (snd ws)"

lemma beside_iff: "beside f ws = (x, ws') \<longleftrightarrow> f (fst ws) = (x, fst ws') \<and> snd ws' = snd ws"
  by (cases ws') (auto simp: beside_def split: prod.splits)

lemma beside_fst_snd [simp]:
  "fst (beside f ws) = fst (f (fst ws))"
  "fst (snd (beside f ws)) = snd (f (fst ws))" "snd (snd (beside f ws)) = snd ws"
  by (simp_all add: beside_def case_prod_beta)

lemma with_state_simps [simp]:
  "h5_refs (with_state v s) = h5_refs v" "h5_disk (with_state v s) = h5_disk v"
  "place (with_state v s) = place v" "handle_kinds (with_state v s) = handle_kinds v"
  "type_of_tid (with_state v s) = type_of_tid v"
  "attr_at (with_state v s) = attr_at v" "data_at (with_state v s) = data_at v"
  by (simp_all add: with_state_def place_def handle_kinds_def type_of_tid_def attr_at_def data_at_def
    fun_eq_iff split: h5tid.split)

lemma with_state_updates:
  "new_ref i r (with_state v s) = with_state (new_ref i r v) s"
  "drop_ref i (with_state v s) = with_state (drop_ref i v) s"
  "on_file f g (with_state v s) = with_state (on_file f g v) s"
  "(with_state v s)\<lparr>h5_disk := D\<rparr> = with_state (v\<lparr>h5_disk := D\<rparr>) s"
  by (simp_all add: with_state_def new_ref_def drop_ref_def on_file_def)

lemma with_state_eq [simp]: "with_state v s = with_state u t \<longleftrightarrow> v = u \<and> s = t"
  by (cases v, cases u) (auto simp: with_state_def)

lemma opens_beside: "opens hs k f \<Longrightarrow> opens (\<lambda>ws. hs (fst ws)) k (beside f)"
  by (simp add: opens_def beside_def split: prod.splits)

lemma keeps_beside: "keeps hs f \<Longrightarrow> keeps (\<lambda>ws. hs (fst ws)) (beside f)"
  by (simp add: keeps_def)

lemma closes_beside: "closes hs k f \<Longrightarrow> closes (\<lambda>ws. hs (fst ws)) k (\<lambda>i. beside (f i))"
  by (simp add: closes_def)

context hdf5_handles
begin

lemma handles_beside: "hdf5_handles (api_beside api) (\<lambda>ws. hs (fst ws))"
  by unfold_locales (simp_all add: api_beside_def opens_beside opens_calls keeps_beside keeps_calls
    closes_beside closes_calls)

end

context hdf5_store
begin

lemma view_handles_beside: "hdf5_handles (api_beside api) (\<lambda>ws. handle_kinds (beside_view view ws))"
  using handles_beside by (simp add: beside_view_def)

lemma store_beside: "hdf5_store (api_beside api) (beside_view view)"
proof (rule hdf5_store.intro [OF view_handles_beside], unfold_locales)
qed (auto simp: api_beside_def beside_view_def beside_iff with_state_updates closing
  intro: Tcopy [simplified] Tset_size Tset_strpad Screate_scalar Screate_simple Acreate2 Awrite Dcreate2 Dwrite
    Gcreate2 Fcreate_trunc Fopen_rdwr)

end

context hdf5_reader
begin

lemma reader_beside: "hdf5_reader (api_beside api) (beside_view view)"
proof -
  note unfolds = api_beside_def beside_def beside_view_def with_state_updates
  show ?thesis
  proof (rule hdf5_reader.intro [OF store_beside], unfold_locales, goal_cases)
    case (1 ws l f p obj name a)
    then show ?case using Aopen_by_name [of "fst ws"] by (fastforce simp: unfolds)
  next
    case (2 ws h f p name T x)
    then show ?case using Aget_info [of "fst ws"] by (fastforce simp: unfolds)
  next
    case (3 ws h f p name T x)
    then show ?case using Aget_type [of "fst ws"] by (fastforce simp: unfolds)
  next
    case (4 ws h f p name T buf ty)
    then show ?case using Aread [of "fst ws"] by (fastforce simp: unfolds)
  next
    case (5 ws l f p obj d)
    then show ?case using get_ndims [of "fst ws"] by (fastforce simp: unfolds)
  next
    case (6 ws l f p obj nty n x)
    then show ?case using get_dataset_info [of "fst ws"] by (fastforce simp: unfolds)
  next
    case (7 ws l f p obj nty n buf)
    then show ?case using read_dataset [of "fst ws"] by (fastforce simp: unfolds)
  next
    case (8 ws l f p obj nty)
    then show ?case using read_empty_dataset [of "fst ws"] by (fastforce simp: unfolds)
  next
    case (9 ws fn)
    then show ?case using Fopen_rdonly [of "fst ws"] by (fastforce simp: unfolds)
  next
    case (10 ws l f p F obj)
    then show ?case using Lexists [of "fst ws"] by (fastforce simp: unfolds)
  next
    case (11 ws l f p F obj)
    then show ?case using Literate_open [of "fst ws"] by (fastforce simp: unfolds)
  next
    case (12 ws l f p F)
    then show ?case using Literate_names [of "fst ws"] by (simp add: unfolds)
  next
    case (13 ws l f p F)
    then show ?case using Aiterate_names [of "fst ws"] by (simp add: unfolds)
  qed
qed

end

end
