(* ===== verification/Replayer.thy ===== *)
theory Replayer
  imports Cli Dump_Reader Raw_Allocation Hdf5_Beside
begin

text \<open>
  The replay session (\<open>src/krepe/replay/kernel_replayer.cpp\<close> and \<open>.hpp\<close>): the globals
  of the library, \<open>ScopeGuard\<close> with its constructor, destructor and members, \<open>initialize\<close>,
  \<open>finalize\<close> and \<open>reset_inputs\<close>, and the queries on the restored allocations.
\<close>

section \<open>State\<close>

record replay_allocation =
  ra_label :: string
  ra_memory_space :: string
  ra_data :: addr
  ra_size_bytes :: u64
  ra_reference_data :: addr
  ra_reference_size_bytes :: u64
  ra_has_input :: bool
  ra_has_reference :: bool

text \<open>A reference buffer: its address, and the space its deleter gives it back to.\<close>

record stored_allocation =
  st_captured_allocation :: addr
  st_descriptor :: replay_allocation
  st_output_seen :: bool
  st_reference :: "(memory_space_type \<times> addr) option"

record input_snapshot =
  is_memory_space :: memory_space_type
  is_address :: addr
  is_data :: "byte list"

text \<open>
  \<open>ScopeGuard\<close>.  The map of multimaps of allocations is the list of the entries with their
  memory space, in the order they were inserted; the key of an entry is the label of its
  descriptor.
\<close>

record scope_guard =
  sg_inputs :: "input_snapshot list"
  sg_allocations :: "(memory_space_type \<times> stored_allocation) list"
  sg_host_raw :: "allocation_object list"
  sg_device_raw :: "allocation_object list"

text \<open>
  The globals, the guards that exist (by number, for the objects' addresses), and the
  machine.  Pointers to a guard are its number: \<open>replay_allocations\<close> points into one.
\<close>

record 'o replayer =
  rp_machine :: "'o machine"
  rp_functor_data :: "byte list"
  rp_nvcc_data :: "byte list"
  rp_metadata :: "string \<rightharpoonup> string"
  rp_policy :: "policy_var option"
  rp_initialized :: bool
  rp_input_reset_enabled :: bool
  rp_guards :: "nat \<rightharpoonup> scope_guard"
  rp_next_guard :: nat
  rp_replay_allocations :: "nat option"
  rp_scope_guard :: "nat option"
  rp_internal_guard :: "nat option"

definition empty_guard :: scope_guard where
  "empty_guard = \<lparr>sg_inputs = [], sg_allocations = [], sg_host_raw = [], sg_device_raw = []\<rparr>"

definition initial_replayer :: "'o machine \<Rightarrow> 'o replayer" where
  "initial_replayer m =
     \<lparr>rp_machine = m, rp_functor_data = [], rp_nvcc_data = [], rp_metadata = Map.empty,
      rp_policy = None, rp_initialized = False, rp_input_reset_enabled = False,
      rp_guards = Map.empty, rp_next_guard = 0, rp_replay_allocations = None,
      rp_scope_guard = None, rp_internal_guard = None\<rparr>"

text \<open>
  The program's state is the HDF5 library's and the replayer's, side by side.  Steps on the
  replayer, on its machine and on a guard.
\<close>

type_synonym ('w, 'o, 'a) replay_prog = "('w \<times> 'o replayer, 'a) prog"

definition update :: "('o replayer \<Rightarrow> 'o replayer) \<Rightarrow> ('w, 'o, unit) replay_prog" where
  "update f ws = (Inr (), (fst ws, f (snd ws)))"

definition reading :: "('o replayer \<Rightarrow> 'a) \<Rightarrow> ('w, 'o, 'a) replay_prog" where
  "reading f ws = (Inr (f (snd ws)), ws)"

definition on_machine :: "('o machine, 'a) prog \<Rightarrow> ('w, 'o, 'a) replay_prog" where
  "on_machine m ws =
     (let (r, mc) = m (rp_machine (snd ws)) in (r, (fst ws, (snd ws)\<lparr>rp_machine := mc\<rparr>)))"

definition on_guard :: "nat \<Rightarrow> (scope_guard \<Rightarrow> scope_guard) \<Rightarrow> ('w, 'o, unit) replay_prog" where
  "on_guard g f = update (\<lambda>s. s\<lparr>rp_guards := (rp_guards s)(g := map_option f (rp_guards s g))\<rparr>)"

definition guard_of :: "nat \<Rightarrow> 'o replayer \<Rightarrow> scope_guard" where
  "guard_of g s = (case rp_guards s g of None \<Rightarrow> empty_guard | Some sg \<Rightarrow> sg)"

section \<open>Restoring the inputs\<close>

text \<open>
  \<open>ScopeGuard::allocate\<close>.  Without a device space the class has no vector for device
  allocations.
\<close>

definition guard_allocate ::
  "'o platform \<Rightarrow> nat \<Rightarrow> memory_space_type \<Rightarrow> region \<Rightarrow> ('w, 'o, unit) replay_prog" where
  "guard_allocate pf g memory_space r =
     (if memory_space = HOST
      then and_then (on_machine (construct_allocation pf HOST (base r) (len r))) (\<lambda>a.
             on_guard g (\<lambda>sg. sg\<lparr>sg_host_raw := sg_host_raw sg @ [a]\<rparr>))
      else if \<not> has_device_space (pf_backend pf)
      then throw (Std_Exception ''Trying to access device allocations but no device space is enabled'')
      else and_then (on_machine (construct_allocation pf DEVICE (base r) (len r))) (\<lambda>a.
             on_guard g (\<lambda>sg. sg\<lparr>sg_device_raw := sg_device_raw sg @ [a]\<rparr>)))"

text \<open>
  \<open>copy_data_wrapper\<close>, the callback of the pass that copies the captured bytes.
  \<open>allocation_index\<close> maps an allocation and its space to the slot of its entry, which
  never moves.
\<close>

type_synonym allocation_index = "addr \<times> string \<rightharpoonup> nat"

definition restored_descriptor :: "snapshot_allocation \<Rightarrow> replay_allocation" where
  "restored_descriptor entry =
     \<lparr>ra_label = sa_label entry, ra_memory_space = sa_space entry,
      ra_data = (if sa_size entry \<noteq> 0 then sa_address entry else nullptr),
      ra_size_bytes = sa_size entry, ra_reference_data = nullptr, ra_reference_size_bytes = 0,
      ra_has_input = True, ra_has_reference = False\<rparr>"

definition copy_input ::
  "'o platform \<Rightarrow> nat \<Rightarrow> memory_space_type \<Rightarrow> snapshot_allocation \<Rightarrow> byte list option \<Rightarrow>
   ('w, 'o, unit) replay_prog"
where
  "copy_input pf g space entry data =
     (case data of
        None \<Rightarrow> done_with ()
      | Some bytes \<Rightarrow>
          and_then (on_machine (copy_data pf space (sa_address entry) bytes)) (\<lambda>_.
          and_then (reading rp_input_reset_enabled) (\<lambda>enabled.
          if enabled
          then on_guard g (\<lambda>sg. sg\<lparr>sg_inputs := sg_inputs sg @
                 [\<lparr>is_memory_space = space, is_address = sa_address entry, is_data = bytes\<rparr>]\<rparr>)
          else done_with ())))"

definition copy_data_wrapper ::
  "'o platform \<Rightarrow> nat \<Rightarrow> snapshot_allocation \<Rightarrow> byte list option \<Rightarrow> allocation_index \<Rightarrow>
   ('w, 'o, allocation_index) replay_prog"
where
  "copy_data_wrapper pf g entry data index =
     (if \<not> sa_bytes_dumped entry
      then throw (Std_Exception (''Missing input bytes for allocation '' @ quoted (sa_label entry)))
      else if index (sa_allocation_id entry, sa_space entry) \<noteq> None
      then throw (Std_Exception (''Duplicate input allocation '' @ quoted (sa_label entry)))
      else
        let space = memory_space_type_from_string (sa_space entry) in
        and_then (if sa_size entry \<noteq> 0 then copy_input pf g space entry data else done_with ()) (\<lambda>_.
        and_then (reading (\<lambda>s. length (sg_allocations (guard_of g s)))) (\<lambda>slot.
        and_then (on_guard g (\<lambda>sg. sg\<lparr>sg_allocations := sg_allocations sg @
          [(space, \<lparr>st_captured_allocation = sa_allocation_id entry,
                    st_descriptor = restored_descriptor entry, st_output_seen = False,
                    st_reference = None\<rparr>)]\<rparr>)) (\<lambda>_.
        done_with (index((sa_allocation_id entry, sa_space entry) \<mapsto> slot))))))"

section \<open>The reference outputs\<close>

text \<open>\<open>ScopeGuard::allocate_output\<close> on the entry in \<open>slot\<close>.\<close>

definition on_stored ::
  "nat \<Rightarrow> nat \<Rightarrow> (stored_allocation \<Rightarrow> stored_allocation) \<Rightarrow> ('w, 'o, unit) replay_prog" where
  "on_stored g slot f = on_guard g (\<lambda>sg. sg\<lparr>sg_allocations :=
     (sg_allocations sg)[slot := (fst (sg_allocations sg ! slot), f (snd (sg_allocations sg ! slot)))]\<rparr>)"

definition reference_seen :: "snapshot_allocation \<Rightarrow> stored_allocation \<Rightarrow> stored_allocation" where
  "reference_seen snapshot st =
     st\<lparr>st_output_seen := True, st_descriptor := (st_descriptor st)
       \<lparr>ra_reference_size_bytes := sa_size snapshot, ra_has_reference := sa_bytes_dumped snapshot\<rparr>\<rparr>"

definition reference_stored ::
  "memory_space_type \<Rightarrow> addr \<Rightarrow> stored_allocation \<Rightarrow> stored_allocation" where
  "reference_stored space ptr st =
     st\<lparr>st_reference := Some (space, ptr),
        st_descriptor := (st_descriptor st)\<lparr>ra_reference_data := ptr\<rparr>\<rparr>"

definition allocate_output ::
  "'o platform \<Rightarrow> nat \<Rightarrow> nat \<Rightarrow> snapshot_allocation \<Rightarrow> byte list option \<Rightarrow> ('w, 'o, unit) replay_prog"
where
  "allocate_output pf g slot snapshot data =
     and_then (reading (\<lambda>s. snd (sg_allocations (guard_of g s) ! slot))) (\<lambda>st.
     if st_output_seen st \<or> ra_label (st_descriptor st) \<noteq> sa_label snapshot
     then throw (Std_Exception
       (''Duplicate or inconsistent output allocation '' @ quoted (sa_label snapshot)))
     else and_then (on_stored g slot (reference_seen snapshot)) (\<lambda>_.
       case data of
         None \<Rightarrow> done_with ()
       | Some bytes \<Rightarrow>
           let space = memory_space_type_from_string (sa_space snapshot) in
           and_then
             (if space = HOST
              then on_machine (regular_host_allocate pf (sa_size snapshot) bytes)
              else if \<not> has_device_space (pf_backend pf)
              then throw (Std_Exception
                ''Trying to access device allocations but no device space is enabled'')
              else on_machine (regular_device_allocate pf (sa_size snapshot) bytes))
             (\<lambda>ptr. on_stored g slot (reference_stored space ptr))))"

definition allocate_wrapper ::
  "'o platform \<Rightarrow> nat \<Rightarrow> allocation_index \<Rightarrow> snapshot_allocation \<Rightarrow> byte list option \<Rightarrow> unit \<Rightarrow>
   ('w, 'o, unit) replay_prog"
where
  "allocate_wrapper pf g index entry data u =
     (case index (sa_allocation_id entry, sa_space entry) of
        None \<Rightarrow> throw (Std_Exception
          (''Output allocation '' @ quoted (sa_label entry) @ '' has no matching input allocation''))
      | Some slot \<Rightarrow> allocate_output pf g slot entry data)"

section \<open>Metadata, functor and policy\<close>

text \<open>\<open>insert\<close> keeps an entry the map already has.\<close>

definition insert_metadata :: "string \<Rightarrow> string \<Rightarrow> ('w, 'o, unit) replay_prog" where
  "insert_metadata name text =
     update (\<lambda>s. if rp_metadata s name = None then s\<lparr>rp_metadata := (rp_metadata s)(name \<mapsto> text)\<rparr> else s)"

text \<open>A read that fails leaves the vector with the new size.\<close>

definition read_functor_from_hdf5 ::
  "('w \<times> 'o replayer) hdf5 \<Rightarrow> replay_build \<Rightarrow> hid \<Rightarrow> ('w, 'o, unit) replay_prog" where
  "read_functor_from_hdf5 api rb file =
     and_then (asserted_dataset_info api file ''functor/functor'' 1) (\<lambda>dim.
     and_then (update (\<lambda>s. s\<lparr>rp_functor_data := resize dim (rp_functor_data s)\<rparr>)) (\<lambda>_.
     and_then (read_uchars api file ''functor/functor'') (\<lambda>bytes.
     and_then (update (\<lambda>s. s\<lparr>rp_functor_data := bytes\<rparr>)) (\<lambda>_.
     if \<not> rb_nvcc_hdl_workaround rb then done_with ()
     else
       and_then (asserted_dataset_info api file ''functor/nvcc_inner_lambda'' 1) (\<lambda>dim.
       and_then (update (\<lambda>s. s\<lparr>rp_nvcc_data := resize dim (rp_nvcc_data s)\<rparr>)) (\<lambda>_.
       and_then (read_uchars api file ''functor/nvcc_inner_lambda'') (\<lambda>bytes.
       update (\<lambda>s. s\<lparr>rp_nvcc_data := bytes\<rparr>))))))))"

definition read_policy_from_hdf5 ::
  "('w \<times> 'o replayer) hdf5 \<Rightarrow> replay_build \<Rightarrow> hid \<Rightarrow> ('w, 'o, unit) replay_prog" where
  "read_policy_from_hdf5 api rb file =
     and_then (get_hdf5_string_attribute api file ''policy'' ''type'') (\<lambda>ty.
     and_then (update (\<lambda>s. s\<lparr>rp_policy := Some Replay_None\<rparr>)) (\<lambda>_.
     and_then (read_policy_of_type api rb file ty) (\<lambda>policy.
     update (\<lambda>s. s\<lparr>rp_policy := Some policy\<rparr>))))"

section \<open>The constructor\<close>

text \<open>One kind of memory: the pages the captured allocations need, then the mappings.\<close>

definition restore_pages ::
  "('w \<times> 'o replayer) hdf5 \<Rightarrow> replay_build \<Rightarrow> 'o platform \<Rightarrow> nat \<Rightarrow> memory_space_type \<Rightarrow> hid \<Rightarrow>
   ('w, 'o, unit) replay_prog"
where
  "restore_pages api rb pf g space file =
     and_then (iterate_allocations api file ''in/views''
       (get_hdf5_dataset_alloc_info api rb (pf_pagesize pf) (pf_granularity pf) space) []) (\<lambda>locs.
     for_each (guard_allocate pf g space) (compute_allocations locs))"

text \<open>The group \<open>out\<close> and its views may be missing.\<close>

definition check_link :: "('w \<times> 'o replayer) hdf5 \<Rightarrow> hid \<Rightarrow> string \<Rightarrow> ('w, 'o, bool) replay_prog" where
  "check_link api file name ws =
     (let (status, ws') = H5Lexists api file name ws
      in and_then (check_call ''has_output'' status) (\<lambda>_. done_with (0 < status)) ws')"

definition restore_outputs ::
  "('w \<times> 'o replayer) hdf5 \<Rightarrow> 'o platform \<Rightarrow> nat \<Rightarrow> allocation_index \<Rightarrow> hid \<Rightarrow>
   ('w, 'o, unit) replay_prog"
where
  "restore_outputs api pf g index file =
     and_then (check_link api file ''out'') (\<lambda>has_output.
     and_then (if has_output then check_link api file ''out/views'' else done_with False) (\<lambda>has_output.
     if has_output
     then iterate_allocations api file ''out/views''
            (allocate_hdf5_dataset api (allocate_host_buffer pf) (allocate_wrapper pf g index)) ()
     else done_with ()))"

definition load_dump ::
  "('w \<times> 'o replayer) hdf5 \<Rightarrow> replay_build \<Rightarrow> 'o platform \<Rightarrow> nat \<Rightarrow> hid \<Rightarrow> ('w, 'o, unit) replay_prog"
where
  "load_dump api rb pf g file =
     and_then (restore_pages api rb pf g HOST file) (\<lambda>_.
     and_then (on_machine (device_init pf)) (\<lambda>_.
     and_then (restore_pages api rb pf g DEVICE file) (\<lambda>_.
     and_then (iterate_allocations api file ''in/views''
       (allocate_hdf5_dataset api (allocate_host_buffer pf) (copy_data_wrapper pf g)) Map.empty) (\<lambda>index.
     and_then (iterate_metadata api insert_metadata file) (\<lambda>_.
     and_then (read_functor_from_hdf5 api rb file) (\<lambda>_.
     and_then (read_policy_from_hdf5 api rb file) (\<lambda>_.
     restore_outputs api pf g index file)))))))"

text \<open>
  The arguments the constructor looks up.  The result is the dump's name, and the
  arguments that are left; a missing name is an exception after both look-ups.
\<close>

definition replay_arguments :: "nat \<Rightarrow> string list \<Rightarrow> bool \<times> string option \<times> nat \<times> string list" where
  "replay_arguments argc argv =
     (let (enable, argc1, argv1) = find_cli_flag argc argv ''--kernel-replayer-enable-input-reset'';
          (dump, argc2, argv2) = find_cli_option argc1 argv1 ''--kernel-replayer-dump''
      in (enable, dump, argc2, argv2))"

definition construct_body ::
  "('w \<times> 'o replayer) hdf5 \<Rightarrow> replay_build \<Rightarrow> 'o platform \<Rightarrow> nat \<Rightarrow> nat \<Rightarrow> string list \<Rightarrow>
   ('w, 'o, unit) replay_prog"
where
  "construct_body api rb pf g argc argv =
     and_then (reading rp_initialized) (\<lambda>initialized.
     if initialized
     then throw (Std_Exception
       ''Constructing a ScopeGuard but krepe has already been initialized'')
     else
       let (enable, dump, _, _) = replay_arguments argc argv in
       and_then (update (\<lambda>s. s\<lparr>rp_input_reset_enabled := enable\<rparr>)) (\<lambda>_.
       case dump of
         None \<Rightarrow> throw (Std_Exception
           ''The kernel replayer expects the flag --kernel-replayer-dump'')
       | Some hdf5_filename \<Rightarrow>
           and_then (scoped (CHECK_HDF5_ID ''H5Fopen'' (H5Fopen_rdonly api hdf5_filename))
             (H5Fclose api) (load_dump api rb pf g)) (\<lambda>_.
           update (\<lambda>s. s\<lparr>rp_replay_allocations := Some g, rp_initialized := True,
                         rp_scope_guard := Some g\<rparr>))))"

text \<open>
  The members, destroyed in the reverse of their declaration: the raw allocations (those
  of a device last declared), the references of the stored allocations, the snapshots.
\<close>

definition free_reference :: "'o platform \<Rightarrow> stored_allocation \<Rightarrow> ('o machine, unit) prog" where
  "free_reference pf st =
     (case st_reference st of
        None \<Rightarrow> done_with ()
      | Some (HOST, ptr) \<Rightarrow> os_do (\<lambda>os. ((), pf_free pf ptr os))
      | Some (DEVICE, ptr) \<Rightarrow> (\<lambda>m. case os_call (pf_device_free pf ptr) m of
            (Inl e, m') \<Rightarrow> (Inl Abort, m')
          | (Inr u, m') \<Rightarrow> (Inr u, m')))"

definition destroy_members :: "'o platform \<Rightarrow> scope_guard \<Rightarrow> ('o machine, unit) prog" where
  "destroy_members pf sg = run_all
     [for_each (destroy_allocation pf) (sg_device_raw sg),
      for_each (destroy_allocation pf) (sg_host_raw sg),
      for_each (free_reference pf) (List.map snd (sg_allocations sg))]"

definition delete_guard :: "'o platform \<Rightarrow> nat \<Rightarrow> ('w, 'o, unit) replay_prog" where
  "delete_guard pf g =
     and_then (reading (guard_of g)) (\<lambda>sg.
     and_then (on_machine (destroy_members pf sg)) (\<lambda>_.
     update (\<lambda>s. s\<lparr>rp_guards := (rp_guards s)(g := None)\<rparr>)))"

text \<open>
  \<open>ScopeGuard::ScopeGuard\<close>: a new object.  When the body throws, the members that were
  constructed are destroyed, and no guard exists.
\<close>

definition construct_ScopeGuard ::
  "('w \<times> 'o replayer) hdf5 \<Rightarrow> replay_build \<Rightarrow> 'o platform \<Rightarrow> nat \<Rightarrow> string list \<Rightarrow>
   ('w, 'o, nat) replay_prog"
where
  "construct_ScopeGuard api rb pf argc argv ws =
     (let g = rp_next_guard (snd ws);
          ws1 = snd (update (\<lambda>s. s\<lparr>rp_next_guard := Suc g, rp_guards := (rp_guards s)(g \<mapsto> empty_guard)\<rparr>) ws)
      in case construct_body api rb pf g argc argv ws1 of
           (Inr _, ws2) \<Rightarrow> (Inr g, ws2)
         | (Inl Abort, ws2) \<Rightarrow> (Inl Abort, ws2)
         | (Inl e, ws2) \<Rightarrow>
             (case delete_guard pf g ws2 of
                (Inl _, ws3) \<Rightarrow> (Inl Abort, ws3)
              | (Inr _, ws3) \<Rightarrow> (Inl e, ws3)))"

definition destroy_ScopeGuard :: "'o platform \<Rightarrow> nat \<Rightarrow> ('w, 'o, unit) replay_prog" where
  "destroy_ScopeGuard pf g =
     and_then (update (\<lambda>s. s
       \<lparr>rp_replay_allocations := (if rp_replay_allocations s = Some g then None else rp_replay_allocations s),
        rp_scope_guard := None\<rparr>)) (\<lambda>_.
     delete_guard pf g)"

section \<open>The interface\<close>

definition initialize ::
  "('w \<times> 'o replayer) hdf5 \<Rightarrow> replay_build \<Rightarrow> 'o platform \<Rightarrow> nat \<Rightarrow> string list \<Rightarrow>
   ('w, 'o, unit) replay_prog"
where
  "initialize api rb pf argc argv =
     and_then (reading rp_initialized) (\<lambda>initialized.
     if initialized
     then throw (Std_Exception
       ''Trying to initialize krepe, but it has already been initialized'')
     else and_then (construct_ScopeGuard api rb pf argc argv) (\<lambda>g.
       update (\<lambda>s. s\<lparr>rp_internal_guard := Some g\<rparr>)))"

definition finalize :: "'o platform \<Rightarrow> ('w, 'o, unit) replay_prog" where
  "finalize pf =
     and_then (reading (\<lambda>s. s)) (\<lambda>s.
     if \<not> rp_initialized s
     then throw (Std_Exception ''Trying to finalize krepe, but it has not been initialized'')
     else case rp_internal_guard s of
       None \<Rightarrow>
         if rp_scope_guard s \<noteq> None
         then throw (Std_Exception
           ''Trying to call krepe::finalize, but krepe has been initialized by a ScopeGuard'')
         else throw (Std_Exception
           ''Trying to call krepe::finalize, but krepe has already been finalized'')
     | Some g \<Rightarrow>
         and_then (update (\<lambda>s. s\<lparr>rp_internal_guard := None\<rparr>)) (\<lambda>_. destroy_ScopeGuard pf g))"

text \<open>
  \<open>ScopeGuard::reset_inputs\<close> and \<open>krepe::reset_inputs\<close>; whether Kokkos runs is the
  caller's.  The fences change nothing here.
\<close>

definition guard_reset_inputs :: "'o platform \<Rightarrow> bool \<Rightarrow> nat \<Rightarrow> ('w, 'o, unit) replay_prog" where
  "guard_reset_inputs pf kokkos_runs g =
     and_then (reading (\<lambda>s. (rp_input_reset_enabled s, guard_of g s))) (\<lambda>(enabled, sg).
     if \<not> enabled
     then throw (Std_Exception
       (''Input reset must be enabled via the --kernel-replayer-enable-input-reset flag '' @
        ''in order to be able to call krepe::reset_inputs()''))
     else if \<not> kokkos_runs
     then throw (Std_Exception
       ''reset_inputs can be called only inside Kokkos execution environment'')
     else on_machine (for_each (\<lambda>input. copy_data pf (is_memory_space input) (is_address input)
       (is_data input)) (sg_inputs sg)))"

definition reset_inputs :: "'o platform \<Rightarrow> bool \<Rightarrow> ('w, 'o, unit) replay_prog" where
  "reset_inputs pf kokkos_runs =
     and_then (reading rp_scope_guard) (\<lambda>g.
     case g of
       None \<Rightarrow> throw (Std_Exception ''krepe::reset_inputs(): krepe is not initialized'')
     | Some g \<Rightarrow> guard_reset_inputs pf kokkos_runs g)"

definition get_metadata :: "'o replayer \<Rightarrow> string \<Rightarrow> string option" where
  "get_metadata s key = rp_metadata s key"

end
