(* ===== verification/Replay_Logic.thy ===== *)
theory Replay_Logic
  imports Dump_Roundtrip Replayer
begin

text \<open>
  A small program logic for total correctness of the replayer: what a computation on the
  state of \<open>Replayer\<close> achieves when the library looks in a given way, for sequences, loops
  and the blocks that open the file, a group or its attributes.
\<close>

section \<open>A program logic\<close>

text \<open>
  \<open>achieves view v s m P\<close>: when the library looks like \<open>v\<close> and the program's state is
  \<open>s\<close>, \<open>m\<close> succeeds, leaves the library as it was, and the result and the new state
  satisfy \<open>P\<close>.
\<close>

definition achieves ::
  "('w \<Rightarrow> 'x h5view_scheme) \<Rightarrow> 'x h5view_scheme \<Rightarrow> 'o replayer \<Rightarrow> ('w, 'o, 'a) replay_prog \<Rightarrow>
   ('a \<Rightarrow> 'o replayer \<Rightarrow> bool) \<Rightarrow> bool"
where
  "achieves view v s m P \<longleftrightarrow>
     (\<forall>w. view w = v \<longrightarrow> (\<exists>x w' s'. m (w, s) = (Inr x, (w', s')) \<and> view w' = v \<and> P x s'))"

lemma achievesD:
  assumes "achieves view v s m P" and "view w = v"
  obtains x w' s' where "m (w, s) = (Inr x, (w', s'))" and "view w' = v" and "P x s'"
  using assms unfolding achieves_def by blast

lemma achievesI:
  "(\<And>w. view w = v \<Longrightarrow> \<exists>x w' s'. m (w, s) = (Inr x, (w', s')) \<and> view w' = v \<and> P x s') \<Longrightarrow>
     achieves view v s m P"
  by (simp add: achieves_def)

lemma achieves_mono:
  "achieves view v s m P \<Longrightarrow> (\<And>x s'. P x s' \<Longrightarrow> Q x s') \<Longrightarrow> achieves view v s m Q"
  unfolding achieves_def by blast

lemma achieves_yields:
  assumes "yields (beside_view view) (with_state v s) m x" and "P x s"
  shows "achieves view v s m P"
proof (rule achievesI)
  fix w assume "view w = v"
  then have "beside_view view (w, s) = with_state v s" by (simp add: beside_view_def)
  then obtain ws' where "m (w, s) = (Inr x, ws')" and "beside_view view ws' = with_state v s"
    using yieldsD [OF assms(1)] by blast
  then show "\<exists>x w' s'. m (w, s) = (Inr x, (w', s')) \<and> view w' = v \<and> P x s'"
    using assms(2) by (cases ws') (auto simp: beside_view_def)
qed

lemma achieves_and_then:
  assumes "achieves view v s m P" and "\<And>x s'. P x s' \<Longrightarrow> achieves view v s' (k x) Q"
  shows "achieves view v s (and_then m k) Q"
proof (rule achievesI)
  fix w assume "view w = v"
  with assms(1) obtain x w1 s1 where 1: "m (w, s) = (Inr x, (w1, s1))" "view w1 = v" "P x s1"
    by (rule achievesD)
  from assms(2) [OF 1(3)] 1(2) obtain y w2 s2 where "k x (w1, s1) = (Inr y, (w2, s2))" "view w2 = v" "Q y s2"
    by (rule achievesD)
  with 1 show "\<exists>x w' s'. and_then m k (w, s) = (Inr x, (w', s')) \<and> view w' = v \<and> Q x s'"
    by (simp add: and_then_def)
qed

lemma achieves_done: "P x s \<Longrightarrow> achieves view v s (done_with x) P"
  by (simp add: achieves_def done_with_run)

lemma achieves_update: "P () (f s) \<Longrightarrow> achieves view v s (update f) P"
  by (simp add: achieves_def update_def)

lemma achieves_reading: "P (f s) s \<Longrightarrow> achieves view v s (reading f) P"
  by (simp add: achieves_def reading_def)

lemma achieves_machine:
  "m (rp_machine s) = (Inr x, mc) \<Longrightarrow> P x (s\<lparr>rp_machine := mc\<rparr>) \<Longrightarrow> achieves view v s (on_machine m) P"
  by (simp add: achieves_def on_machine_def)

lemma achieves_on_guard:
  "rp_guards s g = Some sg \<Longrightarrow> P () (s\<lparr>rp_guards := (rp_guards s)(g \<mapsto> f sg)\<rparr>) \<Longrightarrow>
     achieves view v s (on_guard g f) P"
  unfolding on_guard_def by (rule achieves_update) simp

text \<open>A loop with an invariant on the elements that are done.\<close>

lemma achieves_fold_each:
  assumes step: "\<And>ys x zs t s. xs = ys @ x # zs \<Longrightarrow> I ys t s \<Longrightarrow>
      achieves view v s (f x t) (I (ys @ [x]))"
    and start: "I [] t s"
  shows "achieves view v s (fold_each f xs t) (I xs)"
proof -
  have "achieves view v s (fold_each f zs t) (I xs)" if "I ys t s" "xs = ys @ zs" for ys zs t s
    using that
  proof (induction zs arbitrary: ys t s)
    case Nil
    then show ?case by (simp add: achieves_done)
  next
    case (Cons x zs)
    show ?case
      unfolding fold_each.simps
    proof (rule achieves_and_then [OF step [OF Cons.prems(2,1)]])
      fix t' s' assume "I (ys @ [x]) t' s'"
      then show "achieves view v s' (fold_each f zs t') (I xs)"
        by (rule Cons.IH) (simp add: Cons.prems(2))
    qed
  qed
  then show ?thesis using start by (metis append_Nil)
qed

lemma achieves_for_each:
  assumes step: "\<And>ys x zs s. xs = ys @ x # zs \<Longrightarrow> I ys s \<Longrightarrow> achieves view v s (f x) (\<lambda>_. I (ys @ [x]))"
    and start: "I [] s"
  shows "achieves view v s (for_each f xs) (\<lambda>_. I xs)"
proof -
  have "achieves view v s (for_each f zs) (\<lambda>_. I xs)" if "I ys s" "xs = ys @ zs" for ys zs s
    using that
  proof (induction zs arbitrary: ys s)
    case Nil
    then show ?case by (simp add: achieves_done)
  next
    case (Cons x zs)
    show ?case
      unfolding for_each.simps
    proof (rule achieves_and_then [OF step [OF Cons.prems(2,1)]])
      fix u s' assume "I (ys @ [x]) s'"
      then show "achieves view v s' (for_each f zs) (\<lambda>_. I xs)"
        by (rule Cons.IH) (simp add: Cons.prems(2))
    qed
  qed
  then show ?thesis using start by (metis append_Nil)
qed

section \<open>Blocks of the library\<close>

context hdf5_reader
begin

lemma achieves_iterate:
  assumes l: "place v root = Some (f, p)" and F: "h5_disk v f = Some F"
    and grp: "p @ split_path path \<in> fl_groups F"
    and body: "\<And>i ns. h5_refs v i = None \<Longrightarrow> distinct ns \<Longrightarrow> set ns = children F (p @ split_path path) \<Longrightarrow>
      achieves view (new_ref i (Group_Ref f (p @ split_path path)) v) s (fold_each (callback i) ns t) P"
  shows "achieves view v s (iterate_allocations (api_beside api) root path callback t) P"
proof (rule achievesI)
  fix w assume w: "view w = v"
  let ?r = "Group_Ref f (p @ split_path path)"
  have open_call: "\<exists>i w'. H5Literate_open api root path w = (i, w') \<and> 0 \<le> i \<and> view w' = new_ref i ?r v"
    if "view w = v" for w
    using Literate_open [of w root f p F path] l F grp that by simp
  obtain i w1 where 1: "H5Literate_open api root path w = (i, w1)" "0 \<le> i" "view w1 = new_ref i ?r v"
    using open_call [OF w] by blast
  have none: "h5_refs v i = None"
    using opensD(1) [OF opens_calls(12) 1(1,2)] w by (simp add: handle_kinds_def)
  let ?ns = "H5Literate_names api i w1"
  have "place (view w1) i = Some (f, p @ split_path path)" by (simp add: 1(3) place_def)
  then have ns: "distinct ?ns" "set ?ns = children F (p @ split_path path)"
    using Literate_names [of w1 i f _ F] F by (simp_all add: 1(3))
  from body [OF none ns] 1(3) obtain x w2 s' where
    2: "fold_each (callback i) ?ns t (w1, s) = (Inr x, (w2, s'))" "view w2 = new_ref i ?r v" "P x s'"
    by (rule achievesD)
  have "view (snd (H5Gclose api i w2)) = v"
    using closing(5) [of w2 i] by (simp add: 2(2) drop_new_ref none)
  moreover have "iterate_allocations (api_beside api) root path callback t (w, s) =
      (Inr x, (snd (H5Gclose api i w2), s'))"
    using 1 2 by (simp add: iterate_allocations_def api_beside_def beside_def destroy_handle_def
        case_prod_beta)
  ultimately show "\<exists>x w' s'. iterate_allocations (api_beside api) root path callback t (w, s) =
      (Inr x, (w', s')) \<and> view w' = v \<and> P x s'"
    using 2(3) by blast
qed

lemma achieves_iterate_metadata:
  assumes l: "place v root = Some (f, [])" and F: "h5_disk v f = Some F"
    and grp: "[''metadata''] \<in> fl_groups F"
    and body: "\<And>i ns. h5_refs v i = None \<Longrightarrow> distinct ns \<Longrightarrow> set ns = dom (fl_attrs F [''metadata'']) \<Longrightarrow>
      achieves view (new_ref i (Group_Ref f [''metadata'']) v) s
        (for_each (read_hdf5_metadata (api_beside api) insert_entry i) ns) P"
  shows "achieves view v s (iterate_metadata (api_beside api) insert_entry root) P"
proof (rule achievesI)
  fix w assume w: "view w = v"
  let ?r = "Group_Ref f [''metadata'']"
  obtain i w1 where 1: "H5Literate_open api root ''metadata'' w = (i, w1)" "0 \<le> i" "view w1 = new_ref i ?r v"
    using Literate_open [of w root f "[]" F "''metadata''"] l F grp w by auto
  have none: "h5_refs v i = None"
    using opensD(1) [OF opens_calls(12) 1(1,2)] w by (simp add: handle_kinds_def)
  let ?ns = "H5Aiterate_names api i w1"
  have "place (view w1) i = Some (f, [''metadata''])" by (simp add: 1(3) place_def)
  then have ns: "distinct ?ns" "set ?ns = dom (fl_attrs F [''metadata''])"
    using Aiterate_names [of w1 i f _ F] F by (simp_all add: 1(3))
  from body [OF none ns] 1(3) obtain x w2 s' where
    2: "for_each (read_hdf5_metadata (api_beside api) insert_entry i) ?ns (w1, s) = (Inr x, (w2, s'))"
      "view w2 = new_ref i ?r v" "P x s'"
    by (rule achievesD)
  have "view (snd (H5Gclose api i w2)) = v"
    using closing(5) [of w2 i] by (simp add: 2(2) drop_new_ref none)
  moreover have "iterate_metadata (api_beside api) insert_entry root (w, s) =
      (Inr x, (snd (H5Gclose api i w2), s'))"
    using 1 2 by (simp add: iterate_metadata_def api_beside_def beside_def destroy_handle_def
        case_prod_beta)
  ultimately show "\<exists>x w' s'. iterate_metadata (api_beside api) insert_entry root (w, s) =
      (Inr x, (w', s')) \<and> view w' = v \<and> P x s'"
    using 2(3) by blast
qed

lemma achieves_open_file:
  assumes F: "h5_disk v fn \<noteq> None"
    and body: "\<And>i. h5_refs v i = None \<Longrightarrow> achieves view (new_ref i (File_Ref fn) v) s (body i) P"
  shows "achieves view v s (scoped (CHECK_HDF5_ID e (H5Fopen_rdonly (api_beside api) fn))
    (H5Fclose (api_beside api)) body) P"
proof (rule achievesI)
  fix w assume w: "view w = v"
  obtain i w1 where 1: "H5Fopen_rdonly api fn w = (i, w1)" "0 \<le> i" "view w1 = new_ref i (File_Ref fn) v"
    using Fopen_rdonly [of w fn] F w by auto
  have none: "h5_refs v i = None"
    using opensD(1) [OF opens_calls(11) 1(1,2)] w by (simp add: handle_kinds_def)
  from body [OF none] 1(3) obtain x w2 s' where
    2: "body i (w1, s) = (Inr x, (w2, s'))" "view w2 = new_ref i (File_Ref fn) v" "P x s'"
    by (rule achievesD)
  obtain st w3 where 3: "H5Fclose api i w2 = (st, w3)" by fastforce
  have k: "handle_kinds (view w2) i = Some File_Kind" by (simp add: 2(2))
  have "0 \<le> st" using closesD [OF closes_calls(6) 3] k by simp
  moreover have "view w3 = v"
    using closing(6) [OF k] 3 by (simp add: 2(2) drop_new_ref none)
  ultimately show "\<exists>x w' s'. scoped (CHECK_HDF5_ID e (H5Fopen_rdonly (api_beside api) fn))
      (H5Fclose (api_beside api)) body (w, s) = (Inr x, (w', s')) \<and> view w' = v \<and> P x s'"
    using 1 2 3
    by (simp add: scoped_def and_then_def CHECK_HDF5_ID_def check_id_def prog_simps api_beside_def
        beside_def close_checked_def CHECK_HDF5_CALL_def check_call_def destroy_handle_def
        H5I_INVALID_HID_def)
qed

end

end
