(* ===== verification/Replay_Restore.thy ===== *)
theory Replay_Restore
  imports Allocation_Roundtrip Replay_Logic "HOL-Library.Multiset"
begin

text \<open>
  Total correctness of the constructor of \<open>ScopeGuard\<close> on a dump the capture tool wrote: the
  passes of the constructor over the captured allocations, in whatever order the library
  visits them.
\<close>

section \<open>Visiting the allocations\<close>

text \<open>Names that are visited once each are the names of a permutation.\<close>

lemma visited_permutation:
  assumes "distinct ns" and "set ns = fst ` set xs" and "distinct (List.map fst xs)"
  obtains ps where "ns = List.map fst ps" and "mset ps = mset xs"
proof
  let ?ps = "List.map (\<lambda>n. (n, the (map_of xs n))) ns"
  show "ns = List.map fst ?ps" by (simp add: comp_def)
  have "(n, the (map_of xs n)) \<in> set xs" if "n \<in> fst ` set xs" for n
    using that assms(3) by (auto simp: map_of_eq_Some_iff)
  moreover have "(n, a) \<in> set ?ps" if "(n, a) \<in> set xs" for n a
  proof -
    have "map_of xs n = Some a" using that assms(3) by simp
    then show ?thesis using assms(2) that by force
  qed
  ultimately have "set ?ps = set xs" using assms(2) by auto
  moreover have "distinct ?ps" using assms(1) by (simp add: distinct_map inj_on_def)
  moreover have "distinct xs" using assms(3) by (simp add: distinct_map)
  ultimately show "mset ?ps = mset xs" using set_eq_iff_mset_eq_distinct by blast
qed

text \<open>Spaces, ranges of data and pages of a captured allocation.\<close>

definition space_of :: "active_allocation \<Rightarrow> memory_space_type" where
  "space_of a = memory_space_type_from_string (ar_space (aa_record a))"

definition has_data :: "memory_space_type \<Rightarrow> active_allocation \<Rightarrow> bool" where
  "has_data space a \<longleftrightarrow> space_of a = space \<and> ar_size (aa_record a) \<noteq> 0"

definition pages_of :: "replay_build \<Rightarrow> 'o platform \<Rightarrow> active_allocation \<Rightarrow> exn + region" where
  "pages_of rb pf a = get_allocation_address (rb_backend rb) (pf_pagesize pf) (pf_granularity pf)
     (ar_p_data (aa_record a)) (ar_size (aa_record a)) (space_of a)"

definition page_ranges ::
  "replay_build \<Rightarrow> 'o platform \<Rightarrow> memory_space_type \<Rightarrow> active_allocation set \<Rightarrow> region list" where
  "page_ranges rb pf space S =
     sorted_list_of_set {r. \<exists>a \<in> S. has_data space a \<and> pages_of rb pf a = Inr r}"

lemma set_insert_sorted:
  assumes "finite A"
  shows "set_insert r (sorted_list_of_set A) = sorted_list_of_set (insert r A)"
proof (cases "r \<in> A")
  case True
  then show ?thesis using assms by (simp add: set_insert_def insort_insert_key_def insert_absorb)
next
  case False
  then show ?thesis using assms by (simp add: set_insert_def insort_insert_key_def)
qed

lemma page_ranges_insert:
  assumes "finite S"
  shows "page_ranges rb pf space (insert a S) =
    (if has_data space a
     then (case pages_of rb pf a of Inl e \<Rightarrow> page_ranges rb pf space S
           | Inr r \<Rightarrow> set_insert r (page_ranges rb pf space S))
     else page_ranges rb pf space S)"
proof -
  let ?R = "\<lambda>S. {r. \<exists>a \<in> S. has_data space a \<and> pages_of rb pf a = Inr r}"
  have "?R S \<subseteq> projr ` pages_of rb pf ` S" by force
  then have "finite (?R S)" by (rule finite_subset) (simp add: assms)
  moreover have "?R (insert a S) = (if has_data space a
      then (case pages_of rb pf a of Inl e \<Rightarrow> ?R S | Inr r \<Rightarrow> insert r (?R S)) else ?R S)"
    by (auto split: sum.split)
  ultimately show ?thesis by (simp add: page_ranges_def set_insert_sorted split: sum.split)
qed

lemma page_ranges_empty: "page_ranges rb pf space {} = []"
  by (simp add: page_ranges_def)

text \<open>What a pass over the allocations relies on, for each of them.\<close>

definition loadable ::
  "capture_build \<Rightarrow> capture_env \<Rightarrow> h5file \<Rightarrow> h5path \<Rightarrow> string \<Rightarrow> active_allocation \<Rightarrow> bool" where
  "loadable b env F p n a \<longleftrightarrow>
     stored_allocation b env F (p @ [n]) a \<and> (\<exists>bytes. fully_dumped b env a bytes) \<and>
     split_path n = [n] \<and> split_path (n @ ''/bytes'') = [n, ''bytes'']"

context hdf5_reader
begin

lemma yields_alloc_info:
  assumes l: "place v grp = Some (f, p)" and F: "h5_disk v f = Some F"
    and st: "stored_allocation b env F (p @ [n]) a" and d: "fully_dumped b env a bytes"
    and n: "split_path n = [n]" "split_path (n @ ''/bytes'') = [n, ''bytes'']"
    and pages: "has_data space a \<Longrightarrow> pages_of rb pf a = Inr r"
  shows "yields view v (get_hdf5_dataset_alloc_info api rb (pf_pagesize pf) (pf_granularity pf) space
    grp n locs) (if has_data space a then set_insert r locs else locs)"
proof -
  let ?e = "captured_entry b env a"
  have sp: "memory_space_type_from_string (sa_space ?e) = space_of a"
    by (simp add: captured_entry_def space_of_def)
  note info = yields_allocation_info [OF l F st n(1)]
  show ?thesis
  proof (cases "space_of a = space")
    case False
    then have "\<not> has_data space a" by (simp add: has_data_def)
    then show ?thesis
      unfolding get_hdf5_dataset_alloc_info_def
      by (intro yields_and_then [OF info]) (simp add: sp False Let_def yields_done_with)
  next
    case True
    have sz: "sa_size ?e = ar_size (aa_record a)" "sa_address ?e = ar_p_data (aa_record a)"
      by (simp_all add: captured_entry_def)
    have check: "yields view v (check_byte_dataset api grp n (sa_size ?e)) ()"
      unfolding sz by (rule yields_check_bytes_stored(1) [OF l F st d n(2)])
    have rest: "yields view v (if sa_size ?e \<noteq> 0
         then (case get_allocation_address (rb_backend rb) (pf_pagesize pf) (pf_granularity pf)
                 (sa_address ?e) (sa_size ?e) space of
                 Inl e \<Rightarrow> throw e
               | Inr r \<Rightarrow> done_with (set_insert r locs))
         else done_with locs) (if has_data space a then set_insert r locs else locs)"
      using pages True by (auto simp: has_data_def sz pages_of_def yields_done_with)
    show ?thesis
      unfolding get_hdf5_dataset_alloc_info_def
      by (rule yields_and_then [OF info])
        (use True fully_dumped_entry [OF d] yields_and_then [OF check rest] in \<open>simp add: sp Let_def\<close>)
  qed
qed

lemma yields_alloc_infos:
  assumes l: "place v grp = Some (f, p)" and F: "h5_disk v f = Some F"
  shows "finite S \<Longrightarrow> list_all (\<lambda>(n, a). loadable b env F p n a \<and>
        (has_data space a \<longrightarrow> (\<exists>r. pages_of rb pf a = Inr r))) ps \<Longrightarrow>
    yields view v (fold_each (get_hdf5_dataset_alloc_info api rb (pf_pagesize pf)
      (pf_granularity pf) space grp) (List.map fst ps) (page_ranges rb pf space S))
    (page_ranges rb pf space (S \<union> snd ` set ps))"
proof (induction ps arbitrary: S)
  case Nil
  then show ?case by (simp add: yields_done_with)
next
  case (Cons x ps)
  obtain n a where x: "x = (n, a)" by fastforce
  have a: "loadable b env F p n a" "has_data space a \<longrightarrow> (\<exists>r. pages_of rb pf a = Inr r)"
    using Cons.prems(2) by (simp_all add: x)
  obtain bytes where bytes: "fully_dumped b env a bytes" using a(1) by (auto simp: loadable_def)
  define r where "r = (case pages_of rb pf a of Inr r \<Rightarrow> r | Inl e \<Rightarrow> Region 0 0)"
  have pages: "has_data space a \<Longrightarrow> pages_of rb pf a = Inr r" using a(2) by (auto simp: r_def)
  have eq: "(if has_data space a then set_insert r (page_ranges rb pf space S) else page_ranges rb pf space S)
      = page_ranges rb pf space (insert a S)"
    using pages by (simp add: page_ranges_insert Cons.prems(1))
  have "yields view v (get_hdf5_dataset_alloc_info api rb (pf_pagesize pf) (pf_granularity pf) space
      grp n (page_ranges rb pf space S)) (page_ranges rb pf space (insert a S))"
    unfolding eq [symmetric] using a(1) pages by (intro yields_alloc_info [OF l F _ bytes]) (simp_all add: loadable_def)
  moreover have "yields view v (fold_each (get_hdf5_dataset_alloc_info api rb (pf_pagesize pf)
      (pf_granularity pf) space grp) (List.map fst ps) (page_ranges rb pf space (insert a S)))
      (page_ranges rb pf space (insert a S \<union> snd ` set ps))"
    using Cons.prems by (intro Cons.IH) simp_all
  ultimately show ?case by (simp add: x yields_and_then)
qed

end

section \<open>Mapping the pages\<close>

text \<open>The objects the system grants for a list of ranges, and the machine then; or nothing.\<close>

fun map_pages ::
  "'o platform \<Rightarrow> memory_space_type \<Rightarrow> region list \<Rightarrow> 'o machine \<Rightarrow> (allocation_object list \<times> 'o machine) option"
where
  "map_pages pf space [] m = Some ([], m)"
| "map_pages pf space (r # rs) m =
     (case construct_allocation pf space (base r) (len r) m of
        (Inl e, m') \<Rightarrow> None
      | (Inr a, m') \<Rightarrow> map_option (\<lambda>(objects, m''). (a # objects, m'')) (map_pages pf space rs m'))"

definition add_raw :: "memory_space_type \<Rightarrow> allocation_object list \<Rightarrow> scope_guard \<Rightarrow> scope_guard" where
  "add_raw space objects sg =
     (if space = HOST then sg\<lparr>sg_host_raw := sg_host_raw sg @ objects\<rparr>
      else sg\<lparr>sg_device_raw := sg_device_raw sg @ objects\<rparr>)"

text \<open>The state with another machine and another guard.\<close>

definition moved_to :: "nat \<Rightarrow> 'o machine \<Rightarrow> scope_guard \<Rightarrow> 'o replayer \<Rightarrow> 'o replayer" where
  "moved_to g mc sg s = s\<lparr>rp_machine := mc, rp_guards := (rp_guards s)(g \<mapsto> sg)\<rparr>"

lemma moved_to_simps [simp]:
  "moved_to g mc' sg' (moved_to g mc sg s) = moved_to g mc' sg' s"
  "rp_machine (moved_to g mc sg s) = mc" "rp_guards (moved_to g mc sg s) g = Some sg"
  "guard_of g (moved_to g mc sg s) = sg"
  "rp_input_reset_enabled (moved_to g mc sg s) = rp_input_reset_enabled s"
  "rp_metadata (moved_to g mc sg s) = rp_metadata s"
  by (simp_all add: moved_to_def guard_of_def)

lemma moved_to_same: "rp_guards s g = Some sg \<Longrightarrow> moved_to g (rp_machine s) sg s = s"
  by (simp add: moved_to_def fun_upd_idem)

lemma achieves_moved_machine:
  "m mc = (Inr x, mc') \<Longrightarrow> P x (moved_to g mc' sg s) \<Longrightarrow>
     achieves view v (moved_to g mc sg s) (on_machine m) P"
  by (cases s) (simp add: achieves_def on_machine_def moved_to_def)

lemma achieves_moved_guard:
  "P () (moved_to g mc (f sg) s) \<Longrightarrow> achieves view v (moved_to g mc sg s) (on_guard g f) P"
  by (rule achieves_on_guard [where sg = sg]) (simp_all add: moved_to_def)

lemma add_raw_Nil [simp]: "add_raw space [] sg = sg"
  by (simp add: add_raw_def)

lemma add_raw_twice [simp]: "add_raw space bs (add_raw space as sg) = add_raw space (as @ bs) sg"
  by (simp add: add_raw_def)

lemma construct_allocation_device:
  "construct_allocation pf DEVICE a n m = (Inr x, m') \<Longrightarrow> has_device_space (pf_backend pf)"
  by (auto simp: construct_allocation_def and_then_def throw_def split: if_splits)

lemma achieves_guard_allocate:
  assumes "construct_allocation pf space (base r) (len r) mc = (Inr a, mc')"
    and "P () (moved_to g mc' (add_raw space [a] sg) s)"
  shows "achieves view v (moved_to g mc sg s) (guard_allocate pf g space r) P"
proof (cases space)
  case HOST
  then show ?thesis
    using assms by (auto simp: guard_allocate_def add_raw_def
      intro!: achieves_and_then [OF achieves_moved_machine [where P = "\<lambda>x s'. x = a \<and> s' = moved_to g mc' sg s"]]
        achieves_moved_guard)
next
  case DEVICE
  have "has_device_space (pf_backend pf)"
    using assms(1) unfolding DEVICE by (rule construct_allocation_device)
  with DEVICE show ?thesis
    using assms by (auto simp: guard_allocate_def add_raw_def
      intro!: achieves_and_then [OF achieves_moved_machine [where P = "\<lambda>x s'. x = a \<and> s' = moved_to g mc' sg s"]]
        achieves_moved_guard)
qed

lemma achieves_guard_allocations:
  "map_pages pf space rs mc = Some (objects, mc') \<Longrightarrow>
   achieves view v (moved_to g mc sg s) (for_each (guard_allocate pf g space) rs)
     (\<lambda>_ s'. s' = moved_to g mc' (add_raw space objects sg) s)"
proof (induction rs arbitrary: mc sg objects)
  case Nil
  then show ?case by (auto intro: achieves_done)
next
  case (Cons r rs)
  obtain a m1 as where 1: "construct_allocation pf space (base r) (len r) mc = (Inr a, m1)"
      "map_pages pf space rs m1 = Some (as, mc')" "objects = a # as"
    using Cons.prems by (auto split: prod.splits sum.splits)
  show ?case
    unfolding for_each.simps
  proof (rule achieves_and_then [OF achieves_guard_allocate [OF 1(1),
      where P = "\<lambda>_ s'. s' = moved_to g m1 (add_raw space [a] sg) s"]])
    fix u s' assume "s' = moved_to g m1 (add_raw space [a] sg) s"
    then show "achieves view v s' (for_each (guard_allocate pf g space) rs)
        (\<lambda>_ s'. s' = moved_to g mc' (add_raw space objects sg) s)"
      using Cons.IH [OF 1(2), of "add_raw space [a] sg"] by (simp add: 1(3))
  qed simp
qed

text \<open>What the passes rely on of the file and of the library's view.\<close>

definition captured_group ::
  "capture_build \<Rightarrow> capture_env \<Rightarrow> 'x h5view_scheme \<Rightarrow> hid \<Rightarrow> string \<Rightarrow> h5file \<Rightarrow> string \<Rightarrow>
   (string \<times> active_allocation) list \<Rightarrow> bool"
where
  "captured_group b env v root f F n xs \<longleftrightarrow>
     place v root = Some (f, []) \<and> h5_disk v f = Some F \<and> [n, ''views''] \<in> fl_groups F \<and>
     children F [n, ''views''] = fst ` set xs \<and> distinct (List.map fst xs) \<and>
     list_all (\<lambda>(m, a). loadable b env F [n, ''views''] m a) xs"

lemma list_all_permuted: "mset ps = mset xs \<Longrightarrow> list_all P ps = list_all P xs"
  by (metis list_all_iff set_mset_mset)

context hdf5_reader
begin

lemma achieves_captured:
  assumes c: "captured_group b env v root f F n xs" and path: "split_path path = [n, ''views'']"
    and body: "\<And>i ps. h5_refs v i = None \<Longrightarrow> mset ps = mset xs \<Longrightarrow>
      list_all (\<lambda>(m, a). loadable b env F [n, ''views''] m a) ps \<Longrightarrow>
      achieves view (new_ref i (Group_Ref f [n, ''views'']) v) s
        (fold_each (callback i) (List.map fst ps) t) P"
  shows "achieves view v s (iterate_allocations (api_beside api) root path callback t) P"
proof (rule achieves_iterate [where f = f and p = "[]" and F = F])
  fix i ns
  assume i: "h5_refs v i = None" and ns: "distinct ns" "set ns = children F ([] @ split_path path)"
  obtain ps where ps: "ns = List.map fst ps" "mset ps = mset xs"
    using visited_permutation [of ns xs] ns c by (auto simp: captured_group_def path)
  show "achieves view (new_ref i (Group_Ref f ([] @ split_path path)) v) s (fold_each (callback i) ns t) P"
    using body [OF i ps(2)] c by (simp add: ps path captured_group_def list_all_permuted [OF ps(2)])
qed (use c in \<open>simp_all add: captured_group_def path\<close>)

lemma achieves_restore_pages:
  assumes c: "captured_group b env v root f F ''in'' xs"
    and pages: "list_all (\<lambda>(m, a). has_data space a \<longrightarrow> (\<exists>r. pages_of rb pf a = Inr r)) xs"
    and maps: "map_pages pf space (compute_allocations (page_ranges rb pf space (snd ` set xs))) mc =
      Some (objects, mc')"
  shows "achieves view v (moved_to g mc sg s) (restore_pages (api_beside api) rb pf g space root)
    (\<lambda>_ s'. s' = moved_to g mc' (add_raw space objects sg) s)"
  unfolding restore_pages_def
proof (rule achieves_and_then)
  let ?s = "moved_to g mc sg s"
  show "achieves view v ?s (iterate_allocations (api_beside api) root ''in/views''
      (get_hdf5_dataset_alloc_info (api_beside api) rb (pf_pagesize pf) (pf_granularity pf) space) [])
      (\<lambda>locs s'. locs = page_ranges rb pf space (snd ` set xs) \<and> s' = ?s)"
  proof (rule achieves_captured [OF c])
    fix i ps
    assume i: "h5_refs v i = None" and ps: "mset ps = mset xs"
      and all: "list_all (\<lambda>(m, a). loadable b env F [''in'', ''views''] m a) ps"
    let ?v = "new_ref i (Group_Ref f [''in'', ''views'']) v"
    have l: "place (with_state ?v ?s) i = Some (f, [''in'', ''views''])"
      and d: "h5_disk (with_state ?v ?s) f = Some F"
      using c by (simp_all add: place_def captured_group_def)
    have ok: "list_all (\<lambda>(n, a). loadable b env F [''in'', ''views''] n a \<and>
        (has_data space a \<longrightarrow> (\<exists>r. pages_of rb pf a = Inr r))) ps"
      using all pages by (simp add: list_all_permuted [OF ps, symmetric]) (auto simp: list_all_iff)
    have "yields (beside_view view) (with_state ?v ?s)
        (fold_each (get_hdf5_dataset_alloc_info (api_beside api) rb (pf_pagesize pf) (pf_granularity pf)
          space i) (List.map fst ps) (page_ranges rb pf space {}))
        (page_ranges rb pf space ({} \<union> snd ` set ps))"
      by (rule hdf5_reader.yields_alloc_infos [OF reader_beside l d _ ok]) simp
    moreover have "set ps = set xs" using ps by (metis set_mset_mset)
    ultimately show "achieves view ?v ?s (fold_each (get_hdf5_dataset_alloc_info (api_beside api) rb
        (pf_pagesize pf) (pf_granularity pf) space i) (List.map fst ps) [])
        (\<lambda>locs s'. locs = page_ranges rb pf space (snd ` set xs) \<and> s' = ?s)"
      by (intro achieves_yields) (simp_all add: page_ranges_empty)
  qed simp
  show "\<And>locs s'. locs = page_ranges rb pf space (snd ` set xs) \<and> s' = ?s \<Longrightarrow>
      achieves view v s' (for_each (guard_allocate pf g space) (compute_allocations locs))
        (\<lambda>_ s'. s' = moved_to g mc' (add_raw space objects sg) s)"
    using achieves_guard_allocations [OF maps] by blast
qed

end

section \<open>Copying the captured bytes\<close>

text \<open>What one allocation adds to memory and to the guard.\<close>

definition captured_bytes :: "capture_build \<Rightarrow> capture_env \<Rightarrow> active_allocation \<Rightarrow> byte list" where
  "captured_bytes b env a = snd (copy_allocation_bytes b env a [])"

definition write_input ::
  "capture_build \<Rightarrow> capture_env \<Rightarrow> memory_space_type \<Rightarrow> active_allocation \<Rightarrow> memory \<Rightarrow> memory" where
  "write_input b env space a m =
     (if has_data space a then write_bytes (ar_p_data (aa_record a)) (captured_bytes b env a) m else m)"

definition stored_input :: "snapshot_allocation \<Rightarrow> memory_space_type \<times> stored_allocation" where
  "stored_input e =
     (memory_space_type_from_string (sa_space e),
      \<lparr>st_captured_allocation = sa_allocation_id e, st_descriptor = restored_descriptor e,
       st_output_seen = False, st_reference = None\<rparr>)"

definition kept_input :: "bool \<Rightarrow> snapshot_allocation \<Rightarrow> byte list \<Rightarrow> input_snapshot list" where
  "kept_input enabled e bytes =
     (if enabled \<and> sa_size e \<noteq> 0
      then [\<lparr>is_memory_space = memory_space_type_from_string (sa_space e), is_address = sa_address e,
             is_data = bytes\<rparr>]
      else [])"

definition add_input :: "bool \<Rightarrow> snapshot_allocation \<Rightarrow> byte list \<Rightarrow> scope_guard \<Rightarrow> scope_guard" where
  "add_input enabled e bytes sg =
     sg\<lparr>sg_inputs := sg_inputs sg @ kept_input enabled e bytes,
        sg_allocations := sg_allocations sg @ [stored_input e]\<rparr>"

abbreviation entry_key :: "snapshot_allocation \<Rightarrow> addr \<times> string" where
  "entry_key e \<equiv> (sa_allocation_id e, sa_space e)"

text \<open>The machine after the bytes of an entry were copied, if there are any.\<close>

definition copies_to ::
  "'o platform \<Rightarrow> snapshot_allocation \<Rightarrow> byte list \<Rightarrow> 'o machine \<Rightarrow> 'o machine \<Rightarrow> bool" where
  "copies_to pf e bytes mc mc' \<longleftrightarrow>
     (if sa_size e = 0 then mc' = mc
      else copy_data pf (memory_space_type_from_string (sa_space e)) (sa_address e) bytes mc = (Inr (), mc'))"

lemma achieves_copy_input:
  assumes "copies_to pf e bytes mc mc'" and "sa_size e \<noteq> 0"
    and "P () (moved_to g mc' (sg\<lparr>sg_inputs := sg_inputs sg @ kept_input (rp_input_reset_enabled s) e bytes\<rparr>) s)"
  shows "achieves view v (moved_to g mc sg s)
    (copy_input pf g (memory_space_type_from_string (sa_space e)) e (Some bytes)) P"
  unfolding copy_input_def option.case
proof (rule achieves_and_then)
  show "achieves view v (moved_to g mc sg s)
      (on_machine (copy_data pf (memory_space_type_from_string (sa_space e)) (sa_address e) bytes))
      (\<lambda>_ s'. s' = moved_to g mc' sg s)"
    by (rule achieves_moved_machine) (use assms in \<open>simp_all add: copies_to_def\<close>)
next
  fix u s' assume s': "s' = moved_to g mc' sg s"
  show "achieves view v s' (and_then (reading rp_input_reset_enabled) (\<lambda>enabled.
      if enabled then on_guard g (\<lambda>sg. sg\<lparr>sg_inputs := sg_inputs sg @
        [\<lparr>is_memory_space = memory_space_type_from_string (sa_space e), is_address = sa_address e,
          is_data = bytes\<rparr>]\<rparr>)
      else done_with ())) P"
    unfolding s'
    by (rule achieves_and_then [OF achieves_reading
          [where P = "\<lambda>x t. x = rp_input_reset_enabled s \<and> t = moved_to g mc' sg s"]])
      (use assms(2,3) in \<open>auto simp: kept_input_def intro: achieves_moved_guard achieves_done\<close>)
qed

lemma copy_data_wrapper_accepts:
  assumes "sa_bytes_dumped e" and "index (entry_key e) = None"
  shows "copy_data_wrapper pf g e data index =
      and_then (if sa_size e \<noteq> 0
        then copy_input pf g (memory_space_type_from_string (sa_space e)) e data else done_with ())
      (\<lambda>_. and_then (reading (\<lambda>s. length (sg_allocations (guard_of g s)))) (\<lambda>slot.
       and_then (on_guard g (\<lambda>sg. sg\<lparr>sg_allocations := sg_allocations sg @ [stored_input e]\<rparr>)) (\<lambda>_.
       done_with (index(entry_key e \<mapsto> slot)))))"
  using assms by (simp add: copy_data_wrapper_def Let_def stored_input_def)

lemma achieves_copy_data_wrapper:
  assumes copies: "copies_to pf e bytes mc mc'" and dumped: "sa_bytes_dumped e"
    and new: "index (entry_key e) = None"
    and data: "data = (if sa_size e = 0 then None else Some bytes)"
    and post: "P (index(entry_key e \<mapsto> length (sg_allocations sg)))
      (moved_to g mc' (add_input (rp_input_reset_enabled s) e bytes sg) s)"
  shows "achieves view v (moved_to g mc sg s) (copy_data_wrapper pf g e data index) P"
proof -
  let ?sg = "sg\<lparr>sg_inputs := sg_inputs sg @ kept_input (rp_input_reset_enabled s) e bytes\<rparr>"
  have first_part: "achieves view v (moved_to g mc sg s)
      (if sa_size e \<noteq> 0 then copy_input pf g (memory_space_type_from_string (sa_space e)) e data
       else done_with ()) (\<lambda>_ s'. s' = moved_to g mc' ?sg s)"
  proof (cases "sa_size e = 0")
    case True
    then show ?thesis using copies by (auto simp: data copies_to_def kept_input_def intro: achieves_done)
  next
    case False
    then have "achieves view v (moved_to g mc sg s)
        (copy_input pf g (memory_space_type_from_string (sa_space e)) e (Some bytes))
        (\<lambda>_ s'. s' = moved_to g mc' ?sg s)"
      by (rule achieves_copy_input [OF copies]) simp
    with False show ?thesis by (simp add: data)
  qed
  have rest: "achieves view v (moved_to g mc' ?sg s)
      (and_then (reading (\<lambda>s. length (sg_allocations (guard_of g s)))) (\<lambda>slot.
       and_then (on_guard g (\<lambda>sg. sg\<lparr>sg_allocations := sg_allocations sg @ [stored_input e]\<rparr>)) (\<lambda>_.
       done_with (index(entry_key e \<mapsto> slot))))) P"
    by (rule achieves_and_then [OF achieves_reading
          [where P = "\<lambda>x t. x = length (sg_allocations sg) \<and> t = moved_to g mc' ?sg s"]], simp)
      (auto intro!: achieves_and_then [OF achieves_moved_guard
          [where P = "\<lambda>_ t. t = moved_to g mc' (add_input (rp_input_reset_enabled s) e bytes sg) s"]]
          achieves_done post simp: add_input_def)
  show ?thesis
    unfolding copy_data_wrapper_accepts [of e index, OF dumped new]
    by (rule achieves_and_then [OF first_part]) (simp only: rest)
qed

text \<open>What copying an allocation needs of the platform.\<close>

definition restorable :: "replay_build \<Rightarrow> 'o platform \<Rightarrow> active_allocation \<Rightarrow> bool" where
  "restorable rb pf a \<longleftrightarrow>
     (ar_size (aa_record a) \<noteq> 0 \<longrightarrow> (\<exists>r. pages_of rb pf a = Inr r)) \<and>
     (has_data HOST a \<longrightarrow> pf_new pf (ar_size (aa_record a)) = None) \<and>
     (has_data DEVICE a \<longrightarrow> has_device_space (pf_backend pf) \<and>
        pf_malloc_host pf (ar_size (aa_record a)) = None \<and>
        (\<forall>bytes os. \<exists>os'. pf_memcpy_to_device pf (ar_p_data (aa_record a)) bytes os = (Inr (), os')))"

text \<open>The machine and the guard after a list of allocations was copied.\<close>

definition input_machine ::
  "capture_build \<Rightarrow> capture_env \<Rightarrow> active_allocation list \<Rightarrow> 'o \<Rightarrow> 'o machine \<Rightarrow> 'o machine" where
  "input_machine b env as os mc = mc
     \<lparr>mc_os := os, mc_host := fold (write_input b env HOST) as (mc_host mc),
      mc_device := fold (write_input b env DEVICE) as (mc_device mc)\<rparr>"

definition input_guard ::
  "capture_build \<Rightarrow> capture_env \<Rightarrow> bool \<Rightarrow> active_allocation list \<Rightarrow> scope_guard \<Rightarrow> scope_guard" where
  "input_guard b env enabled as sg =
     fold (\<lambda>a. add_input enabled (captured_entry b env a) (captured_bytes b env a)) as sg"

abbreviation captured_key :: "capture_build \<Rightarrow> capture_env \<Rightarrow> active_allocation \<Rightarrow> addr \<times> string" where
  "captured_key b env a \<equiv> entry_key (captured_entry b env a)"

definition index_of ::
  "capture_build \<Rightarrow> capture_env \<Rightarrow> active_allocation list \<Rightarrow> allocation_index" where
  "index_of b env as = map_of (zip (List.map (captured_key b env) as) [0..<length as])"

lemma sg_allocations_input_guard:
  "sg_allocations (input_guard b env enabled as sg) =
     sg_allocations sg @ List.map (\<lambda>a. stored_input (captured_entry b env a)) as"
  by (induction as arbitrary: sg) (simp_all add: input_guard_def add_input_def)

lemma sg_inputs_input_guard:
  "sg_inputs (input_guard b env enabled as sg) =
     sg_inputs sg @ concat (List.map (\<lambda>a. kept_input enabled (captured_entry b env a) (captured_bytes b env a)) as)"
  by (induction as arbitrary: sg) (simp_all add: input_guard_def add_input_def)

lemma index_of_snoc:
  assumes "captured_key b env a \<notin> set (List.map (captured_key b env) as)"
  shows "index_of b env (as @ [a]) = (index_of b env as)(captured_key b env a \<mapsto> length as)"
    and "index_of b env as (captured_key b env a) = None"
proof -
  let ?ks = "List.map (captured_key b env) as"
  have none: "map_of (zip ?ks [0..<length as]) (captured_key b env a) = None"
    using assms by (simp add: map_of_zip_is_None)
  then show "index_of b env as (captured_key b env a) = None" by (simp add: index_of_def)
  have "dom [captured_key b env a \<mapsto> length as] \<inter> dom (map_of (zip ?ks [0..<length as])) = {}"
    using none by auto
  then have "[captured_key b env a \<mapsto> length as] ++ map_of (zip ?ks [0..<length as]) =
      (map_of (zip ?ks [0..<length as]))(captured_key b env a \<mapsto> length as)"
    by (subst map_add_comm) simp_all
  then show "index_of b env (as @ [a]) = (index_of b env as)(captured_key b env a \<mapsto> length as)"
    by (simp add: index_of_def)
qed

text \<open>A property of the platform's state that copies to the device keep.\<close>

definition memcpy_keeps :: "'o platform \<Rightarrow> ('o \<Rightarrow> bool) \<Rightarrow> bool" where
  "memcpy_keeps pf R \<longleftrightarrow>
     (\<forall>p bytes os os'. R os \<longrightarrow> pf_memcpy_to_device pf p bytes os = (Inr (), os') \<longrightarrow> R os')"

lemma memcpy_keeps_True [simp]: "memcpy_keeps pf (\<lambda>_. True)"
  by (simp add: memcpy_keeps_def)

lemma input_machine_os [simp]: "mc_os (input_machine b env as os mc) = os"
  by (simp add: input_machine_def)

lemma copies_captured:
  assumes ok: "restorable rb pf a" and R: "memcpy_keeps pf R" "R (mc_os mc)"
  shows "\<exists>os. R os \<and> copies_to pf (captured_entry b env a) (captured_bytes b env a) mc
    (input_machine b env [a] os mc)"
proof (cases "has_data DEVICE a")
  case True
  then obtain os where os: "pf_memcpy_to_device pf (ar_p_data (aa_record a)) (captured_bytes b env a) (mc_os mc) = (Inr (), os)"
    using ok unfolding restorable_def by blast
  have "copies_to pf (captured_entry b env a) (captured_bytes b env a) mc (input_machine b env [a] os mc)"
    using True ok os by (auto simp: copies_to_def captured_entry_def has_data_def space_of_def restorable_def
      copy_data_def device_copy_data_def and_then_def os_call_def input_machine_def write_input_def)
  moreover have "R os" using os R by (auto simp: memcpy_keeps_def)
  ultimately show ?thesis by blast
next
  case False
  have "copies_to pf (captured_entry b env a) (captured_bytes b env a) mc
      (input_machine b env [a] (mc_os mc) mc)"
    using False by (cases "space_of a")
      (auto simp: copies_to_def captured_entry_def has_data_def space_of_def
        copy_data_def host_copy_data_def input_machine_def write_input_def)
  with R(2) show ?thesis by blast
qed

lemma input_machine_snoc:
  "input_machine b env [a] os' (input_machine b env as os mc) = input_machine b env (as @ [a]) os' mc"
  by (simp add: input_machine_def)

lemma input_guard_snoc:
  "add_input enabled (captured_entry b env a) (captured_bytes b env a) (input_guard b env enabled as sg) =
     input_guard b env enabled (as @ [a]) sg"
  by (simp add: input_guard_def)

lemma buffer_granted:
  assumes "restorable rb pf a" and "ar_size (aa_record a) \<noteq> 0"
  shows "allocate_host_buffer pf (ar_size (aa_record a))
    (memory_space_type_from_string (ar_space (aa_record a))) = Inr True"
  using assms by (cases "space_of a")
    (auto simp: restorable_def has_data_def space_of_def allocate_host_buffer_def)

context hdf5_reader
begin

text \<open>Reading an allocation: the callback gets its description and, if there are any, its bytes.\<close>

lemma achieves_allocation:
  assumes l: "place v i = Some (f, p)" and F: "h5_disk v f = Some F"
    and ok: "loadable b env F p n a"
    and grant: "ar_size (aa_record a) \<noteq> 0 \<Longrightarrow> allocate_host_buffer pf (ar_size (aa_record a))
      (memory_space_type_from_string (ar_space (aa_record a))) = Inr True"
    and callback: "achieves view v s (cb (captured_entry b env a)
      (if ar_size (aa_record a) = 0 then None else Some (captured_bytes b env a)) t) P"
  shows "achieves view v s (allocate_hdf5_dataset (api_beside api) (allocate_host_buffer pf) cb i n t) P"
proof -
  let ?e = "captured_entry b env a" and ?bytes = "captured_bytes b env a"
  obtain bytes where d: "fully_dumped b env a bytes" and st: "stored_allocation b env F (p @ [n]) a"
    and n: "split_path n = [n]" "split_path (n @ ''/bytes'') = [n, ''bytes'']"
    using ok by (auto simp: loadable_def)
  have bytes: "?bytes = bytes" using fully_dumped_copy [OF d] by (simp add: captured_bytes_def)
  have entry_fields: "sa_size ?e = ar_size (aa_record a)" "sa_space ?e = ar_space (aa_record a)"
    by (simp_all add: captured_entry_def)
  have l': "place (with_state v s) i = Some (f, p)" and F': "h5_disk (with_state v s) f = Some F"
    using l F by simp_all
  note reader = hdf5_reader.yields_allocation_info [OF reader_beside l' F' st n(1)]
    hdf5_reader.yields_check_bytes_stored [OF reader_beside l' F' st d n(2), folded entry_fields(1)]
  note dumped = fully_dumped_entry [OF d]
  show ?thesis
    unfolding allocate_hdf5_dataset_def
  proof (rule achieves_and_then [OF achieves_yields [OF reader(1), where P = "\<lambda>x t. x = ?e \<and> t = s"]], simp)
    fix e s' assume e: "e = ?e \<and> s' = s"
    show "achieves view v s' (and_then (if sa_bytes_dumped e then check_byte_dataset (api_beside api) i n (sa_size e)
        else done_with ()) (\<lambda>_. if \<not> sa_bytes_dumped e \<or> sa_size e = 0
          then cb e None t
          else case allocate_host_buffer pf (sa_size e) (memory_space_type_from_string (sa_space e)) of
             Inl ex \<Rightarrow> throw ex | Inr True \<Rightarrow> and_then (read_uchars (api_beside api) i (n @ ''/bytes''))
               (\<lambda>bytes. cb e (Some bytes) t)
           | Inr False \<Rightarrow> throw Abort)) P"
      (is "achieves view v s' (and_then ?check ?k) P")
    proof (rule achieves_and_then [where P = "\<lambda>_ t'. t' = s"])
      show "achieves view v s' ?check (\<lambda>_ t'. t' = s)"
        using achieves_yields [OF reader(2), where P = "\<lambda>_ t'. t' = s"] dumped e by simp
    next
      fix u t' assume t': "t' = s"
      show "achieves view v t' (?k u) P"
      proof (cases "sa_size ?e = 0")
        case True
        then show ?thesis using callback by (simp add: t' e entry_fields)
      next
        case False
        have "achieves view v s (and_then (read_uchars (api_beside api) i (n @ ''/bytes''))
            (\<lambda>bytes. cb ?e (Some bytes) t)) P"
          by (rule achieves_and_then [OF achieves_yields [OF reader(3), where P = "\<lambda>x t. x = bytes \<and> t = s"]], simp)
            (use callback False in \<open>simp add: bytes entry_fields\<close>)
        then show ?thesis using grant False dumped by (simp add: t' e entry_fields)
      qed
    qed
  qed
qed

lemma achieves_copy_allocation:
  assumes l: "place v i = Some (f, p)" and F: "h5_disk v f = Some F"
    and ok: "loadable b env F p n a" and grant: "restorable rb pf a"
    and new: "index (captured_key b env a) = None"
    and R: "memcpy_keeps pf R" "R (mc_os mc)"
    and post: "\<And>os. R os \<Longrightarrow> P (index(captured_key b env a \<mapsto> length (sg_allocations sg)))
      (moved_to g (input_machine b env [a] os mc)
        (add_input (rp_input_reset_enabled s) (captured_entry b env a) (captured_bytes b env a) sg) s)"
  shows "achieves view v (moved_to g mc sg s)
    (allocate_hdf5_dataset (api_beside api) (allocate_host_buffer pf) (copy_data_wrapper pf g) i n index) P"
proof (rule achieves_allocation [OF l F ok buffer_granted [OF grant]])
  let ?e = "captured_entry b env a" and ?bytes = "captured_bytes b env a"
  obtain os where os: "R os" "copies_to pf ?e ?bytes mc (input_machine b env [a] os mc)"
    using copies_captured [OF grant R] by blast
  obtain bytes where "fully_dumped b env a bytes" using ok by (auto simp: loadable_def)
  then have dumped: "sa_bytes_dumped ?e" by (rule fully_dumped_entry)
  show "achieves view v (moved_to g mc sg s) (copy_data_wrapper pf g ?e
      (if ar_size (aa_record a) = 0 then None else Some ?bytes) index) P"
  proof (rule achieves_copy_data_wrapper [of pf ?e ?bytes mc _ index, OF os(2) dumped new])
    show "(if ar_size (aa_record a) = 0 then None else Some ?bytes) = (if sa_size ?e = 0 then None else Some ?bytes)"
      by (simp add: captured_entry_def)
  qed (rule post [OF os(1)])
qed

text \<open>The whole pass: some order of the allocations, the order of the visit.\<close>

lemma achieves_copy_inputs:
  assumes c: "captured_group b env v root f F ''in'' xs"
    and grants: "list_all (\<lambda>(m, a). restorable rb pf a) xs"
    and keys: "distinct (List.map (captured_key b env \<circ> snd) xs)"
    and sg: "sg_allocations sg = []" and R: "memcpy_keeps pf R" "R (mc_os mc)"
  shows "achieves view v (moved_to g mc sg s) (iterate_allocations (api_beside api) root ''in/views''
      (allocate_hdf5_dataset (api_beside api) (allocate_host_buffer pf) (copy_data_wrapper pf g)) Map.empty)
    (\<lambda>index s'. \<exists>as os. R os \<and> mset as = mset (List.map snd xs) \<and> index = index_of b env as \<and>
       s' = moved_to g (input_machine b env as os mc) (input_guard b env (rp_input_reset_enabled s) as sg) s)"
proof (rule achieves_captured [OF c])
  fix i ps
  assume i: "h5_refs v i = None" and ps: "mset ps = mset xs"
    and all: "list_all (\<lambda>(m, a). loadable b env F [''in'', ''views''] m a) ps"
  let ?v = "new_ref i (Group_Ref f [''in'', ''views'']) v"
  have l: "place ?v i = Some (f, [''in'', ''views''])" and d: "h5_disk ?v f = Some F"
    using c by (simp_all add: place_def captured_group_def)
  have grants': "list_all (\<lambda>(m, a). restorable rb pf a) ps"
    using grants by (simp add: list_all_permuted [OF ps])
  have same: "mset (List.map (captured_key b env \<circ> snd) ps) = mset (List.map (captured_key b env \<circ> snd) xs)"
    by (simp only: mset_map ps)
  have keys': "distinct (List.map (captured_key b env \<circ> snd) ps)"
    using keys by (simp only: mset_eq_imp_distinct_iff [OF same])
  define I where "I ns index s' \<longleftrightarrow>
      (\<exists>ys os. R os \<and> ns = List.map fst ys \<and> ys = take (length ys) ps \<and> index = index_of b env (List.map snd ys) \<and>
         s' = moved_to g (input_machine b env (List.map snd ys) os mc)
           (input_guard b env (rp_input_reset_enabled s) (List.map snd ys) sg) s)" for ns index s'
  have start: "I [] Map.empty (moved_to g mc sg s)"
    unfolding I_def
    by (rule exI [of _ "[]"], rule exI [of _ "mc_os mc"]) (simp add: R(2) index_of_def input_machine_def input_guard_def)
  have "achieves view ?v (moved_to g mc sg s) (fold_each (allocate_hdf5_dataset (api_beside api)
      (allocate_host_buffer pf) (copy_data_wrapper pf g) i) (List.map fst ps) Map.empty) (I (List.map fst ps))"
  proof (rule achieves_fold_each [where I = I, OF _ start])
    fix ns n ms index s'
    assume visit: "List.map fst ps = ns @ n # ms" and inv: "I ns index s'"
    obtain ys os where os: "R os" and ys: "ns = List.map fst ys" "ys = take (length ys) ps"
      and index: "index = index_of b env (List.map snd ys)"
      and s': "s' = moved_to g (input_machine b env (List.map snd ys) os mc)
        (input_guard b env (rp_input_reset_enabled s) (List.map snd ys) sg) s"
      using inv unfolding I_def by blast
    have "length ys < length ps" using arg_cong [OF visit, of length] by (simp add: ys(1))
    then obtain m a zs where split: "ps = ys @ (m, a) # zs"
      using id_take_nth_drop [of "length ys" ps] ys(2) by (cases "ps ! length ys") simp
    have n: "m = n" using visit by (simp add: split ys(1))
    have ok: "loadable b env F [''in'', ''views''] n a" "restorable rb pf a"
      using all grants' by (simp_all add: split n)
    have fresh: "captured_key b env a \<notin> set (List.map (captured_key b env) (List.map snd ys))"
      using keys' by (simp add: split comp_def)
    note new = index_of_snoc [OF fresh]
    show "achieves view ?v s' (allocate_hdf5_dataset (api_beside api) (allocate_host_buffer pf)
        (copy_data_wrapper pf g) i n index) (I (ns @ [n]))"
      unfolding s'
    proof (rule achieves_copy_allocation [where R = R, OF l d ok])
      show "memcpy_keeps pf R" "R (mc_os (input_machine b env (List.map snd ys) os mc))" by (simp_all add: R(1) os)
      show "index (captured_key b env a) = None" using new(2) by (simp add: index)
      fix os' assume os': "R os'"
      show "I (ns @ [n]) (index(captured_key b env a \<mapsto> length (sg_allocations
          (input_guard b env (rp_input_reset_enabled s) (List.map snd ys) sg))))
        (moved_to g (input_machine b env [a] os' (input_machine b env (List.map snd ys) os mc))
          (add_input (rp_input_reset_enabled s) (captured_entry b env a) (captured_bytes b env a)
            (input_guard b env (rp_input_reset_enabled s) (List.map snd ys) sg)) s)"
        unfolding I_def
        by (rule exI [of _ "ys @ [(m, a)]"], rule exI [of _ os'])
          (use new(1) os' in \<open>simp add: ys(1) n split index sg sg_allocations_input_guard input_machine_snoc
            input_guard_snoc\<close>)
    qed
  qed
  then show "achieves view ?v (moved_to g mc sg s) (fold_each (allocate_hdf5_dataset (api_beside api)
      (allocate_host_buffer pf) (copy_data_wrapper pf g) i) (List.map fst ps) Map.empty)
    (\<lambda>index s'. \<exists>as os. R os \<and> mset as = mset (List.map snd xs) \<and> index = index_of b env as \<and>
       s' = moved_to g (input_machine b env as os mc) (input_guard b env (rp_input_reset_enabled s) as sg) s)"
  proof (rule achieves_mono)
    fix index s' assume "I (List.map fst ps) index s'"
    then obtain ys os where "R os" and ys: "List.map fst ps = List.map fst ys" "ys = take (length ys) ps"
      and "index = index_of b env (List.map snd ys)"
      and "s' = moved_to g (input_machine b env (List.map snd ys) os mc)
        (input_guard b env (rp_input_reset_enabled s) (List.map snd ys) sg) s"
      unfolding I_def by blast
    moreover have "ys = ps" using ys by (metis length_map take_all_iff order_refl)
    ultimately show "\<exists>as os. R os \<and> mset as = mset (List.map snd xs) \<and> index = index_of b env as \<and>
        s' = moved_to g (input_machine b env as os mc) (input_guard b env (rp_input_reset_enabled s) as sg) s"
      using ps by (intro exI [of _ "List.map snd ps"] exI [of _ os]) simp
  qed
qed simp

end

section \<open>Memory after the pass\<close>

lemma read_write_disjoint:
  assumes "\<And>x. unat (x - p) < n \<Longrightarrow> \<not> unat (x - q) < length bs" and "n \<le> 2 ^ 64"
  shows "read_bytes (write_bytes q bs m) p n = read_bytes m p n"
proof (rule nth_equalityI)
  fix i assume "i < length (read_bytes (write_bytes q bs m) p n)"
  then have i: "i < n" by simp
  then have "unat (of_nat i :: addr) = i" using assms(2) by (simp add: unat_of_nat)
  then have "\<not> unat (p + of_nat i - q) < length bs" using assms(1) [of "p + of_nat i"] i by simp
  then show "read_bytes (write_bytes q bs m) p n ! i = read_bytes m p n ! i"
    using i by (simp add: read_bytes_def write_bytes_def)
qed simp

definition in_data :: "active_allocation \<Rightarrow> addr \<Rightarrow> bool" where
  "in_data a x \<longleftrightarrow> x - ar_p_data (aa_record a) < ar_size (aa_record a)"

text \<open>The data of two allocations of a kind of memory do not overlap.\<close>

definition data_apart :: "active_allocation set \<Rightarrow> bool" where
  "data_apart S \<longleftrightarrow> (\<forall>a \<in> S. \<forall>a' \<in> S. a \<noteq> a' \<longrightarrow> space_of a = space_of a' \<longrightarrow>
     (\<forall>x. \<not> (in_data a x \<and> in_data a' x)))"

lemma restored_bytes:
  assumes "data_apart (set as)" and "distinct as" and "a \<in> set as" and "has_data space a"
    and len: "\<And>a. a \<in> set as \<Longrightarrow> length (captured_bytes b env a) = unat (ar_size (aa_record a))"
  shows "read_bytes (fold (write_input b env space) as m) (ar_p_data (aa_record a))
    (unat (ar_size (aa_record a))) = captured_bytes b env a"
  using assms
proof (induction as rule: rev_induct)
  case (snoc a' as)
  let ?m = "fold (write_input b env space) as m" and ?p = "ar_p_data (aa_record a)"
  have short: "unat (ar_size (aa_record a)) \<le> 2 ^ 64"
    using less_imp_le [OF unat_lt64 [of "ar_size (aa_record a)"]] by simp
  show ?case
  proof (cases "a = a'")
    case True
    have "write_input b env space a' ?m = write_bytes ?p (captured_bytes b env a) ?m"
      using True snoc.prems(4) by (simp only: write_input_def if_True)
    then show ?thesis
      using read_write_bytes [of "captured_bytes b env a" ?p ?m] snoc.prems(5) True short
      by simp
  next
    case False
    then have a: "a \<in> set as" using snoc.prems(3) by simp
    have "read_bytes ?m ?p (unat (ar_size (aa_record a))) = captured_bytes b env a"
    proof (rule snoc.IH)
      show "data_apart (set as)" using snoc.prems(1) unfolding data_apart_def by simp
    qed (use snoc.prems(2,4,5) a in simp_all)
    moreover have "read_bytes (write_input b env space a' ?m) ?p (unat (ar_size (aa_record a))) =
        read_bytes ?m ?p (unat (ar_size (aa_record a)))"
    proof (cases "has_data space a'")
      case True
      then have same: "space_of a = space_of a'" using snoc.prems(4) by (simp add: has_data_def)
      have "\<not> (in_data a x \<and> in_data a' x)" for x
        using snoc.prems(1) False a same by (auto simp: data_apart_def)
      then show ?thesis
        using True short snoc.prems(5) [of a']
        by (auto simp: write_input_def in_data_def word_less_nat_alt intro!: read_write_disjoint)
    qed (simp add: write_input_def)
    ultimately show ?thesis by simp
  qed
qed simp

end
