(* ===== verification/Capture_Replay.thy ===== *)
theory Capture_Replay
  imports Replay_Restore
begin

text \<open>
  The constructor of \<open>ScopeGuard\<close> on a file that holds a captured dump: the metadata, the
  functor and the policy, and all passes together.  A replay of a dump restores what was
  captured, at the addresses it was captured from.
\<close>

section \<open>Metadata, functor and policy\<close>

definition with_metadata :: "(string \<rightharpoonup> string) \<Rightarrow> 'o replayer \<Rightarrow> 'o replayer" where
  "with_metadata m s = s\<lparr>rp_metadata := m\<rparr>"

definition with_functor :: "replay_build \<Rightarrow> byte list \<Rightarrow> byte list \<Rightarrow> 'o replayer \<Rightarrow> 'o replayer" where
  "with_functor rb fd nd s =
     s\<lparr>rp_functor_data := fd, rp_nvcc_data := (if rb_nvcc_hdl_workaround rb then nd else rp_nvcc_data s)\<rparr>"

definition with_policy :: "policy_var \<Rightarrow> 'o replayer \<Rightarrow> 'o replayer" where
  "with_policy pv s = s\<lparr>rp_policy := Some pv\<rparr>"

text \<open>The entries of the metadata group: those the map has already win.\<close>

definition seen_metadata :: "(string \<rightharpoonup> string) \<Rightarrow> string list \<Rightarrow> (string \<rightharpoonup> string) \<Rightarrow> (string \<rightharpoonup> string)" where
  "seen_metadata stored ns m = stored |` set ns ++ m"

lemma seen_metadata_snoc:
  assumes "stored n = Some chars"
  shows "(if seen_metadata stored ns m n = None then (seen_metadata stored ns m)(n \<mapsto> chars)
      else seen_metadata stored ns m) = seen_metadata stored (ns @ [n]) m"
  using assms by (auto simp: seen_metadata_def map_add_def restrict_map_def fun_eq_iff split: option.splits)

lemma achieves_insert_metadata:
  assumes "stored n = Some chars"
    and "P () (with_metadata (seen_metadata stored (ns @ [n]) m) s)"
  shows "achieves view v (with_metadata (seen_metadata stored ns m) s) (insert_metadata n chars) P"
  unfolding insert_metadata_def
proof (rule achieves_update)
  show "P () (if rp_metadata (with_metadata (seen_metadata stored ns m) s) n = None
      then (with_metadata (seen_metadata stored ns m) s)
        \<lparr>rp_metadata := (rp_metadata (with_metadata (seen_metadata stored ns m) s))(n \<mapsto> chars)\<rparr>
      else with_metadata (seen_metadata stored ns m) s)"
    using assms(2) seen_metadata_snoc [of stored n, OF assms(1), of ns m]
    by (auto simp: with_metadata_def split: if_splits)
qed

definition metadata_map :: "(string \<times> string) list \<Rightarrow> string \<rightharpoonup> string" where
  "metadata_map metadata = map_of (rev metadata)"

lemma stored_metadata_attr:
  assumes "stored_metadata F metadata"
  shows "fl_attrs F [''metadata''] n = map_option string_attr (metadata_map metadata n)"
    and "dom (fl_attrs F [''metadata'']) = dom (metadata_map metadata)"
proof -
  have "map_of (rev (List.map (\<lambda>(k, v). (k, string_attr v)) metadata)) =
      map_option string_attr \<circ> map_of (rev metadata)"
    by (simp add: rev_map map_of_map)
  then have eq: "fl_attrs F [''metadata''] = map_option string_attr \<circ> metadata_map metadata"
    using assms by (simp add: stored_metadata_def metadata_map_def)
  then show "fl_attrs F [''metadata''] n = map_option string_attr (metadata_map metadata n)" by simp
  show "dom (fl_attrs F [''metadata'']) = dom (metadata_map metadata)" unfolding eq by auto
qed

context hdf5_reader
begin

lemma achieves_metadata:
  assumes l: "place v root = Some (f, [])" and F: "h5_disk v f = Some F"
    and st: "stored_metadata F metadata"
  shows "achieves view v s (iterate_metadata (api_beside api) insert_metadata root)
    (\<lambda>_ s'. s' = with_metadata (metadata_map metadata ++ rp_metadata s) s)"
proof (rule achieves_iterate_metadata [OF l F])
  show "[''metadata''] \<in> fl_groups F" using st by (simp add: stored_metadata_def)
next
  fix i ns assume i: "h5_refs v i = None" and ns: "set ns = dom (fl_attrs F [''metadata''])"
  let ?v = "new_ref i (Group_Ref f [''metadata'']) v" and ?m = "metadata_map metadata"
  let ?I = "\<lambda>ns s'. s' = with_metadata (seen_metadata ?m ns (rp_metadata s)) s"
  have "achieves view ?v s (for_each (read_hdf5_metadata (api_beside api) insert_metadata i) ns) (\<lambda>_. ?I ns)"
  proof (rule achieves_for_each [where I = ?I])
    show "s = with_metadata (seen_metadata ?m [] (rp_metadata s)) s"
      by (simp add: with_metadata_def seen_metadata_def)
  next
    fix ys n zs s' assume split: "ns = ys @ n # zs" and s': "?I ys s'"
    have "n \<in> dom ?m" using ns stored_metadata_attr(2) [OF st] split by auto
    then obtain chars where chars: "?m n = Some chars" by blast
    have l': "place (with_state ?v s') i = Some (f, [''metadata''])" by (simp add: place_def)
    have "attr_at (with_state ?v s') f ([''metadata''] @ split_path ''.'') n = Some (string_attr chars)"
      using F stored_metadata_attr(1) [OF st, of n] chars by (simp add: attr_at_def)
    note read = hdf5_reader.yields_string [OF reader_beside l' this]
    show "achieves view ?v s' (read_hdf5_metadata (api_beside api) insert_metadata i n) (\<lambda>_. ?I (ys @ [n]))"
      unfolding read_hdf5_metadata_def
      by (rule achieves_and_then [OF achieves_yields [OF read, where P = "\<lambda>x t. x = chars \<and> t = s'"]], simp)
        (auto simp: s' intro: achieves_insert_metadata [of ?m n chars, OF chars])
  qed
  moreover have "seen_metadata ?m ns (rp_metadata s) = ?m ++ rp_metadata s"
  proof -
    have "?m |` set ns = ?m"
      using stored_metadata_attr(2) [OF st] ns by (auto simp: restrict_map_def fun_eq_iff)
    then show ?thesis by (simp add: seen_metadata_def)
  qed
  ultimately show "achieves view ?v s (for_each (read_hdf5_metadata (api_beside api) insert_metadata i) ns)
      (\<lambda>_ s'. s' = with_metadata (?m ++ rp_metadata s) s)" by simp
qed

lemma achieves_read_vector:
  assumes l: "place v root = Some (f, [])" and d: "data_at v f (split_path path) = Some (byte_data bytes)"
    and k: "achieves view v (grow (length bytes) s) (k bytes) P"
  shows "achieves view v s (and_then (asserted_dataset_info (api_beside api) root path 1) (\<lambda>dim.
     and_then (update (grow dim)) (\<lambda>_. and_then (read_uchars (api_beside api) root path) k))) P"
proof -
  have l': "place (with_state v t) root = Some (f, [])" for t :: "'o replayer" using l by simp
  have data: "data_at (with_state v t) f ([] @ split_path path) = Some (byte_data bytes)"
    for t :: "'o replayer" using d by simp
  have one: "type_size (Native_Type NATIVE_UCHAR) = 1" by simp
  note info = hdf5_reader.yields_asserted_info [OF reader_beside l' data [unfolded byte_data_def] one]
  note read = hdf5_reader.yields_read_uchars [OF reader_beside l' data]
  have reads: "achieves view v t (and_then (read_uchars (api_beside api) root path) k) P"
    if "t = grow (length bytes) s" for t
    by (rule achieves_and_then [OF achieves_yields [OF read, where P = "\<lambda>x t'. x = bytes \<and> t' = t"]], simp)
      (use k that in simp)
  have grows: "achieves view v s (and_then (update (grow (length bytes))) (\<lambda>_.
      and_then (read_uchars (api_beside api) root path) k)) P"
    by (rule achieves_and_then [OF achieves_update [where P = "\<lambda>_ t. t = grow (length bytes) s"]], rule refl)
      (rule reads)
  show ?thesis
    by (rule achieves_and_then [OF achieves_yields [OF info, where P = "\<lambda>x t. x = length bytes \<and> t = s"]], simp)
      (use grows in simp)
qed

lemma achieves_functor:
  assumes l: "place v root = Some (f, [])" and F: "h5_disk v f = Some F"
    and st: "stored_functor F fd nd"
  shows "achieves view v s (read_functor_from_hdf5 (api_beside api) rb root)
    (\<lambda>_ s'. s' = with_functor rb fd nd s)"
proof -
  have data: "data_at v f (split_path ''functor/functor'') = Some (byte_data fd)"
    "data_at v f (split_path ''functor/nvcc_inner_lambda'') = Some (byte_data nd)"
    using st F by (simp_all add: data_at_def stored_functor_def)
  let ?s = "s\<lparr>rp_functor_data := fd\<rparr>"
  have nvcc: "achieves view v ?s (and_then (asserted_dataset_info (api_beside api) root ''functor/nvcc_inner_lambda'' 1) (\<lambda>dim.
       and_then (update (\<lambda>s. s\<lparr>rp_nvcc_data := resize dim (rp_nvcc_data s)\<rparr>)) (\<lambda>_.
       and_then (read_uchars (api_beside api) root ''functor/nvcc_inner_lambda'') (\<lambda>bytes.
       update (\<lambda>s. s\<lparr>rp_nvcc_data := bytes\<rparr>))))) (\<lambda>_ s'. s' = ?s\<lparr>rp_nvcc_data := nd\<rparr>)"
    by (rule achieves_read_vector [OF l data(2)], rule achieves_update) simp
  have rest: "achieves view v t (if \<not> rb_nvcc_hdl_workaround rb then done_with () else
      and_then (asserted_dataset_info (api_beside api) root ''functor/nvcc_inner_lambda'' 1) (\<lambda>dim.
       and_then (update (\<lambda>s. s\<lparr>rp_nvcc_data := resize dim (rp_nvcc_data s)\<rparr>)) (\<lambda>_.
       and_then (read_uchars (api_beside api) root ''functor/nvcc_inner_lambda'') (\<lambda>bytes.
       update (\<lambda>s. s\<lparr>rp_nvcc_data := bytes\<rparr>))))) (\<lambda>_ s'. s' = with_functor rb fd nd s)"
    if "t = ?s" for t
  proof (cases "rb_nvcc_hdl_workaround rb")
    case True
    then show ?thesis using nvcc that by (simp add: with_functor_def)
  next
    case False
    then show ?thesis using that by (simp add: with_functor_def achieves_done)
  qed
  show ?thesis
    unfolding read_functor_from_hdf5_def
    by (rule achieves_read_vector [OF l data(1)],
        rule achieves_and_then [OF achieves_update [where P = "\<lambda>_ t. t = ?s"]], simp, rule rest)
qed

lemma achieves_policy:
  assumes l: "place v root = Some (f, [])" and F: "h5_disk v f = Some F"
    and st: "stored_policy F policy" and expected: "expected_policy rb policy = Some pv"
  shows "achieves view v s (read_policy_from_hdf5 (api_beside api) rb root) (\<lambda>_ s'. s' = with_policy pv s)"
proof -
  have l': "place (with_state v t) root = Some (f, [])" for t :: "'o replayer" using l by simp
  have h: "holds_policy (with_state v t) f policy" for t :: "'o replayer"
    using st F by (auto simp: holds_policy_def stored_policy_def attr_at_def data_at_def)
  note ty = hdf5_reader.yields_policy_type [OF reader_beside l' h]
  note rest = hdf5_reader.yields_policy [OF reader_beside l' h expected]
  let ?s = "s\<lparr>rp_policy := Some Replay_None\<rparr>"
  have read: "achieves view v t (and_then (read_policy_of_type (api_beside api) rb root (policy_type policy))
      (\<lambda>policy. update (\<lambda>s. s\<lparr>rp_policy := Some policy\<rparr>))) (\<lambda>_ s'. s' = with_policy pv s)"
    if "t = ?s" for t
    by (rule achieves_and_then [OF achieves_yields [OF rest, where P = "\<lambda>x t'. x = pv \<and> t' = t"]], simp)
      (use that in \<open>auto simp: with_policy_def intro: achieves_update\<close>)
  have set_none: "achieves view v s (and_then (update (\<lambda>s. s\<lparr>rp_policy := Some Replay_None\<rparr>)) (\<lambda>_.
      and_then (read_policy_of_type (api_beside api) rb root (policy_type policy))
        (\<lambda>policy. update (\<lambda>s. s\<lparr>rp_policy := Some policy\<rparr>)))) (\<lambda>_ s'. s' = with_policy pv s)"
    by (rule achieves_and_then [OF achieves_update [where P = "\<lambda>_ t. t = ?s"]], simp, rule read)
  show ?thesis
    unfolding read_policy_from_hdf5_def
    by (rule achieves_and_then [OF achieves_yields [OF ty, where P = "\<lambda>x t. x = policy_type policy \<and> t = s"]], simp)
      (use set_none in simp)
qed

text \<open>A file without the group \<open>out\<close> has no reference outputs.\<close>

lemma achieves_no_outputs:
  assumes l: "place v root = Some (f, [])" and F: "h5_disk v f = Some F"
    and top: "[] \<in> fl_groups F" and none: "empty_under F [''out'']"
  shows "achieves view v s (restore_outputs (api_beside api) pf g index root) (\<lambda>_ s'. s' = s)"
proof -
  have absent: "[''out''] \<notin> fl_groups F" "[''out''] \<notin> dom (fl_datasets F)"
    using none by (auto simp: empty_under_def under_def)
  have link: "achieves view v s (check_link (api_beside api) root ''out'') (\<lambda>x s'. \<not> x \<and> s' = s)"
  proof (rule achievesI)
    fix w assume w: "view w = v"
    obtain st w' where "H5Lexists api root ''out'' w = (st, w')" "0 \<le> st" "view w' = v" "\<not> 0 < st"
      using Lexists [of w root f "[]" F "''out''"] l F top absent w by auto
    then show "\<exists>x w' s'. check_link (api_beside api) root ''out'' (w, s) = (Inr x, (w', s')) \<and>
        view w' = v \<and> \<not> x \<and> s' = s"
      by (auto simp: check_link_def api_beside_def beside_def check_call_def and_then_def done_with_def
        intro: exI [of _ False])
  qed
  have no: "achieves view v s (done_with False) (\<lambda>x s'. \<not> x \<and> s' = s)" by (simp add: achieves_done)
  have "achieves view v s (and_then (done_with False) (\<lambda>has_output.
      if has_output then iterate_allocations (api_beside api) root ''out/views''
            (allocate_hdf5_dataset (api_beside api) (allocate_host_buffer pf) (allocate_wrapper pf g index)) ()
      else done_with ())) (\<lambda>_ s'. s' = s)"
    by (simp add: achieves_done)
  then show ?thesis
    unfolding restore_outputs_def by (intro achieves_and_then [OF link]) simp
qed

end

section \<open>The constructor\<close>

text \<open>What a snapshot and a platform need for a replay.\<close>

definition replay_ready ::
  "capture_build \<Rightarrow> capture_env \<Rightarrow> replay_build \<Rightarrow> 'o platform \<Rightarrow> allocation_snapshot \<Rightarrow> bool" where
  "replay_ready b env rb pf sn \<longleftrightarrow>
     (\<forall>a \<in> set (sn_allocations sn). (\<exists>bytes. fully_dumped b env a bytes) \<and> restorable rb pf a) \<and>
     distinct (List.map (captured_key b env) (sn_allocations sn)) \<and>
     data_apart (set (sn_allocations sn))"

text \<open>The system grants the pages at the captured addresses.\<close>

definition pages_for ::
  "replay_build \<Rightarrow> 'o platform \<Rightarrow> memory_space_type \<Rightarrow> allocation_snapshot \<Rightarrow> region list" where
  "pages_for rb pf space sn = compute_allocations (page_ranges rb pf space (set (sn_allocations sn)))"

definition grants_pages ::
  "replay_build \<Rightarrow> 'o platform \<Rightarrow> allocation_snapshot \<Rightarrow> 'o machine \<Rightarrow> bool" where
  "grants_pages rb pf sn m0 \<longleftrightarrow>
     (\<exists>hs m1 m2 ds m3. map_pages pf HOST (pages_for rb pf HOST sn) m0 = Some (hs, m1) \<and>
        device_init pf m1 = (Inr (), m2) \<and>
        map_pages pf DEVICE (pages_for rb pf DEVICE sn) m2 = Some (ds, m3))"

text \<open>Every captured allocation is back, at its address, with the bytes that were captured.\<close>

definition restored ::
  "capture_build \<Rightarrow> capture_env \<Rightarrow> allocation_snapshot \<Rightarrow> 'o machine \<Rightarrow> bool" where
  "restored b env sn mc \<longleftrightarrow>
     (\<forall>a \<in> set (sn_allocations sn). dumpable b env (aa_record a) =
        Some (read_bytes (memory_of (space_of a) mc) (ar_p_data (aa_record a)) (unat (ar_size (aa_record a)))))"

text \<open>The guard describes exactly the captured allocations, keeps their bytes if asked to, and its
  objects give their pages back to the kind of memory they came from.\<close>

definition describes ::
  "capture_build \<Rightarrow> capture_env \<Rightarrow> bool \<Rightarrow> allocation_snapshot \<Rightarrow> scope_guard \<Rightarrow> bool" where
  "describes b env enabled sn sg \<longleftrightarrow>
     (\<exists>as. mset as = mset (sn_allocations sn) \<and>
        sg_allocations sg = List.map (\<lambda>a. stored_input (captured_entry b env a)) as \<and>
        sg_inputs sg =
          concat (List.map (\<lambda>a. kept_input enabled (captured_entry b env a) (captured_bytes b env a)) as)) \<and>
     list_all (\<lambda>x. al_space x = Some HOST) (sg_host_raw sg) \<and>
     list_all (\<lambda>x. al_space x = Some DEVICE) (sg_device_raw sg)"

text \<open>The state of the program after the constructor.\<close>

definition replays ::
  "capture_build \<Rightarrow> capture_env \<Rightarrow> replay_build \<Rightarrow> allocation_snapshot \<Rightarrow> byte list \<Rightarrow> byte list \<Rightarrow>
   (string \<times> string) list \<Rightarrow> policy_var \<Rightarrow> bool \<Rightarrow> 'o replayer \<Rightarrow> 'o replayer \<Rightarrow> bool"
where
  "replays b env rb sn fd nd metadata pv enabled s s' \<longleftrightarrow>
     restored b env sn (rp_machine s') \<and>
     (\<exists>sg. rp_guards s' (rp_next_guard s) = Some sg \<and> describes b env enabled sn sg) \<and>
     rp_functor_data s' = fd \<and> (rb_nvcc_hdl_workaround rb \<longrightarrow> rp_nvcc_data s' = nd) \<and>
     rp_metadata s' = metadata_map metadata ++ rp_metadata s \<and> rp_policy s' = Some pv \<and>
     rp_initialized s' \<and> rp_scope_guard s' = Some (rp_next_guard s) \<and>
     rp_replay_allocations s' = Some (rp_next_guard s) \<and> rp_input_reset_enabled s' = enabled"

lemma named_allocations_snd [simp]: "List.map snd (named_allocations s) = sn_allocations s"
  by (simp add: named_allocations_def case_prod_beta' comp_def)

context hdf5_reader
begin

lemma captured_group_in:
  assumes "holds_snapshot b env F [n] sn" and "captured": "\<forall>a \<in> set (sn_allocations sn). \<exists>bytes. fully_dumped b env a bytes"
    and "place v root = Some (f, [])" and "h5_disk v f = Some F"
  shows "captured_group b env v root f F n (named_allocations sn)"
proof -
  have "loadable b env F [n, ''views''] m a" if "(m, a) \<in> set (named_allocations sn)" for m a
  proof -
    have "a \<in> snd ` set (named_allocations sn)" using that by (rule image_eqI [rotated]) simp
    then have "a \<in> set (sn_allocations sn)" by (metis named_allocations_snd set_map)
    then show ?thesis
      using that assms(1) captured named_allocation_plain [OF that]
      by (auto simp: loadable_def holds_snapshot_def)
  qed
  then show ?thesis
    using assms named_distinct by (auto simp: captured_group_def holds_snapshot_def list_all_iff)
qed

end

lemma restored_input_machine:
  assumes ready: "replay_ready b env rb pf sn" and as: "mset as = mset (sn_allocations sn)"
  shows "restored b env sn (input_machine b env as os mc)"
proof -
  have set: "set as = set (sn_allocations sn)" using as by (metis set_mset_mset)
  have len: "length (captured_bytes b env a) = unat (ar_size (aa_record a))" if "a \<in> set as" for a
    using ready that fully_dumped_copy [of b env a]
    by (auto simp: replay_ready_def set captured_bytes_def fully_dumped_def)
  have "distinct (sn_allocations sn)" using ready by (simp add: replay_ready_def distinct_map)
  then have dist: "distinct as" by (simp add: mset_eq_imp_distinct_iff [OF as])
  have apart: "data_apart (set as)" using ready by (simp add: replay_ready_def set)
  have bytes: "read_bytes (fold (write_input b env space) as m) (ar_p_data (aa_record a))
      (unat (ar_size (aa_record a))) = captured_bytes b env a"
    if "a \<in> set as" "space = space_of a" for a m space
  proof (cases "ar_size (aa_record a) = 0")
    case True
    then show ?thesis using len [OF that(1)] by simp
  next
    case False
    then have "has_data space a" using that by (simp add: has_data_def)
    then show ?thesis by (rule restored_bytes [OF apart dist that(1)]) (rule len)
  qed
  show ?thesis
    unfolding restored_def set [symmetric]
  proof
    fix a assume a: "a \<in> set as"
    have "read_bytes (memory_of (space_of a) (input_machine b env as os mc)) (ar_p_data (aa_record a))
        (unat (ar_size (aa_record a))) = captured_bytes b env a"
      by (cases "space_of a") (simp_all add: input_machine_def memory_of_def bytes [OF a])
    moreover have "dumpable b env (aa_record a) = Some (captured_bytes b env a)"
      using ready a fully_dumped_copy [of b env a]
      by (auto simp: replay_ready_def set captured_bytes_def fully_dumped_def)
    ultimately show "dumpable b env (aa_record a) =
        Some (read_bytes (memory_of (space_of a) (input_machine b env as os mc)) (ar_p_data (aa_record a))
          (unat (ar_size (aa_record a))))" by simp
  qed
qed

lemma map_pages_spaces:
  "map_pages pf space rs m = Some (objects, m') \<Longrightarrow> list_all (\<lambda>x. al_space x = Some space) objects"
proof (induction rs arbitrary: m objects)
  case (Cons r rs)
  then show ?case
    by (auto simp: construct_allocation_def and_then_def done_with_def throw_def
        split: prod.splits sum.splits if_splits)
qed simp

lemma input_guard_raw [simp]:
  "sg_host_raw (input_guard b env enabled as sg) = sg_host_raw sg"
  "sg_device_raw (input_guard b env enabled as sg) = sg_device_raw sg"
  by (induction as arbitrary: sg) (simp_all add: input_guard_def add_input_def)

lemma describes_input_guard:
  assumes "mset as = mset (sn_allocations sn)"
    and "map_pages pf HOST rs m = Some (hs, m1)" and "map_pages pf DEVICE rs' m2 = Some (ds, m3)"
  shows "describes b env enabled sn (input_guard b env enabled as (add_raw DEVICE ds (add_raw HOST hs empty_guard)))"
  using assms map_pages_spaces [OF assms(2)] map_pages_spaces [OF assms(3)]
  by (auto simp: describes_def sg_allocations_input_guard sg_inputs_input_guard add_raw_def empty_guard_def)

text \<open>The replayer's variables after the passes, but for the machine and the guard.\<close>

definition loaded_dump ::
  "replay_build \<Rightarrow> byte list \<Rightarrow> byte list \<Rightarrow> (string \<times> string) list \<Rightarrow> policy_var \<Rightarrow> 'o replayer \<Rightarrow> 'o replayer" where
  "loaded_dump rb fd nd metadata pv s =
     with_policy pv (with_functor rb fd nd (with_metadata (metadata_map metadata ++ rp_metadata s) s))"

lemma loaded_moved:
  "with_policy pv (with_functor rb fd nd (with_metadata (metadata_map metadata ++ rp_metadata s) (moved_to g mc sg s))) =
     moved_to g mc sg (loaded_dump rb fd nd metadata pv s)"
  by (simp add: loaded_dump_def with_policy_def with_functor_def with_metadata_def moved_to_def)

text \<open>
  The machine and the guard after the inputs were copied, in the order \<open>as\<close>; \<open>R\<close> is what
  else is known of the platform's state.
\<close>

definition inputs_copied ::
  "capture_build \<Rightarrow> capture_env \<Rightarrow> bool \<Rightarrow> allocation_snapshot \<Rightarrow> ('o \<Rightarrow> bool) \<Rightarrow> active_allocation list \<Rightarrow>
   'o machine \<Rightarrow> scope_guard \<Rightarrow> bool" where
  "inputs_copied b env enabled sn R as mc sg \<longleftrightarrow>
     mset as = mset (sn_allocations sn) \<and> R (mc_os mc) \<and> restored b env sn mc \<and>
     describes b env enabled sn sg \<and>
     sg_allocations sg = List.map (\<lambda>a. stored_input (captured_entry b env a)) as"

definition grants_pages_with ::
  "('o \<Rightarrow> bool) \<Rightarrow> replay_build \<Rightarrow> 'o platform \<Rightarrow> allocation_snapshot \<Rightarrow> 'o machine \<Rightarrow> bool" where
  "grants_pages_with R rb pf sn m0 \<longleftrightarrow>
     (\<exists>hs m1 m2 ds m3. map_pages pf HOST (pages_for rb pf HOST sn) m0 = Some (hs, m1) \<and>
        device_init pf m1 = (Inr (), m2) \<and>
        map_pages pf DEVICE (pages_for rb pf DEVICE sn) m2 = Some (ds, m3) \<and> R (mc_os m3))"

lemma grants_pages_True [simp]: "grants_pages_with (\<lambda>_. True) rb pf sn m0 = grants_pages rb pf sn m0"
  by (simp add: grants_pages_with_def grants_pages_def)

text \<open>The replayer's state when the constructor returns.\<close>

definition guard_published ::
  "replay_build \<Rightarrow> byte list \<Rightarrow> byte list \<Rightarrow> (string \<times> string) list \<Rightarrow> policy_var \<Rightarrow> bool \<Rightarrow> 'o machine \<Rightarrow>
   scope_guard \<Rightarrow> 'o replayer \<Rightarrow> 'o replayer" where
  "guard_published rb fd nd metadata pv enabled mc sg s =
     (moved_to (rp_next_guard s) mc sg (loaded_dump rb fd nd metadata pv
        (s\<lparr>rp_next_guard := Suc (rp_next_guard s), rp_input_reset_enabled := enabled\<rparr>)))
       \<lparr>rp_replay_allocations := Some (rp_next_guard s), rp_initialized := True,
        rp_scope_guard := Some (rp_next_guard s)\<rparr>"

context hdf5_reader
begin

text \<open>
  The passes in the order of the constructor, on a state with an empty guard; what the last
  pass does with the reference outputs is left open.
\<close>

lemma achieves_load_dump:
  fixes s :: "'o replayer"
  assumes l: "place v root = Some (f, [])" and F: "h5_disk v f = Some F"
    and dump: "holds_dump b env F sn fd nd metadata policy label kid num"
    and ready: "replay_ready b env rb pf sn" and pages: "grants_pages_with R rb pf sn mc"
    and R: "memcpy_keeps pf R" and expected: "expected_policy rb policy = Some pv"
    and outputs: "\<And>as mc sg. inputs_copied b env (rp_input_reset_enabled s) sn R as mc sg \<Longrightarrow>
      achieves view v (moved_to g mc sg (loaded_dump rb fd nd metadata pv s))
        (restore_outputs (api_beside api) pf g (index_of b env as) root)
        (\<lambda>_ s'. \<exists>mc' sg'. Q mc' sg' \<and> s' = moved_to g mc' sg' (loaded_dump rb fd nd metadata pv s))"
  shows "achieves view v (moved_to g mc empty_guard s) (load_dump (api_beside api) rb pf g root)
    (\<lambda>_ s'. \<exists>mc' sg. Q mc' sg \<and> s' = moved_to g mc' sg (loaded_dump rb fd nd metadata pv s))"
proof -
  let ?xs = "named_allocations sn" and ?inputs = "inputs_copied b env (rp_input_reset_enabled s) sn R"
  obtain hs m1 m2 ds m3 where maps: "map_pages pf HOST (pages_for rb pf HOST sn) mc = Some (hs, m1)"
      "device_init pf m1 = (Inr (), m2)" "map_pages pf DEVICE (pages_for rb pf DEVICE sn) m2 = Some (ds, m3)"
    and m3: "R (mc_os m3)"
    using pages by (auto simp: grants_pages_with_def)
  have snap: "holds_snapshot b env F [''in''] sn" and meta: "stored_metadata F metadata"
    and pol: "stored_policy F policy" and fun_data: "stored_functor F fd nd"
    using dump by (simp_all add: holds_dump_def)
  have full: "\<forall>a \<in> set (sn_allocations sn). \<exists>bytes. fully_dumped b env a bytes"
    using ready by (simp add: replay_ready_def)
  note c = captured_group_in [OF snap full l F]
  have in_sn: "(m, a) \<in> set ?xs \<Longrightarrow> a \<in> set (sn_allocations sn)" for m a
    by (metis image_eqI named_allocations_snd set_map snd_conv)
  have grants: "list_all (\<lambda>(m, a). restorable rb pf a) ?xs"
    using ready in_sn by (auto simp: list_all_iff replay_ready_def)
  have page: "list_all (\<lambda>(m, a). has_data space a \<longrightarrow> (\<exists>r. pages_of rb pf a = Inr r)) ?xs" for space
    using grants by (auto simp: list_all_iff restorable_def has_data_def)
  have set: "snd ` set ?xs = set (sn_allocations sn)" by (metis named_allocations_snd set_map)
  have keys: "distinct (List.map (captured_key b env \<circ> snd) ?xs)"
    using ready by (simp add: replay_ready_def flip: map_map)
  let ?sg1 = "add_raw HOST hs empty_guard" and ?sg2 = "add_raw DEVICE ds (add_raw HOST hs empty_guard)"
  have host: "achieves view v (moved_to g mc empty_guard s) (restore_pages (api_beside api) rb pf g HOST root)
      (\<lambda>_ s'. s' = moved_to g m1 ?sg1 s)"
    by (rule achieves_restore_pages [OF c page]) (use maps(1) in \<open>simp add: set pages_for_def\<close>)
  have init: "achieves view v (moved_to g m1 ?sg1 s) (on_machine (device_init pf)) (\<lambda>_ s'. s' = moved_to g m2 ?sg1 s)"
    by (rule achieves_moved_machine [of "device_init pf" m1, OF maps(2)]) simp
  have device: "achieves view v (moved_to g m2 ?sg1 s) (restore_pages (api_beside api) rb pf g DEVICE root)
      (\<lambda>_ s'. s' = moved_to g m3 ?sg2 s)"
    by (rule achieves_restore_pages [OF c page]) (use maps(3) in \<open>simp add: set pages_for_def\<close>)
  have empty: "sg_allocations ?sg2 = []" by (simp add: add_raw_def empty_guard_def)
  have inputs: "achieves view v (moved_to g m3 ?sg2 s) (iterate_allocations (api_beside api) root ''in/views''
      (allocate_hdf5_dataset (api_beside api) (allocate_host_buffer pf) (copy_data_wrapper pf g)) Map.empty)
    (\<lambda>index s'. \<exists>as mc' sg. ?inputs as mc' sg \<and> index = index_of b env as \<and> s' = moved_to g mc' sg s)"
  proof (rule achieves_mono [OF achieves_copy_inputs [OF c grants keys empty R m3]])
    fix index s' assume "\<exists>as os. R os \<and> mset as = mset (List.map snd ?xs) \<and> index = index_of b env as \<and>
      s' = moved_to g (input_machine b env as os m3) (input_guard b env (rp_input_reset_enabled s) as ?sg2) s"
    then obtain as os where as: "R os" "mset as = mset (sn_allocations sn)" "index = index_of b env as"
      "s' = moved_to g (input_machine b env as os m3) (input_guard b env (rp_input_reset_enabled s) as ?sg2) s"
      by auto
    then have "?inputs as (input_machine b env as os m3) (input_guard b env (rp_input_reset_enabled s) as ?sg2)"
      using restored_input_machine [OF ready as(2)] describes_input_guard [OF as(2) maps(1,3)] empty
      by (simp add: inputs_copied_def sg_allocations_input_guard)
    with as show "\<exists>as mc' sg. ?inputs as mc' sg \<and> index = index_of b env as \<and> s' = moved_to g mc' sg s" by blast
  qed
  show ?thesis
    unfolding load_dump_def
  proof (rule achieves_and_then [OF host], hypsubst, rule achieves_and_then [OF init], hypsubst,
      rule achieves_and_then [OF device], hypsubst, rule achieves_and_then [OF inputs])
    fix index t
    assume "\<exists>as mc' sg. ?inputs as mc' sg \<and> index = index_of b env as \<and> t = moved_to g mc' sg s"
    then obtain as mc' sg where ok: "?inputs as mc' sg" and index: "index = index_of b env as"
      and t: "t = moved_to g mc' sg s" by blast
    show "achieves view v t (and_then (iterate_metadata (api_beside api) insert_metadata root) (\<lambda>_.
        and_then (read_functor_from_hdf5 (api_beside api) rb root) (\<lambda>_.
        and_then (read_policy_from_hdf5 (api_beside api) rb root) (\<lambda>_.
        restore_outputs (api_beside api) pf g index root))))
      (\<lambda>_ s'. \<exists>mc' sg. Q mc' sg \<and> s' = moved_to g mc' sg (loaded_dump rb fd nd metadata pv s))"
      unfolding t index
      by (rule achieves_and_then [OF achieves_metadata [OF l F meta]], hypsubst,
          rule achieves_and_then [OF achieves_functor [OF l F fun_data]], hypsubst,
          rule achieves_and_then [OF achieves_policy [OF l F pol expected]], hypsubst)
        (use outputs [OF ok] in \<open>simp add: loaded_moved\<close>)
  qed
qed

text \<open>
  The constructor itself: the arguments name the file, the file is opened and closed, and
  the globals point to the new guard.
\<close>

lemma construct_loads:
  fixes s :: "'o replayer"
  assumes F: "h5_disk (view w) fn = Some F"
    and dump: "holds_dump b env F sn fd nd metadata policy label kid num"
    and ready: "replay_ready b env rb pf sn" and pages: "grants_pages_with R rb pf sn (rp_machine s)"
    and R: "memcpy_keeps pf R" and expected: "expected_policy rb policy = Some pv"
    and new: "\<not> rp_initialized s" and args: "replay_arguments argc argv = (enabled, Some fn, argc', argv')"
    and outputs: "\<And>i as mc sg t. h5_refs (view w) i = None \<Longrightarrow> inputs_copied b env enabled sn R as mc sg \<Longrightarrow>
      achieves view (new_ref i (File_Ref fn) (view w)) (moved_to (rp_next_guard s) mc sg t)
        (restore_outputs (api_beside api) pf (rp_next_guard s) (index_of b env as) i)
        (\<lambda>_ s'. \<exists>mc' sg'. Q mc' sg' \<and> s' = moved_to (rp_next_guard s) mc' sg' t)"
  shows "\<exists>w' mc sg. construct_ScopeGuard (api_beside api) rb pf argc argv (w, s) =
      (Inr (rp_next_guard s), (w', guard_published rb fd nd metadata pv enabled mc sg s)) \<and>
      view w' = view w \<and> Q mc sg"
proof -
  let ?g = "rp_next_guard s"
  let ?t = "s\<lparr>rp_next_guard := Suc ?g, rp_input_reset_enabled := enabled\<rparr>"
  let ?s1 = "s\<lparr>rp_next_guard := Suc ?g, rp_guards := (rp_guards s)(?g \<mapsto> empty_guard)\<rparr>"
  let ?publish = "\<lambda>t. t\<lparr>rp_replay_allocations := Some ?g, rp_initialized := True, rp_scope_guard := Some ?g\<rparr>"
  let ?loaded = "\<lambda>s'. \<exists>mc' sg. Q mc' sg \<and> s' = moved_to ?g mc' sg (loaded_dump rb fd nd metadata pv ?t)"
  have s2: "?s1\<lparr>rp_input_reset_enabled := enabled\<rparr> = moved_to ?g (rp_machine s) empty_guard ?t"
    by (cases s) (simp add: moved_to_def)
  have opened: "achieves view (view w) (moved_to ?g (rp_machine s) empty_guard ?t)
      (scoped (CHECK_HDF5_ID ''H5Fopen'' (H5Fopen_rdonly (api_beside api) fn)) (H5Fclose (api_beside api))
        (load_dump (api_beside api) rb pf ?g)) (\<lambda>_. ?loaded)"
  proof (rule achieves_open_file)
    fix i assume i: "h5_refs (view w) i = None"
    have "place (new_ref i (File_Ref fn) (view w)) i = Some (fn, [])" by (simp add: place_def)
    then show "achieves view (new_ref i (File_Ref fn) (view w)) (moved_to ?g (rp_machine s) empty_guard ?t)
        (load_dump (api_beside api) rb pf ?g i) (\<lambda>_. ?loaded)"
      by (rule achieves_load_dump [where R = R, OF _ _ dump ready pages R expected])
        (use F outputs [OF i] in simp_all)
  qed (simp add: F)
  have body: "achieves view (view w) ?s1 (construct_body (api_beside api) rb pf ?g argc argv)
      (\<lambda>_ s'. \<exists>t. ?loaded t \<and> s' = ?publish t)"
    unfolding construct_body_def
  proof (rule achieves_and_then [OF achieves_reading [where P = "\<lambda>x t. \<not> x \<and> t = ?s1"]])
    show "\<not> rp_initialized ?s1 \<and> ?s1 = ?s1" using new by simp
  next
    fix x t assume xt: "\<not> x \<and> t = ?s1"
    have "achieves view (view w) ?s1 (and_then (update (\<lambda>s. s\<lparr>rp_input_reset_enabled := enabled\<rparr>)) (\<lambda>_.
        and_then (scoped (CHECK_HDF5_ID ''H5Fopen'' (H5Fopen_rdonly (api_beside api) fn))
          (H5Fclose (api_beside api)) (load_dump (api_beside api) rb pf ?g)) (\<lambda>_. update ?publish)))
        (\<lambda>_ s'. \<exists>t. ?loaded t \<and> s' = ?publish t)"
    proof (rule achieves_and_then [OF achieves_update
          [where P = "\<lambda>_ t. t = moved_to ?g (rp_machine s) empty_guard ?t"]])
      fix u t assume "t = moved_to ?g (rp_machine s) empty_guard ?t"
      then show "achieves view (view w) t (and_then (scoped (CHECK_HDF5_ID ''H5Fopen''
          (H5Fopen_rdonly (api_beside api) fn)) (H5Fclose (api_beside api)) (load_dump (api_beside api) rb pf ?g))
          (\<lambda>_. update ?publish)) (\<lambda>_ s'. \<exists>t. ?loaded t \<and> s' = ?publish t)"
        by (simp only:) (rule achieves_and_then [OF opened], rule achieves_update, blast)
    qed (rule s2)
    then show "achieves view (view w) t (if x then throw (Std_Exception
        ''Constructing a ScopeGuard but krepe has already been initialized'')
      else let (enable, dump, _, _) = replay_arguments argc argv in
       and_then (update (\<lambda>s. s\<lparr>rp_input_reset_enabled := enable\<rparr>)) (\<lambda>_.
       case dump of None \<Rightarrow> throw (Std_Exception ''The kernel replayer expects the flag --kernel-replayer-dump'')
       | Some hdf5_filename \<Rightarrow>
           and_then (scoped (CHECK_HDF5_ID ''H5Fopen'' (H5Fopen_rdonly (api_beside api) hdf5_filename))
             (H5Fclose (api_beside api)) (load_dump (api_beside api) rb pf ?g)) (\<lambda>_. update ?publish)))
      (\<lambda>_ s'. \<exists>t. ?loaded t \<and> s' = ?publish t)"
      using xt by (simp add: args)
  qed
  obtain u w' s' where run: "construct_body (api_beside api) rb pf ?g argc argv (w, ?s1) = (Inr u, (w', s'))"
      "view w' = view w" "\<exists>t. ?loaded t \<and> s' = ?publish t"
    by (rule achievesD [OF body refl])
  have "construct_ScopeGuard (api_beside api) rb pf argc argv (w, s) = (Inr ?g, (w', s'))"
    using run(1) by (simp add: construct_ScopeGuard_def update_def Let_def)
  moreover have "\<exists>mc sg. s' = guard_published rb fd nd metadata pv enabled mc sg s \<and> Q mc sg"
    using run(3) by (auto simp: guard_published_def)
  ultimately show ?thesis using run(2) by blast
qed

text \<open>Without reference outputs.\<close>

lemma construct_replays:
  fixes s :: "'o replayer"
  assumes F: "h5_disk (view w) fn = Some F"
    and dump: "holds_dump b env F sn fd nd metadata policy label kid num"
    and out: "[] \<in> fl_groups F" "empty_under F [''out'']"
    and ready: "replay_ready b env rb pf sn" and pages: "grants_pages rb pf sn (rp_machine s)"
    and expected: "expected_policy rb policy = Some pv"
    and new: "\<not> rp_initialized s" and args: "replay_arguments argc argv = (enabled, Some fn, argc', argv')"
  shows "\<exists>w' s'. construct_ScopeGuard (api_beside api) rb pf argc argv (w, s) =
      (Inr (rp_next_guard s), (w', s')) \<and> view w' = view w \<and>
      replays b env rb sn fd nd metadata pv enabled s s'"
proof -
  let ?Q = "\<lambda>mc sg. restored b env sn mc \<and> describes b env enabled sn sg"
  have none: "achieves view (new_ref i (File_Ref fn) (view w)) (moved_to (rp_next_guard s) mc sg t)
      (restore_outputs (api_beside api) pf (rp_next_guard s) (index_of b env as) i)
      (\<lambda>_ s'. \<exists>mc' sg'. ?Q mc' sg' \<and> s' = moved_to (rp_next_guard s) mc' sg' t)"
    if "inputs_copied b env enabled sn (\<lambda>_. True) as mc sg" for i as mc sg t
    by (rule achieves_mono [OF achieves_no_outputs [OF _ _ out]])
      (use that F in \<open>auto simp: place_def inputs_copied_def\<close>)
  from construct_loads [OF F dump ready _ memcpy_keeps_True expected new args none]
  obtain w' mc sg where "construct_ScopeGuard (api_beside api) rb pf argc argv (w, s) =
      (Inr (rp_next_guard s), (w', guard_published rb fd nd metadata pv enabled mc sg s))" "view w' = view w" "?Q mc sg"
    using pages by auto
  moreover from this have "replays b env rb sn fd nd metadata pv enabled s
      (guard_published rb fd nd metadata pv enabled mc sg s)"
    by (auto simp: replays_def guard_published_def loaded_dump_def with_policy_def with_functor_def
      with_metadata_def moved_to_def)
  ultimately show ?thesis by blast
qed

end

section \<open>The contents of a dump that was just created\<close>

lemma image_dump_root: "[] \<in> fl_groups (image_dump b env s fd nd metadata policy label kid num empty_file)"
proof -
  have keep: "[] \<in> fl_groups (g F) \<longleftrightarrow> [] \<in> fl_groups F" if "only_under [m] g" for m g F
    using same_at_root [OF that, of F] by (simp add: same_at_def)
  show ?thesis
    unfolding image_dump_parts
    by (simp add: keep [OF dump_parts_under(1)] keep [OF dump_parts_under(2)] keep [OF dump_parts_under(3)]
      keep [OF dump_parts_under(4)]) (simp add: dump_kernel_def empty_file_def put_attr_def)
qed

text \<open>In the restored host memory a host allocation reads as it did when it was captured.\<close>

lemma restored_host:
  assumes "restored b env sn mc" and "a \<in> set (sn_allocations sn)" and "ar_space (aa_record a) = ''Host''"
  shows "read_bytes (mc_host mc) (ar_p_data (aa_record a)) (unat (ar_size (aa_record a))) =
    read_bytes (host_memory env) (ar_p_data (aa_record a)) (unat (ar_size (aa_record a)))"
proof -
  have host: "memory_of (space_of a) mc = mc_host mc"
    using assms(3) by (simp add: space_of_def memory_space_type_from_string_def memory_of_def)
  have "dumpable b env (aa_record a) =
      Some (read_bytes (mc_host mc) (ar_p_data (aa_record a)) (unat (ar_size (aa_record a))))"
    using assms(1,2) by (simp add: restored_def flip: host)
  moreover have "is_host_accessible_space ''Host''" by (simp add: is_host_accessible_space_def)
  ultimately show ?thesis
    using assms(3) by (auto simp: dumpable_def machine_bytes_def split: if_splits)
qed

context hdf5_reader
begin

text \<open>A dump that was just created, replayed.\<close>

lemma created_dump_replays:
  fixes s :: "'o replayer"
  assumes run: "create_kernel_dump b env api absolute sn fd nd metadata policy label kid num w0 = (r, w1)"
    and ok: "vr_ok r" and "replay_ready b env rb pf sn" and "expected_policy rb policy = Some pv"
    and "\<not> rp_initialized s" and "grants_pages rb pf sn (rp_machine s)"
    and "replay_arguments argc argv = (enabled, Some (vr_filename r), argc', argv')"
  shows "\<exists>w2 s'. construct_ScopeGuard (api_beside api) rb pf argc argv (w1, s) =
      (Inr (rp_next_guard s), (w2, s')) \<and> view w2 = view w1 \<and>
      replays b env rb sn fd nd metadata pv enabled s s'"
proof -
  let ?F = "image_dump b env sn fd nd metadata policy label kid num empty_file"
  have "h5_disk (view w1) (vr_filename r) = Some ?F"
    using create_kernel_dump_view(2) [OF run ok] by simp
  from construct_replays [OF this image_dump_holds(1) image_dump_root image_dump_holds(2) assms(3,6,4,5,7)]
  show ?thesis .
qed

end

section \<open>Resetting the inputs\<close>

lemma copies_again:
  assumes "list_all (restorable rb pf) as"
  shows "\<exists>os. for_each (\<lambda>input. copy_data pf (is_memory_space input) (is_address input) (is_data input))
      (concat (List.map (\<lambda>a. kept_input True (captured_entry b env a) (captured_bytes b env a)) as)) mc =
    (Inr (), input_machine b env as os mc)"
  using assms
proof (induction as rule: rev_induct)
  case Nil
  then show ?case by (auto simp: done_with_def input_machine_def intro: exI [of _ "mc_os mc"])
next
  case (snoc a as)
  let ?copy = "\<lambda>input. copy_data pf (is_memory_space input) (is_address input) (is_data input)"
  let ?e = "captured_entry b env a" and ?bytes = "captured_bytes b env a"
  have ok: "list_all (restorable rb pf) as" "restorable rb pf a" using snoc.prems by simp_all
  obtain os where os: "for_each ?copy (concat (List.map (\<lambda>a. kept_input True (captured_entry b env a)
      (captured_bytes b env a)) as)) mc = (Inr (), input_machine b env as os mc)"
    using snoc.IH [OF ok(1)] by blast
  obtain os' where c: "copies_to pf ?e ?bytes (input_machine b env as os mc)
      (input_machine b env [a] os' (input_machine b env as os mc))"
    using copies_captured [OF ok(2) memcpy_keeps_True] by blast
  have "for_each ?copy (kept_input True ?e ?bytes) (input_machine b env as os mc) =
      (Inr (), input_machine b env (as @ [a]) os' mc)"
    using c unfolding input_machine_snoc
    by (auto simp: copies_to_def kept_input_def and_then_def done_with_def split: if_splits)
  then show ?case using os by (auto simp: for_each_append and_then_def)
qed

text \<open>\<open>reset_inputs\<close> in a session that replays a dump, whatever the memory holds then.\<close>

lemma reset_restores:
  fixes s :: "'o replayer" and w :: 'w
  assumes ready: "replay_ready b env rb pf sn" and guard: "rp_scope_guard s = Some g" "rp_guards s g = Some sg"
    and kept: "describes b env True sn sg" and enabled: "rp_input_reset_enabled s"
  shows "\<exists>mc. reset_inputs pf True (w, s) = (Inr (), (w, s\<lparr>rp_machine := mc\<rparr>)) \<and> restored b env sn mc"
proof -
  obtain as where as: "mset as = mset (sn_allocations sn)"
    and inputs: "sg_inputs sg = concat (List.map (\<lambda>a. kept_input True (captured_entry b env a) (captured_bytes b env a)) as)"
    using kept by (auto simp: describes_def)
  have "set as = set (sn_allocations sn)" using as by (metis set_mset_mset)
  then have "list_all (restorable rb pf) as" using ready by (simp add: replay_ready_def list_all_iff)
  from copies_again [OF this, of b env "rp_machine s"] obtain os where
    "for_each (\<lambda>input. copy_data pf (is_memory_space input) (is_address input) (is_data input)) (sg_inputs sg)
       (rp_machine s) = (Inr (), input_machine b env as os (rp_machine s))"
    unfolding inputs ..
  then have "reset_inputs pf True (w, s) =
      (Inr (), (w, s\<lparr>rp_machine := input_machine b env as os (rp_machine s)\<rparr>))"
    using guard enabled
    by (simp add: reset_inputs_def guard_reset_inputs_def and_then_def reading_def on_machine_def guard_of_def)
  then show ?thesis
    by (intro exI [of _ "input_machine b env as os (rp_machine s)"] conjI restored_input_machine [OF ready as])
qed

end
