(* ===== verification/Reference_Store.thy ===== *)
theory Reference_Store
  imports Hdf5_Store
begin

text \<open>
  A library that satisfies the laws of \<open>Hdf5_Store\<close>: files in memory, as lists, and a
  table of handles.  It shows that the laws can hold, and the concrete executions of the
  development run on it.  It is not a model of the HDF5 library's code.
\<close>

section \<open>State\<close>

record ref_file =
  rf_groups :: "h5path list"
  rf_attrs :: "((h5path \<times> string) \<times> h5attr) list"
  rf_datasets :: "(h5path \<times> h5data) list"

text \<open>Handles below \<open>rw_next\<close> have been given out.\<close>

record ref_world =
  rw_next :: nat
  rw_refs :: "hid \<Rightarrow> h5ref option"
  rw_disk :: "(string \<times> ref_file) list"

definition ref_ref :: "ref_world \<Rightarrow> hid \<Rightarrow> h5ref option" where
  "ref_ref w i = (if i < int (rw_next w) then rw_refs w i else None)"

definition ref_contents :: "ref_file \<Rightarrow> h5file" where
  "ref_contents F =
     \<lparr>fl_groups = set (rf_groups F), fl_attrs = (\<lambda>p n. map_of (rf_attrs F) (p, n)),
      fl_datasets = map_of (rf_datasets F)\<rparr>"

definition ref_view :: "ref_world \<Rightarrow> h5view" where
  "ref_view w =
     \<lparr>h5_refs = ref_ref w, h5_disk = (\<lambda>f. map_option ref_contents (map_of (rw_disk w) f))\<rparr>"

definition ref_start :: ref_world where
  "ref_start = \<lparr>rw_next = 0, rw_refs = Map.empty, rw_disk = []\<rparr>"

section \<open>Operations\<close>

definition ref_fail :: "ref_world \<Rightarrow> int \<times> ref_world" where
  "ref_fail w = (-1, w)"

definition ref_open :: "h5ref \<Rightarrow> ref_world \<Rightarrow> hid \<times> ref_world" where
  "ref_open r w =
     (int (rw_next w),
      w\<lparr>rw_next := Suc (rw_next w), rw_refs := (rw_refs w)(int (rw_next w) := Some r)\<rparr>)"

definition ref_close :: "h5kind \<Rightarrow> hid \<Rightarrow> ref_world \<Rightarrow> herr \<times> ref_world" where
  "ref_close k i w =
     (if map_option kind_of (ref_ref w i) = Some k then (0, w\<lparr>rw_refs := (rw_refs w)(i := None)\<rparr>)
      else ref_fail w)"

definition ref_place :: "ref_world \<Rightarrow> hid \<Rightarrow> (string \<times> h5path \<times> ref_file) option" where
  "ref_place w l =
     (case Option.bind (ref_ref w l) place_of of
        None \<Rightarrow> None
      | Some (f, p) \<Rightarrow> map_option (\<lambda>F. (f, p, F)) (map_of (rw_disk w) f))"

definition ref_type :: "ref_world \<Rightarrow> h5tid \<Rightarrow> h5type option" where
  "ref_type w ty =
     (case ty of
        Predefined n \<Rightarrow> Some (Native_Type n)
      | Type_Handle t \<Rightarrow> (case ref_ref w t of Some (Type_Ref T) \<Rightarrow> Some T | _ \<Rightarrow> None))"

definition ref_save :: "string \<Rightarrow> ref_file \<Rightarrow> ref_world \<Rightarrow> ref_world" where
  "ref_save f F w = w\<lparr>rw_disk := AList.update f F (rw_disk w)\<rparr>"

definition ref_exists :: "ref_file \<Rightarrow> h5path \<Rightarrow> bool" where
  "ref_exists F p \<longleftrightarrow> p \<in> set (rf_groups F) \<or> map_of (rf_datasets F) p \<noteq> None"

definition ref_Tset_size :: "hid \<Rightarrow> nat \<Rightarrow> ref_world \<Rightarrow> herr \<times> ref_world" where
  "ref_Tset_size t n w =
     (case ref_ref w t of
        Some (Type_Ref T) \<Rightarrow> (0, w\<lparr>rw_refs := (rw_refs w)(t := Some (Type_Ref (C_String n)))\<rparr>)
      | _ \<Rightarrow> ref_fail w)"

definition ref_Acreate2 :: "hid \<Rightarrow> string \<Rightarrow> h5tid \<Rightarrow> hid \<Rightarrow> ref_world \<Rightarrow> hid \<times> ref_world" where
  "ref_Acreate2 l name ty sp w =
     (case (ref_place w l, ref_type w ty) of
        (Some (f, p, F), Some T) \<Rightarrow>
          if map_of (rf_attrs F) (p, name) \<noteq> None then ref_fail w
          else ref_open (Attr_Ref f p name)
                 (ref_save f (F\<lparr>rf_attrs := AList.update (p, name) (T, None) (rf_attrs F)\<rparr>) w)
      | _ \<Rightarrow> ref_fail w)"

definition ref_attr :: "ref_world \<Rightarrow> hid \<Rightarrow> (string \<times> h5path \<times> string \<times> ref_file \<times> h5attr) option" where
  "ref_attr w a =
     (case ref_ref w a of
        Some (Attr_Ref f p name) \<Rightarrow>
          (case map_of (rw_disk w) f of
             None \<Rightarrow> None
           | Some F \<Rightarrow> map_option (\<lambda>x. (f, p, name, F, x)) (map_of (rf_attrs F) (p, name)))
      | _ \<Rightarrow> None)"

definition ref_Awrite :: "hid \<Rightarrow> h5tid \<Rightarrow> h5buf \<Rightarrow> ref_world \<Rightarrow> herr \<times> ref_world" where
  "ref_Awrite a ty buf w =
     (case ref_attr w a of
        Some (f, p, name, F, (T, x)) \<Rightarrow>
          if ref_type w ty \<noteq> Some T then ref_fail w
          else (0, ref_save f (F\<lparr>rf_attrs := AList.update (p, name) (T, Some buf) (rf_attrs F)\<rparr>) w)
      | None \<Rightarrow> ref_fail w)"

definition ref_Aopen_by_name :: "hid \<Rightarrow> string \<Rightarrow> string \<Rightarrow> ref_world \<Rightarrow> hid \<times> ref_world" where
  "ref_Aopen_by_name l obj name w =
     (case ref_place w l of
        Some (f, p, F) \<Rightarrow>
          if map_of (rf_attrs F) (p @ split_path obj, name) = None then ref_fail w
          else ref_open (Attr_Ref f (p @ split_path obj) name) w
      | None \<Rightarrow> ref_fail w)"

definition ref_Aget_info :: "hid \<Rightarrow> ref_world \<Rightarrow> (herr \<times> nat) \<times> ref_world" where
  "ref_Aget_info a w =
     (case ref_attr w a of
        Some (f, p, name, F, (T, x)) \<Rightarrow> ((0, type_size T), w)
      | None \<Rightarrow> ((-1, 0), w))"

definition ref_Aget_type :: "hid \<Rightarrow> ref_world \<Rightarrow> hid \<times> ref_world" where
  "ref_Aget_type a w =
     (case ref_attr w a of
        Some (f, p, name, F, (T, x)) \<Rightarrow> ref_open (Type_Ref T) w
      | None \<Rightarrow> ref_fail w)"

definition ref_Aread :: "hid \<Rightarrow> h5tid \<Rightarrow> ref_world \<Rightarrow> (herr \<times> h5buf) \<times> ref_world" where
  "ref_Aread a ty w =
     (case ref_attr w a of
        Some (f, p, name, F, (T, Some buf)) \<Rightarrow>
          if ref_type w ty = Some T then ((0, buf), w) else ((-1, Chars []), w)
      | _ \<Rightarrow> ((-1, Chars []), w))"

definition ref_Dcreate2 :: "hid \<Rightarrow> string \<Rightarrow> h5tid \<Rightarrow> hid \<Rightarrow> ref_world \<Rightarrow> hid \<times> ref_world" where
  "ref_Dcreate2 l name ty sp w =
     (case (ref_place w l, ty, ref_ref w sp) of
        (Some (f, p, F), Predefined nty, Some (Space_Ref (Some n))) \<Rightarrow>
          (let q = p @ split_path name in
           if ref_exists F q \<or> butlast q \<notin> set (rf_groups F) then ref_fail w
           else ref_open (Dataset_Ref f q)
             (ref_save f (F\<lparr>rf_datasets := AList.update q (nty, n, None) (rf_datasets F)\<rparr>) w))
      | _ \<Rightarrow> ref_fail w)"

definition ref_Dwrite :: "hid \<Rightarrow> h5tid \<Rightarrow> h5buf \<Rightarrow> ref_world \<Rightarrow> herr \<times> ref_world" where
  "ref_Dwrite d ty buf w =
     (case (ref_ref w d, ty) of
        (Some (Dataset_Ref f p), Predefined nty) \<Rightarrow>
          (case map_of (rw_disk w) f of
             None \<Rightarrow> ref_fail w
           | Some F \<Rightarrow>
               (case map_of (rf_datasets F) p of
                  None \<Rightarrow> ref_fail w
                | Some (nty', n, x) \<Rightarrow>
                    if nty' \<noteq> nty then ref_fail w
                    else (0, ref_save f (F\<lparr>rf_datasets :=
                            AList.update p (nty, n, Some buf) (rf_datasets F)\<rparr>) w)))
      | _ \<Rightarrow> ref_fail w)"

definition ref_Gcreate2 :: "hid \<Rightarrow> string \<Rightarrow> ref_world \<Rightarrow> hid \<times> ref_world" where
  "ref_Gcreate2 l name w =
     (case ref_place w l of
        Some (f, p, F) \<Rightarrow>
          (let q = p @ split_path name in
           if ref_exists F q \<or> butlast q \<notin> set (rf_groups F) then ref_fail w
           else ref_open (Group_Ref f q) (ref_save f (F\<lparr>rf_groups := q # rf_groups F\<rparr>) w))
      | None \<Rightarrow> ref_fail w)"

definition ref_Fcreate_trunc :: "string \<Rightarrow> ref_world \<Rightarrow> hid \<times> ref_world" where
  "ref_Fcreate_trunc fn w =
     ref_open (File_Ref fn) (ref_save fn \<lparr>rf_groups = [[]], rf_attrs = [], rf_datasets = []\<rparr> w)"

definition ref_Fopen :: "string \<Rightarrow> ref_world \<Rightarrow> hid \<times> ref_world" where
  "ref_Fopen fn w = (if map_of (rw_disk w) fn = None then ref_fail w else ref_open (File_Ref fn) w)"

definition ref_data :: "ref_world \<Rightarrow> hid \<Rightarrow> string \<Rightarrow> h5data option" where
  "ref_data w l name =
     (case ref_place w l of
        Some (f, p, F) \<Rightarrow> map_of (rf_datasets F) (p @ split_path name)
      | None \<Rightarrow> None)"

definition ref_ndims :: "hid \<Rightarrow> string \<Rightarrow> ref_world \<Rightarrow> (herr \<times> int) \<times> ref_world" where
  "ref_ndims l name w = (if ref_data w l name = None then ((-1, 0), w) else ((0, 1), w))"

definition ref_info :: "hid \<Rightarrow> string \<Rightarrow> ref_world \<Rightarrow> (herr \<times> h5info) \<times> ref_world" where
  "ref_info l name w =
     (case ref_data w l name of
        Some (nty, n, x) \<Rightarrow>
          ((0, \<lparr>info_count = n, info_is_integer = True, info_type_size = type_size (Native_Type nty)\<rparr>), w)
      | None \<Rightarrow> ((-1, \<lparr>info_count = 0, info_is_integer = False, info_type_size = 0\<rparr>), w))"

definition ref_read :: "hid \<Rightarrow> string \<Rightarrow> h5native \<Rightarrow> ref_world \<Rightarrow> (herr \<times> h5buf) \<times> ref_world" where
  "ref_read l name nty w =
     (case ref_data w l name of
        Some (nty', n, Some buf) \<Rightarrow> if nty = nty' then ((0, buf), w) else ((-1, Chars []), w)
      | Some (nty', n, None) \<Rightarrow> if n = 0 then ((0, empty_buffer nty), w) else ((-1, Chars []), w)
      | None \<Rightarrow> ((-1, Chars []), w))"

definition ref_Lexists :: "hid \<Rightarrow> string \<Rightarrow> ref_world \<Rightarrow> herr \<times> ref_world" where
  "ref_Lexists l name w =
     (case ref_place w l of
        Some (f, p, F) \<Rightarrow>
          if p @ butlast (split_path name) \<notin> set (rf_groups F) then ref_fail w
          else (if ref_exists F (p @ split_path name) then 1 else 0, w)
      | None \<Rightarrow> ref_fail w)"

definition ref_Literate_open :: "hid \<Rightarrow> string \<Rightarrow> ref_world \<Rightarrow> hid \<times> ref_world" where
  "ref_Literate_open l name w =
     (case ref_place w l of
        Some (f, p, F) \<Rightarrow>
          if p @ split_path name \<notin> set (rf_groups F) then ref_fail w
          else ref_open (Group_Ref f (p @ split_path name)) w
      | None \<Rightarrow> ref_fail w)"

definition ref_Literate_names :: "hid \<Rightarrow> ref_world \<Rightarrow> string list" where
  "ref_Literate_names l w =
     (case ref_place w l of
        Some (f, p, F) \<Rightarrow>
          remdups (List.map last
            (List.filter (\<lambda>q. q \<noteq> [] \<and> butlast q = p) (rf_groups F @ List.map fst (rf_datasets F))))
      | None \<Rightarrow> [])"

definition ref_Aiterate_names :: "hid \<Rightarrow> ref_world \<Rightarrow> string list" where
  "ref_Aiterate_names l w =
     (case ref_place w l of
        Some (f, p, F) \<Rightarrow>
          remdups (List.map snd (List.filter (\<lambda>q. fst q = p) (List.map fst (rf_attrs F))))
      | None \<Rightarrow> [])"

definition ref_api :: "ref_world hdf5" where
  "ref_api =
     \<lparr>H5Tcopy_c_s1 = ref_open (Type_Ref (C_String 1)), H5Tset_size = ref_Tset_size,
      H5Tset_strpad_nullterm = (\<lambda>t w. (0, w)), H5Tclose = ref_close Type_Kind,
      H5Screate_scalar = ref_open (Space_Ref None),
      H5Screate_simple = (\<lambda>n. ref_open (Space_Ref (Some n))), H5Sclose = ref_close Space_Kind,
      H5Acreate2 = ref_Acreate2, H5Awrite = ref_Awrite, H5Aopen_by_name = ref_Aopen_by_name,
      H5Aget_info = ref_Aget_info, H5Aget_type = ref_Aget_type, H5Aread = ref_Aread,
      H5Aclose = ref_close Attribute_Kind, H5Dcreate2 = ref_Dcreate2, H5Dwrite = ref_Dwrite,
      H5Dclose = ref_close Dataset_Kind, H5Gcreate2 = ref_Gcreate2,
      H5Gclose = ref_close Group_Kind, H5Fcreate_trunc = ref_Fcreate_trunc,
      H5Fopen_rdwr = ref_Fopen, H5Fopen_rdonly = ref_Fopen, H5Fclose = ref_close File_Kind,
      H5LTget_dataset_ndims = ref_ndims, H5LTget_dataset_info = ref_info,
      H5Lexists = ref_Lexists, H5Literate_open = ref_Literate_open,
      H5Literate_names = ref_Literate_names, H5Aiterate_names = ref_Aiterate_names,
      H5LTread_dataset = ref_read\<rparr>"

section \<open>The laws hold\<close>

lemma ref_view_simps [simp]:
  "h5_refs (ref_view w) = ref_ref w"
  "h5_disk (ref_view w) f = map_option ref_contents (map_of (rw_disk w) f)"
  "handle_kinds (ref_view w) i = map_option kind_of (ref_ref w i)"
  "type_of_tid (ref_view w) ty = ref_type w ty"
  "place (ref_view w) l = Option.bind (ref_ref w l) place_of"
  by (simp_all add: ref_view_def handle_kinds_def type_of_tid_def ref_type_def place_def
    split: h5tid.split)

lemma ref_ref_simps [simp]:
  "ref_ref (ref_save f F w) = ref_ref w"
  "ref_ref (snd (ref_open r w)) i = (if i = int (rw_next w) then Some r else ref_ref w i)"
  "ref_ref w (int (rw_next w)) = None"
  by (auto simp: ref_ref_def ref_save_def ref_open_def fun_eq_iff)

lemma ref_open_view: "ref_view (snd (ref_open r w)) = new_ref (fst (ref_open r w)) r (ref_view w)"
  by (auto simp: ref_view_def new_ref_def ref_open_def ref_ref_def fun_eq_iff)

lemma ref_save_view:
  "map_of (rw_disk w) f = Some F \<Longrightarrow> ref_contents G = g (ref_contents F) \<Longrightarrow>
     ref_view (ref_save f G w) = on_file f g (ref_view w)"
  by (auto simp: ref_view_def on_file_def ref_save_def ref_ref_def fun_eq_iff update_conv')

lemma ref_contents_updates [simp]:
  "ref_contents (F\<lparr>rf_attrs := AList.update (p, n) a (rf_attrs F)\<rparr>) = put_attr p n a (ref_contents F)"
  "ref_contents (F\<lparr>rf_datasets := AList.update p d (rf_datasets F)\<rparr>) = put_data p d (ref_contents F)"
  "ref_contents (F\<lparr>rf_groups := p # rf_groups F\<rparr>) = put_group p (ref_contents F)"
  by (auto simp: ref_contents_def put_attr_def put_data_def put_group_def fun_eq_iff update_conv')

lemma ref_close_view:
  "map_option kind_of (ref_ref w i) = Some k \<Longrightarrow>
     fst (ref_close k i w) = 0 \<and> ref_view (snd (ref_close k i w)) = drop_ref i (ref_view w)"
  by (auto simp: ref_close_def ref_view_def drop_ref_def ref_ref_def fun_eq_iff)

abbreviation ref_handles :: "ref_world \<Rightarrow> hid \<rightharpoonup> h5kind" where
  "ref_handles w \<equiv> handle_kinds (ref_view w)"

lemma ref_save_next [simp]: "rw_next (ref_save f F w) = rw_next w"
  by (simp add: ref_save_def)

definition ref_opened :: "h5kind \<Rightarrow> ref_world \<Rightarrow> hid \<times> ref_world \<Rightarrow> bool" where
  "ref_opened k w result \<longleftrightarrow> result = ref_fail w \<or>
     (\<exists>r v. result = ref_open r v \<and> kind_of r = k \<and> ref_ref v = ref_ref w \<and> rw_next v = rw_next w)"

lemma ref_opened_rules [simp]:
  "ref_opened k w (ref_fail w)"
  "ref_opened (kind_of r) w (ref_open r w)"
  "ref_opened (kind_of r) w (ref_open r (ref_save f F w))"
  unfolding ref_opened_def by fastforce+

lemma ref_opened_kinds [simp]:
  "ref_opened Type_Kind w (ref_open (Type_Ref T) w)"
  "ref_opened Space_Kind w (ref_open (Space_Ref d) w)"
  "ref_opened File_Kind w (ref_open (File_Ref fn) w)"
  "ref_opened File_Kind w (ref_open (File_Ref fn) (ref_save f F w))"
  "ref_opened Group_Kind w (ref_open (Group_Ref fn p) w)"
  "ref_opened Group_Kind w (ref_open (Group_Ref fn p) (ref_save f F w))"
  "ref_opened Attribute_Kind w (ref_open (Attr_Ref fn p n) w)"
  "ref_opened Attribute_Kind w (ref_open (Attr_Ref fn p n) (ref_save f F w))"
  "ref_opened Dataset_Kind w (ref_open (Dataset_Ref fn p) (ref_save f F w))"
  using ref_opened_rules(2,3) kind_of.simps by metis+

lemma ref_opensI:
  assumes "\<And>w. ref_opened k w (f w)"
  shows "opens ref_handles k f"
  unfolding opens_def
proof (intro allI)
  fix w
  consider "f w = ref_fail w" | r v where "f w = ref_open r v" "kind_of r = k"
    "ref_ref v = ref_ref w" "rw_next v = rw_next w"
    using assms [of w] by (auto simp: ref_opened_def)
  then show "let (i, w') = f w in if 0 \<le> i then ref_handles w i = None \<and>
      ref_handles w' = (ref_handles w)(i \<mapsto> k) else ref_handles w' = ref_handles w"
  proof cases
    case 1
    then show ?thesis by (simp add: ref_fail_def)
  next
    case 2
    have "fst (ref_open r v) = int (rw_next w)" using 2(4) by (simp add: ref_open_def)
    then show ?thesis using 2 by (auto simp: case_prod_beta fun_eq_iff)
  qed
qed

lemma ref_closes: "closes ref_handles k (ref_close k)"
proof -
  have "handle_kinds (drop_ref i v) = (handle_kinds v)(i := None)" for i and v :: h5view
    by (simp add: handle_kinds_def fun_eq_iff)
  then show ?thesis using ref_close_view by (simp add: closes_def)
qed

lemma ref_keeps:
  "keeps ref_handles (ref_Tset_size t n)" "keeps ref_handles (ref_Awrite a ty buf)"
  "keeps ref_handles (ref_Aget_info a)" "keeps ref_handles (ref_Aread a ty)"
  "keeps ref_handles (ref_Dwrite d ty buf)" "keeps ref_handles (ref_ndims l name)"
  "keeps ref_handles (ref_info l name)" "keeps ref_handles (ref_read l name nty)"
  "keeps ref_handles (ref_Lexists l name)" "keeps ref_handles (\<lambda>w. (0, w))"
  unfolding keeps_def
  by (auto simp: ref_Tset_size_def ref_Awrite_def ref_Aget_info_def ref_Aread_def ref_Dwrite_def
      ref_ndims_def ref_info_def ref_read_def ref_Lexists_def ref_fail_def ref_ref_def fun_eq_iff
      ref_save_def split: option.splits h5ref.splits h5tid.splits)

interpretation ref_lib: hdf5_handles ref_api ref_handles
proof (unfold_locales, goal_cases)
  case (4 l name ty sp)
  show ?case
    by (rule ref_opensI) (simp add: ref_api_def ref_Acreate2_def split: option.split)
next
  case (5 l obj name)
  show ?case
    by (rule ref_opensI) (simp add: ref_api_def ref_Aopen_by_name_def split: option.split)
next
  case (6 a)
  show ?case
    by (rule ref_opensI) (simp add: ref_api_def ref_Aget_type_def split: option.split)
next
  case (7 l name ty sp)
  show ?case
    by (rule ref_opensI)
      (simp add: ref_api_def ref_Dcreate2_def Let_def split: option.split h5tid.split h5ref.split)
next
  case (8 l name)
  show ?case
    by (rule ref_opensI) (simp add: ref_api_def ref_Gcreate2_def Let_def split: option.split)
next
  case (12 l name)
  show ?case
    by (rule ref_opensI) (simp add: ref_api_def ref_Literate_open_def split: option.split)
qed (auto intro!: ref_opensI simp: ref_api_def ref_closes ref_keeps ref_Fcreate_trunc_def ref_Fopen_def)

lemma ref_opened_view:
  "ref_open r v = (i, w') \<Longrightarrow> ref_view w' = new_ref i r (ref_view v)"
  using ref_open_view [of r v] by simp

lemma ref_fail_iff [simp]: "ref_fail w = (i, w') \<longleftrightarrow> i = -1 \<and> w' = w"
  by (auto simp: ref_fail_def)

lemma ref_placeD:
  "Option.bind (ref_ref w l) place_of = Some (f, p) \<Longrightarrow>
     ref_place w l = map_option (\<lambda>F. (f, p, F)) (map_of (rw_disk w) f)"
  by (simp add: ref_place_def)

lemma ref_attrD:
  "ref_ref w a = Some (Attr_Ref f p name) \<Longrightarrow> attr_at (ref_view w) f p name = Some x \<Longrightarrow>
     \<exists>F. map_of (rw_disk w) f = Some F \<and> ref_attr w a = Some (f, p, name, F, x)"
  by (auto simp: ref_attr_def attr_at_def ref_contents_def bind_eq_Some_conv)

lemma ref_dataD:
  "Option.bind (ref_ref w l) place_of = Some (f, p) \<Longrightarrow>
     data_at (ref_view w) f (p @ split_path name) = Some d \<Longrightarrow> ref_data w l name = Some d"
  by (auto simp: ref_data_def data_at_def ref_contents_def bind_eq_Some_conv ref_placeD)

lemma ref_created:
  assumes "ref_open r (ref_save f G w) = (i, w')" and "map_of (rw_disk w) f = Some F"
    and "ref_contents G = g (ref_contents F)"
  shows "ref_view w' = new_ref i r (on_file f g (ref_view w))"
  using ref_opened_view [OF assms(1)] ref_save_view [where g = g, OF assms(2,3)] by simp

lemma ref_Acreate2_view:
  assumes "Option.bind (ref_ref w l) place_of = Some (f, p)" and "ref_type w ty = Some T"
    and "ref_Acreate2 l name ty sp w = (i, w')" and "0 \<le> i"
  shows "ref_view w' = new_ref i (Attr_Ref f p name) (on_file f (put_attr p name (T, None)) (ref_view w))"
  using assms(2-4) ref_placeD [OF assms(1)]
  by (auto simp: ref_Acreate2_def split: option.splits if_splits
      intro!: ref_created)

lemma ref_Awrite_view:
  assumes "ref_ref w a = Some (Attr_Ref f p name)" and "attr_at (ref_view w) f p name = Some (T, x)"
    and "ref_type w ty = Some T" and "ref_Awrite a ty buf w = (s, w')" and "0 \<le> s"
  shows "ref_view w' = on_file f (put_attr p name (T, Some buf)) (ref_view w)"
proof -
  obtain F where F: "map_of (rw_disk w) f = Some F" "ref_attr w a = Some (f, p, name, F, T, x)"
    using ref_attrD [OF assms(1,2)] by blast
  then have "w' = ref_save f (F\<lparr>rf_attrs := AList.update (p, name) (T, Some buf) (rf_attrs F)\<rparr>) w"
    using assms(3,4) by (simp add: ref_Awrite_def)
  then show ?thesis using ref_save_view [OF F(1), of _ "put_attr p name (T, Some buf)"] by simp
qed

lemma ref_Dcreate2_view:
  assumes "Option.bind (ref_ref w l) place_of = Some (f, p)" and "ref_ref w sp = Some (Space_Ref (Some n))"
    and "ref_Dcreate2 l name (Predefined nty) sp w = (i, w')" and "0 \<le> i"
  shows "ref_view w' = new_ref i (Dataset_Ref f (p @ split_path name))
    (on_file f (put_data (p @ split_path name) (nty, n, None)) (ref_view w))"
  using assms(2-4) ref_placeD [OF assms(1)]
  by (auto simp: ref_Dcreate2_def Let_def split: option.splits if_splits
      intro!: ref_created)

lemma ref_Dwrite_view:
  assumes "ref_ref w d = Some (Dataset_Ref f p)" and "data_at (ref_view w) f p = Some (nty, n, x)"
    and "ref_Dwrite d (Predefined nty) buf w = (s, w')" and "0 \<le> s"
  shows "ref_view w' = on_file f (put_data p (nty, n, Some buf)) (ref_view w)"
proof -
  obtain F where F: "map_of (rw_disk w) f = Some F" "map_of (rf_datasets F) p = Some (nty, n, x)"
    using assms(2) by (auto simp: data_at_def ref_contents_def bind_eq_Some_conv)
  then have "w' = ref_save f (F\<lparr>rf_datasets := AList.update p (nty, n, Some buf) (rf_datasets F)\<rparr>) w"
    using assms(1,3) by (simp add: ref_Dwrite_def)
  then show ?thesis using ref_save_view [OF F(1), of _ "put_data p (nty, n, Some buf)"] by simp
qed

lemma ref_Gcreate2_view:
  assumes "Option.bind (ref_ref w l) place_of = Some (f, p)"
    and "ref_Gcreate2 l name w = (i, w')" and "0 \<le> i"
  shows "ref_view w' = new_ref i (Group_Ref f (p @ split_path name))
    (on_file f (put_group (p @ split_path name)) (ref_view w))"
  using assms(2,3) ref_placeD [OF assms(1)]
  by (auto simp: ref_Gcreate2_def Let_def split: option.splits if_splits
      intro!: ref_created)

lemma ref_Fcreate_view:
  assumes "ref_Fcreate_trunc fn w = (i, w')"
  shows "ref_view w' = new_ref i (File_Ref fn)
    ((ref_view w)\<lparr>h5_disk := (h5_disk (ref_view w))(fn \<mapsto> empty_file)\<rparr>)"
proof -
  let ?G = "\<lparr>rf_groups = [[]], rf_attrs = [], rf_datasets = []\<rparr>"
  have "ref_view (ref_save fn ?G w) = (ref_view w)\<lparr>h5_disk := (h5_disk (ref_view w))(fn \<mapsto> empty_file)\<rparr>"
    by (auto simp: ref_view_def ref_save_def ref_ref_def fun_eq_iff update_conv' ref_contents_def
        empty_file_def)
  then show ?thesis
    using ref_opened_view assms by (simp add: ref_Fcreate_trunc_def)
qed

interpretation ref_store: hdf5_store ref_api ref_view
proof (unfold_locales, goal_cases)
  case (1 w i w')
  then show ?case by (simp add: ref_api_def ref_opened_view)
next
  case (2 w t T n s w')
  then show ?case
    by (auto simp: ref_api_def ref_Tset_size_def new_ref_def ref_view_def ref_ref_def fun_eq_iff
        split: if_splits)
next
  case (11 fn w i w')
  then show ?case using ref_Fcreate_view by (simp add: ref_api_def)
next
  case (12 fn w i w')
  then show ?case by (auto simp: ref_api_def ref_Fopen_def ref_opened_view split: if_splits)
qed (simp_all add: ref_api_def ref_opened_view ref_Acreate2_view ref_Awrite_view ref_Dcreate2_view
    ref_Dwrite_view ref_Gcreate2_view ref_close_view)

text \<open>Reading back.\<close>

lemma ref_open_succeeds:
  "\<exists>i w'. ref_open r w = (i, w') \<and> 0 \<le> i \<and> ref_view w' = new_ref i r (ref_view w)"
  using ref_open_view [of r w] by (auto simp: ref_open_def)

lemma ref_children:
  "set (remdups (List.map last
      (List.filter (\<lambda>q. q \<noteq> [] \<and> butlast q = p) (rf_groups F @ List.map fst (rf_datasets F))))) =
   children (ref_contents F) p"
proof -
  have "n \<in> last ` {q \<in> S. q \<noteq> [] \<and> butlast q = p} \<longleftrightarrow> p @ [n] \<in> S" for n and S :: "h5path set"
  proof
    assume "n \<in> last ` {q \<in> S. q \<noteq> [] \<and> butlast q = p}"
    then obtain q where "q \<in> S" "q \<noteq> []" "butlast q = p" "n = last q" by blast
    then show "p @ [n] \<in> S" by (metis append_butlast_last_id)
  next
    assume "p @ [n] \<in> S"
    then show "n \<in> last ` {q \<in> S. q \<noteq> [] \<and> butlast q = p}" by (force intro: image_eqI [of _ _ "p @ [n]"])
  qed
  then show ?thesis
    unfolding children_def ref_contents_def h5file.select_convs dom_map_of_conv_image_fst set_remdups
      List.set_map set_filter set_append by blast
qed

lemma ref_attr_names:
  "set (remdups (List.map snd (List.filter (\<lambda>q. fst q = p) (List.map fst (rf_attrs F))))) =
   dom (fl_attrs (ref_contents F) p)"
proof -
  have n: "map_of as (p, n) \<noteq> None \<longleftrightarrow> (p, n) \<in> fst ` set as"
    for n and as :: "((h5path \<times> string) \<times> h5attr) list"
    by (simp add: map_of_eq_None_iff)
  have "n \<in> snd ` {q \<in> S. fst q = p} \<longleftrightarrow> (p, n) \<in> S" for n and S :: "(h5path \<times> string) set"
    by force
  then show ?thesis
    unfolding ref_contents_def h5file.select_convs dom_def n set_remdups List.set_map set_filter by blast
qed

interpretation ref_reader: hdf5_reader ref_api ref_view
proof (unfold_locales, goal_cases)
  case (1 w l f p obj name a)
  then show ?case
    using ref_placeD [of w l f p] ref_open_succeeds
    by (auto simp: ref_api_def ref_Aopen_by_name_def attr_at_def ref_contents_def bind_eq_Some_conv)
next
  case (2 w h f p name T x)
  then show ?case using ref_attrD [of w h f p name] by (force simp: ref_api_def ref_Aget_info_def)
next
  case (3 w h f p name T x)
  then show ?case
    using ref_attrD [of w h f p name] ref_open_succeeds by (force simp: ref_api_def ref_Aget_type_def)
next
  case (4 w h f p name T buf ty)
  then show ?case using ref_attrD [of w h f p name] by (force simp: ref_api_def ref_Aread_def)
next
  case (5 w l f p obj d)
  then show ?case using ref_dataD [of w l f p obj d] by (simp add: ref_api_def ref_ndims_def)
next
  case (6 w l f p obj nty n x)
  then show ?case using ref_dataD [of w l f p obj] by (simp add: ref_api_def ref_info_def)
next
  case (7 w l f p obj nty n buf)
  then show ?case using ref_dataD [of w l f p obj] by (simp add: ref_api_def ref_read_def)
next
  case (8 w l f p obj nty)
  then show ?case using ref_dataD [of w l f p obj] by (simp add: ref_api_def ref_read_def)
next
  case (9 w fn)
  then show ?case using ref_open_succeeds by (auto simp: ref_api_def ref_Fopen_def)
next
  case (10 w l f p F obj)
  then show ?case
    using ref_placeD [of w l f p]
    by (auto simp: ref_api_def ref_Lexists_def ref_exists_def ref_contents_def)
next
  case (11 w l f p F obj)
  then show ?case
    using ref_placeD [of w l f p] ref_open_succeeds
    by (auto simp: ref_api_def ref_Literate_open_def ref_contents_def)
next
  case (12 w l f p F)
  then show ?case
    using ref_placeD [of w l f p] ref_children
    by (auto simp: ref_api_def ref_Literate_names_def simp del: set_remdups)
next
  case (13 w l f p F)
  then show ?case
    using ref_placeD [of w l f p] ref_attr_names
    by (auto simp: ref_api_def ref_Aiterate_names_def simp del: set_remdups)
qed

end
