(* ===== verification/Handle_Discipline.thy ===== *)
theory Handle_Discipline
  imports View_Dump Dump_Reader
begin

text \<open>
  No handle stays open: every writer of \<open>View_Dump\<close> and every reader of \<open>Dump_Reader\<close>
  leaves what is observed of the library as it was, on success and on every failure.  In
  particular the handles that are open.
\<close>

lemma balanced_if: "balanced obs m \<Longrightarrow> balanced obs m' \<Longrightarrow> balanced obs (if c then m else m')"
  by simp

lemma balanced_Let: "(\<And>x. balanced obs (f x)) \<Longrightarrow> balanced obs (let x = t in f x)"
  by simp

lemma balanced_sum:
  "(\<And>e. balanced obs (f e)) \<Longrightarrow> (\<And>x. balanced obs (h x)) \<Longrightarrow>
     balanced obs (case r of Inl e \<Rightarrow> f e | Inr x \<Rightarrow> h x)"
  by (cases r) simp_all

lemma balanced_option:
  "balanced obs m \<Longrightarrow> (\<And>x. balanced obs (h x)) \<Longrightarrow>
     balanced obs (case r of None \<Rightarrow> m | Some x \<Rightarrow> h x)"
  by (cases r) simp_all

lemma balanced_prod:
  "(\<And>x y. balanced obs (h x y)) \<Longrightarrow> balanced obs (case p of (x, y) \<Rightarrow> h x y)"
  by (cases p) simp

lemma balanced_bool:
  "balanced obs m \<Longrightarrow> balanced obs m' \<Longrightarrow> balanced obs (case c of True \<Rightarrow> m | False \<Rightarrow> m')"
  by (cases c) simp_all

lemma balanced_list_all:
  "balanced obs m \<Longrightarrow> list_all (balanced obs) ms \<Longrightarrow> list_all (balanced obs) (m # ms)"
  "list_all (balanced obs) []"
  by simp_all

lemmas balanced_control =
  balanced_if balanced_bool balanced_Let balanced_sum balanced_option balanced_prod balanced_list_all

section \<open>The writers\<close>

context hdf5_observed
begin

lemma balanced_attributes:
  "balanced obs (write_string_attribute api l name chars)"
  "balanced obs (write_uint64_attribute api l name v)"
  "balanced obs (write_int_attribute api l name i)"
  unfolding write_string_attribute_def write_uint64_attribute_def write_int_attribute_def
  by (intro balanced_calls balanced_control)+

lemma balanced_datasets:
  "balanced obs (write_byte_dataset api l name bytes)"
  "balanced obs (write_int64_dataset api l name xs)"
  unfolding write_byte_dataset_def write_int64_dataset_def write_dataset_def
  by (intro balanced_calls balanced_control)+

lemma balanced_new_group:
  "(\<And>i. balanced obs (body i)) \<Longrightarrow> balanced obs (in_new_group api l name body)"
  unfolding in_new_group_def by (intro balanced_calls balanced_control)

lemma balanced_policy: "balanced obs (write_policy api l policy)"
  by (cases policy)
    (simp only: write_policy.simps, intro balanced_calls balanced_control balanced_attributes
      balanced_datasets)+

lemma balanced_snapshot: "balanced obs (write_snapshot b env api l name s)"
  unfolding write_snapshot_def write_allocation_group_def
  by (intro balanced_new_group balanced_calls balanced_control balanced_attributes balanced_datasets)

lemma balanced_kernel_dump:
  "balanced obs (write_kernel_dump b env api s fd nd metadata policy label kid num l)"
  unfolding write_kernel_dump_def
  by (intro balanced_new_group balanced_calls balanced_control balanced_attributes balanced_datasets
    balanced_snapshot balanced_policy)

lemma create_kernel_dump_balanced:
  "obs (snd (create_kernel_dump b env api absolute s fd nd metadata policy label kid num w)) = obs w"
proof -
  have "balanced obs (scoped (CHECK_HDF5_ID e (H5Fcreate_trunc api path)) (H5Fclose api)
     (write_kernel_dump b env api s fd nd metadata policy label kid num))" for e path
    by (intro balanced_calls balanced_kernel_dump)
  then show ?thesis
    by (auto simp: create_kernel_dump_def Let_def split: sum.split prod.split dest: balancedD)
qed

lemma append_kernel_output_balanced:
  "obs (snd (append_kernel_output b env api s path w)) = obs w"
proof -
  have "balanced obs (scoped (CHECK_HDF5_ID e (H5Fopen_rdwr api path)) (H5Fclose api)
     (\<lambda>file. write_snapshot b env api file ''out'' s))" for e
    by (intro balanced_calls balanced_snapshot)
  then show ?thesis
    by (auto simp: append_kernel_output_def Let_def split: prod.split dest: balancedD)
qed

end

section \<open>The readers\<close>

lemma balanced_string_of_buffer: "balanced obs (string_of_buffer n buf)"
  by (cases buf) (simp_all add: string_of_buffer_def balanced_rules)

lemma balanced_of_buffer:
  "balanced obs (case buf of Int32 v \<Rightarrow> done_with v | _ \<Rightarrow> throw Abort)"
  "balanced obs (case buf of Word64 v \<Rightarrow> done_with v | _ \<Rightarrow> throw Abort)"
  "balanced obs (case buf of Uchars v \<Rightarrow> done_with v | _ \<Rightarrow> throw Abort)"
  "balanced obs (case buf of Int64s v \<Rightarrow> done_with v | _ \<Rightarrow> throw Abort)"
  by (cases buf; simp add: balanced_rules)+

lemma balanced_returned: "balanced obs (returned r)"
  by (cases r) (simp_all add: returned_def balanced_rules)

context hdf5_observed
begin

lemma balanced_read_attributes:
  "balanced obs (get_hdf5_string_attribute api l name attr)"
  "balanced obs (get_hdf5_int_attribute api l name attr)"
  "balanced obs (get_hdf5_uint64_attribute api l name attr)"
  unfolding get_hdf5_string_attribute_def get_hdf5_int_attribute_def get_hdf5_uint64_attribute_def
  by (intro balanced_calls balanced_control balanced_string_of_buffer balanced_of_buffer)+

lemma balanced_read_datasets:
  "balanced obs (read_uchars api l name)" "balanced obs (asserted_dataset_info api l name k)"
  "balanced obs (read_hdf5_int64_dataset api l name)" "balanced obs (check_byte_dataset api l name sz)"
  unfolding read_uchars_def asserted_dataset_info_def read_hdf5_int64_dataset_def check_byte_dataset_def
  by (intro balanced_calls balanced_control balanced_of_buffer)+

lemma balanced_read_policy: "balanced obs (read_policy_of_type api rb l ty)"
  unfolding read_policy_of_type_def read_range_policy_def read_mdrange_policy_def read_team_policy_def
  by (intro balanced_calls balanced_control balanced_read_attributes balanced_read_datasets
    balanced_returned)

lemma balanced_allocation_info: "balanced obs (read_allocation_info api l name)"
  unfolding read_allocation_info_def pointer_attribute_def
  by (intro balanced_calls balanced_control balanced_read_attributes)

lemma balanced_alloc_info:
  "balanced obs (get_hdf5_dataset_alloc_info api rb pagesize query target l name locs)"
  unfolding get_hdf5_dataset_alloc_info_def
  by (intro balanced_calls balanced_control balanced_allocation_info balanced_read_datasets)

lemma balanced_allocate_dataset:
  assumes "\<And>entry data s. balanced obs (callback entry data s)"
  shows "balanced obs (allocate_hdf5_dataset api host_buffer callback l name s)"
  unfolding allocate_hdf5_dataset_def
  by (intro balanced_calls balanced_control balanced_allocation_info balanced_read_datasets assms)

lemma balanced_iterate_allocations:
  assumes "\<And>grp name s. balanced obs (callback grp name s)"
  shows "balanced obs (iterate_allocations api l path callback s)"
proof (rule balancedI)
  fix w r w'
  assume run: "iterate_allocations api l path callback s w = (r, w')"
  show "obs w' = obs w"
  proof (rule balanced_held [where call = "H5Literate_open api l path" and close = "H5Gclose api"
        and body = "\<lambda>i w1. fold_each (callback i) (H5Literate_names api i w1) s" and w = w])
    show "brackets obs (H5Literate_open api l path) (H5Gclose api)" by (rule bracketed_calls)
    show "balanced obs (fold_each (callback i) (H5Literate_names api i w1) s)" for i w1
      by (intro balanced_calls assms)
  qed (use run in \<open>auto simp: iterate_allocations_def throw_run\<close>)
qed

lemma balanced_iterate_metadata:
  assumes "\<And>name chars. balanced obs (insert_entry name chars)"
  shows "balanced obs (iterate_metadata api insert_entry l)"
proof (rule balancedI)
  fix w r w'
  assume run: "iterate_metadata api insert_entry l w = (r, w')"
  show "obs w' = obs w"
  proof (rule balanced_held [where call = "H5Literate_open api l ''metadata''" and close = "H5Gclose api"
        and body = "\<lambda>i w1. for_each (read_hdf5_metadata api insert_entry i) (H5Aiterate_names api i w1)"
        and w = w])
    show "brackets obs (H5Literate_open api l ''metadata'') (H5Gclose api)" by (rule bracketed_calls)
    show "balanced obs (for_each (read_hdf5_metadata api insert_entry i) (H5Aiterate_names api i w1))" for i w1
      unfolding read_hdf5_metadata_def by (intro balanced_calls balanced_read_attributes assms)
  qed (use run in \<open>auto simp: iterate_metadata_def throw_run split: prod.splits sum.splits\<close>)
qed

end

end
