(* ===== verification/Replay_Session.thy ===== *)
theory Replay_Session
  imports Handle_Discipline Replayer
begin

text \<open>
  Replay sessions: which parts of the program's state the constructor of \<open>ScopeGuard\<close> can
  change, whatever its outcome, and what holds of the globals after any sequence of calls of
  the interface.
\<close>

section \<open>What the constructor leaves alone\<close>

lemma balanced_reading: "balanced obs (reading f)"
  by (simp add: balanced_def reading_def)

text \<open>
  An observation of the program's state that the steps of one guard's construction do not
  change.  Each of the steps is a law; the constructor's blocks follow.
\<close>

locale replay_observed = hdf5_observed api obs
  for api :: "('w \<times> 'o replayer) hdf5" and obs :: "'w \<times> 'o replayer \<Rightarrow> 'v" +
  fixes pf :: "'o platform" and g :: nat
  assumes observed_machine:
      "balanced obs (on_machine (device_init pf))"
      "balanced obs (on_machine (copy_data pf space address bytes))"
      "balanced obs (on_machine (regular_host_allocate pf sz bytes))"
      "balanced obs (on_machine (regular_device_allocate pf sz bytes))"
    and observed_guard:
      "balanced obs (guard_allocate pf g space r)"
      "balanced obs (on_guard g (\<lambda>sg. sg\<lparr>sg_inputs := inputs sg\<rparr>))"
      "balanced obs (on_guard g (\<lambda>sg. sg\<lparr>sg_allocations := allocations sg\<rparr>))"
    and observed_statics:
      "balanced obs (insert_metadata name chars)"
      "balanced obs (update (\<lambda>s. s\<lparr>rp_functor_data := f s\<rparr>))"
      "balanced obs (update (\<lambda>s. s\<lparr>rp_nvcc_data := f s\<rparr>))"
      "balanced obs (update (\<lambda>s. s\<lparr>rp_policy := p\<rparr>))"
      "balanced obs (update (\<lambda>s. s\<lparr>rp_input_reset_enabled := e\<rparr>))"
begin

lemmas balanced_steps =
  observed_machine observed_guard balanced_reading balanced_calls balanced_control

lemma balanced_restore_pages: "balanced obs (restore_pages api rb pf g space file)"
  unfolding restore_pages_def
  by (intro balanced_steps balanced_iterate_allocations balanced_alloc_info)

lemma balanced_copy_data_wrapper: "balanced obs (copy_data_wrapper pf g x data index)"
  unfolding copy_data_wrapper_def copy_input_def by (intro balanced_steps)

lemma balanced_allocate_wrapper: "balanced obs (allocate_wrapper pf g index x data u)"
  unfolding allocate_wrapper_def allocate_output_def on_stored_def by (intro balanced_steps)

lemma balanced_functor: "balanced obs (read_functor_from_hdf5 api rb file)"
  unfolding read_functor_from_hdf5_def
  by (intro balanced_steps observed_statics balanced_read_datasets)

lemma balanced_load_policy: "balanced obs (read_policy_from_hdf5 api rb file)"
  unfolding read_policy_from_hdf5_def
  by (intro balanced_steps observed_statics balanced_read_attributes balanced_read_policy)

lemma balanced_check_link: "balanced obs (check_link api file name)"
proof (rule balancedI)
  fix ws ws' :: "'w \<times> 'o replayer" and r
  assume "check_link api file name ws = (r, ws')"
  then have "ws' = snd (H5Lexists api file name ws)"
    by (auto simp: check_link_def and_then_def check_call_def prog_simps split: prod.splits if_splits)
  then show "obs ws' = obs ws" using kept_calls(10) by (cases ws) (simp add: keeps_def)
qed

lemma balanced_load_dump: "balanced obs (load_dump api rb pf g file)"
  unfolding load_dump_def restore_outputs_def
  by (intro balanced_steps balanced_restore_pages balanced_iterate_allocations balanced_iterate_metadata
    balanced_allocate_dataset balanced_copy_data_wrapper balanced_allocate_wrapper observed_statics
    balanced_functor balanced_load_policy balanced_check_link)

lemma balanced_construct:
  "balanced obs (scoped (CHECK_HDF5_ID ''H5Fopen'' (H5Fopen_rdonly api hdf5_filename)) (H5Fclose api)
     (load_dump api rb pf g))"
  by (intro balanced_steps balanced_load_dump)

end

section \<open>Observations of the program's state\<close>

text \<open>Nothing of the program's state is changed by a call of the library.\<close>

lemma keeps_beside_state: "keeps (\<lambda>ws. f (snd ws)) (beside call)"
  by (simp add: keeps_def)

interpretation program_state: hdf5_observed "api_beside api" "\<lambda>ws. f (snd ws)" for api f
  by unfold_locales (simp_all add: api_beside_def brackets_keeps keeps_beside_state)

text \<open>The globals, and the guards other than the one that is being constructed.\<close>

definition session_part :: "nat \<Rightarrow> 'o replayer \<Rightarrow>
  bool \<times> nat \<times> nat option \<times> nat option \<times> nat option \<times> (nat \<rightharpoonup> scope_guard) \<times> bool" where
  "session_part g s =
     (rp_initialized s, rp_next_guard s, rp_replay_allocations s, rp_scope_guard s,
      rp_internal_guard s, (rp_guards s)(g := None), rp_guards s g = None)"

lemma session_part_machine: "balanced (\<lambda>ws. session_part g (snd ws)) (on_machine m)"
  by (rule balancedI) (auto simp: on_machine_def session_part_def split: prod.splits)

lemma session_part_guard: "balanced (\<lambda>ws. session_part g (snd ws)) (on_guard g f)"
  by (rule balancedI) (auto simp: on_guard_def update_def session_part_def)

interpretation session: replay_observed "api_beside api" "\<lambda>ws. session_part g (snd ws)" pf g for api g pf
proof (unfold_locales, goal_cases)
  case (5 space r)
  show ?case
    unfolding guard_allocate_def
    by (intro session_part_machine session_part_guard balanced_rules balanced_control)
qed (simp_all add: session_part_machine session_part_guard,
  simp_all add: balanced_def insert_metadata_def update_def session_part_def)

text \<open>The open handles.\<close>

lemma handles_replay_observed:
  assumes "hdf5_handles api hs"
  shows "replay_observed (api_beside api) (\<lambda>ws. hs (fst ws)) pf g"
proof -
  have m: "balanced (\<lambda>ws. hs (fst ws)) (on_machine m)" for m
    by (rule balancedI) (auto simp: on_machine_def split: prod.splits)
  have u: "balanced (\<lambda>ws. hs (fst ws)) (update f)" for f
    by (simp add: balanced_def update_def)
  have h: "hdf5_observed (api_beside api) (\<lambda>ws. hs (fst ws))"
    by (rule hdf5_handles.is_observed [OF hdf5_handles.handles_beside [OF assms]])
  show ?thesis
    by (rule replay_observed.intro [OF h], unfold_locales)
      (simp_all add: m u on_guard_def insert_metadata_def guard_allocate_def balanced_rules)
qed

lemma construct_handles:
  assumes "hdf5_handles api hs"
  shows "hs (fst (snd (construct_ScopeGuard (api_beside api) rb pf argc argv ws))) = hs (fst ws)"
proof -
  let ?obs = "\<lambda>ws. hs (fst ws)"
  have u: "balanced ?obs (update f)" and m: "balanced ?obs (on_machine k)" for f k
    by (simp_all add: balanced_def update_def on_machine_def case_prod_beta)
  note load = replay_observed.balanced_construct [OF handles_replay_observed [OF assms]]
  have body: "balanced ?obs (construct_body (api_beside api) rb pf g argc argv)" for g
    unfolding construct_body_def Let_def
    by (cases "replay_arguments argc argv") (auto intro!: balanced_rules balanced_control balanced_reading u load
        split: option.split)
  have delete: "balanced ?obs (delete_guard pf g)" for g
    unfolding delete_guard_def by (intro balanced_rules balanced_reading u m)
  let ?g = "rp_next_guard (snd ws)"
  let ?ws1 = "snd (update (\<lambda>s. s\<lparr>rp_next_guard := Suc ?g, rp_guards := (rp_guards s)(?g \<mapsto> empty_guard)\<rparr>) ws)"
  obtain r ws2 where b: "construct_body (api_beside api) rb pf ?g argc argv ?ws1 = (r, ws2)"
    by (cases "construct_body (api_beside api) rb pf ?g argc argv ?ws1")
  obtain r' ws3 where d: "delete_guard pf ?g ws2 = (r', ws3)" by (cases "delete_guard pf ?g ws2")
  have "hs (fst ws2) = hs (fst ws)" using balancedD [OF body b] by (simp add: update_def)
  moreover have "hs (fst ws3) = hs (fst ws2)" by (rule balancedD [OF delete d])
  ultimately show ?thesis
    using b d by (auto simp: construct_ScopeGuard_def Let_def split: sum.split exn.split prod.split)
qed

section \<open>Sessions\<close>

lemma construct_body_parts:
  assumes "construct_body (api_beside api) rb pf g argc argv ws = (r, ws')"
  shows "case r of
      Inl e \<Rightarrow> session_part g (snd ws') = session_part g (snd ws)
    | Inr _ \<Rightarrow> \<not> rp_initialized (snd ws) \<and> (\<exists>s. session_part g s = session_part g (snd ws) \<and>
        snd ws' = s\<lparr>rp_replay_allocations := Some g, rp_initialized := True, rp_scope_guard := Some g\<rparr>)"
proof (cases "rp_initialized (snd ws)")
  case True
  then show ?thesis using assms by (auto simp: construct_body_def and_then_def reading_def throw_run)
next
  case False
  obtain enable dump rest where args: "replay_arguments argc argv = (enable, dump, rest)"
    by (cases "replay_arguments argc argv")
  let ?s = "(snd ws)\<lparr>rp_input_reset_enabled := enable\<rparr>"
  have s: "session_part g ?s = session_part g (snd ws)" by (simp add: session_part_def)
  show ?thesis
  proof (cases dump)
    case None
    then show ?thesis using False assms s
      by (auto simp: construct_body_def args and_then_def reading_def update_def throw_run)
  next
    case (Some fn)
    let ?m = "scoped (CHECK_HDF5_ID ''H5Fopen'' (H5Fopen_rdonly (api_beside api) fn))
        (H5Fclose (api_beside api)) (load_dump (api_beside api) rb pf g)"
    obtain q ws2 where m: "?m (fst ws, ?s) = (q, ws2)" by (cases "?m (fst ws, ?s)")
    have "session_part g (snd ws2) = session_part g (snd ws)"
      using balancedD [OF session.balanced_construct m] s by simp
    then show ?thesis
      using False assms Some m
      by (cases q) (auto simp: construct_body_def args and_then_def reading_def update_def)
  qed
qed

text \<open>
  The globals agree with the guards that exist: pointers point to a live guard, there is at
  most one, and before the first successful construction there is none.
\<close>

definition session_ok :: "'o replayer \<Rightarrow> bool" where
  "session_ok s \<longleftrightarrow>
     set_option (rp_replay_allocations s) \<union> set_option (rp_scope_guard s) \<union>
       set_option (rp_internal_guard s) \<subseteq> dom (rp_guards s) \<and>
     dom (rp_guards s) \<subseteq>
       set_option (rp_replay_allocations s) \<inter> set_option (rp_scope_guard s) \<inter> {..<rp_next_guard s} \<and>
     (\<not> rp_initialized s \<longrightarrow> dom (rp_guards s) = {})"

lemma session_okD:
  assumes "session_ok s" and "rp_guards s g \<noteq> None"
  shows "rp_replay_allocations s = Some g" and "rp_scope_guard s = Some g" and "g < rp_next_guard s"
proof -
  have "g \<in> dom (rp_guards s)" using assms(2) by (simp add: domIff)
  then have "g \<in> set_option (rp_replay_allocations s) \<inter> set_option (rp_scope_guard s) \<inter>
      {..<rp_next_guard s}"
    using assms(1) unfolding session_ok_def by blast
  then show "rp_replay_allocations s = Some g" and "rp_scope_guard s = Some g" and "g < rp_next_guard s"
    by auto
qed

lemma session_ok_machine [simp]: "session_ok (s\<lparr>rp_machine := mc\<rparr>) = session_ok s"
  by (simp add: session_ok_def)

text \<open>Numbers of guards that do not exist yet can grow.\<close>

lemma session_ok_next:
  assumes "session_ok s" and "rp_next_guard s \<le> n"
  shows "session_ok (s\<lparr>rp_next_guard := n\<rparr>)"
  using assms by (auto simp: session_ok_def)

lemma session_partD:
  assumes "session_part g s = session_part g t"
  shows "rp_initialized s = rp_initialized t" and "rp_next_guard s = rp_next_guard t"
    and "rp_replay_allocations s = rp_replay_allocations t" and "rp_scope_guard s = rp_scope_guard t"
    and "rp_internal_guard s = rp_internal_guard t"
    and "h \<noteq> g \<Longrightarrow> rp_guards s h = rp_guards t h" and "rp_guards s g = None \<longleftrightarrow> rp_guards t g = None"
proof -
  note * = assms [unfolded session_part_def prod.inject]
  show "rp_initialized s = rp_initialized t" and "rp_next_guard s = rp_next_guard t"
    and "rp_replay_allocations s = rp_replay_allocations t" and "rp_scope_guard s = rp_scope_guard t"
    and "rp_internal_guard s = rp_internal_guard t"
    and "rp_guards s g = None \<longleftrightarrow> rp_guards t g = None"
    using * by blast+
  have "((rp_guards s)(g := None)) h = ((rp_guards t)(g := None)) h" using * by (simp only:)
  then show "h \<noteq> g \<Longrightarrow> rp_guards s h = rp_guards t h" by simp
qed

lemma session_part_ok:
  "session_part g s = session_part g t \<Longrightarrow> rp_guards t g = None \<Longrightarrow> session_ok t \<Longrightarrow> session_ok s"
proof -
  assume *: "session_part g s = session_part g t" and none: "rp_guards t g = None" and ok: "session_ok t"
  note parts = session_partD [OF *]
  have "rp_guards s h = rp_guards t h" for h
    using parts(6) [of h] parts(7) none by (cases "h = g") auto
  then have "rp_guards s = rp_guards t" by (rule ext)
  then have "session_ok s = session_ok t" unfolding session_ok_def by (simp only: parts(1-5))
  with ok show ?thesis by blast
qed

lemma delete_guard_ok:
  assumes run: "delete_guard pf g ws = (Inr u, ws')"
  shows "session_part g (snd ws') = session_part g ((snd ws)\<lparr>rp_guards := (rp_guards (snd ws))(g := None)\<rparr>)"
    and "fst ws' = fst ws"
  using run
  by (auto simp: delete_guard_def and_then_def reading_def on_machine_def update_def session_part_def
      split: prod.splits sum.splits)

text \<open>The calls of the interface, in any order, as long as none ends the process.\<close>

inductive session_step ::
  "'w hdf5 \<Rightarrow> replay_build \<Rightarrow> 'o platform \<Rightarrow> 'w \<times> 'o replayer \<Rightarrow> 'w \<times> 'o replayer \<Rightarrow> bool"
  for api :: "'w hdf5" and rb :: replay_build and pf :: "'o platform"
where
  construct_step: "construct_ScopeGuard (api_beside api) rb pf argc argv ws = (r, ws') \<Longrightarrow> r \<noteq> Inl Abort \<Longrightarrow>
     session_step api rb pf ws ws'"
| destroy_step: "rp_guards (snd ws) g \<noteq> None \<Longrightarrow> rp_internal_guard (snd ws) \<noteq> Some g \<Longrightarrow>
     destroy_ScopeGuard pf g ws = (r, ws') \<Longrightarrow> r \<noteq> Inl Abort \<Longrightarrow> session_step api rb pf ws ws'"
| initialize_step: "initialize (api_beside api) rb pf argc argv ws = (r, ws') \<Longrightarrow> r \<noteq> Inl Abort \<Longrightarrow>
     session_step api rb pf ws ws'"
| finalize_step: "finalize pf ws = (r, ws') \<Longrightarrow> r \<noteq> Inl Abort \<Longrightarrow> session_step api rb pf ws ws'"
| reset_step: "reset_inputs pf kokkos_runs ws = (r, ws') \<Longrightarrow> r \<noteq> Inl Abort \<Longrightarrow>
     session_step api rb pf ws ws'"

inductive replay_reachable ::
  "'w hdf5 \<Rightarrow> replay_build \<Rightarrow> 'o platform \<Rightarrow> 'w \<times> 'o replayer \<Rightarrow> bool"
  for api :: "'w hdf5" and rb :: replay_build and pf :: "'o platform"
where
  reachable_start: "replay_reachable api rb pf (w, initial_replayer m)"
| reachable_step: "replay_reachable api rb pf ws \<Longrightarrow> session_step api rb pf ws ws' \<Longrightarrow>
     replay_reachable api rb pf ws'"

lemma run_not_abort:
  "m ws = (r, ws') \<Longrightarrow> r \<noteq> Inl Abort \<Longrightarrow> (case m ws of (Inl e, w') \<Rightarrow> e \<noteq> Abort | _ \<Rightarrow> True)"
  by (cases r) simp_all

lemma construct_ok:
  assumes ok: "session_ok (snd ws)" and run: "construct_ScopeGuard (api_beside api) rb pf argc argv ws = (r, ws')"
    and alive: "r \<noteq> Inl Abort"
  shows "session_ok (snd ws')"
    and "r = Inr g \<Longrightarrow> rp_guards (snd ws') g \<noteq> None \<and> rp_internal_guard (snd ws') = None
      \<and> \<not> rp_initialized (snd ws)"
    and "r = Inl e \<Longrightarrow> rp_internal_guard (snd ws') = rp_internal_guard (snd ws)
      \<and> rp_initialized (snd ws') = rp_initialized (snd ws)"
proof -
  let ?g = "rp_next_guard (snd ws)"
  let ?s1 = "(snd ws)\<lparr>rp_next_guard := Suc ?g, rp_guards := (rp_guards (snd ws))(?g \<mapsto> empty_guard)\<rparr>"
  have fresh: "rp_guards (snd ws) ?g = None" using ok by (auto simp: session_ok_def)
  obtain q ws2 where body: "construct_body (api_beside api) rb pf ?g argc argv (fst ws, ?s1) = (q, ws2)"
    by (cases "construct_body (api_beside api) rb pf ?g argc argv (fst ws, ?s1)")
  note parts = construct_body_parts [OF body]
  have run': "(case (q, ws2) of
           (Inr _, ws2) \<Rightarrow> (Inr ?g, ws2)
         | (Inl Abort, ws2) \<Rightarrow> (Inl Abort, ws2)
         | (Inl e, ws2) \<Rightarrow>
             (case delete_guard pf ?g ws2 of
                (Inl _, ws3) \<Rightarrow> (Inl Abort, ws3)
              | (Inr _, ws3) \<Rightarrow> (Inl e, ws3))) = (r, ws')"
    using run body by (simp add: construct_ScopeGuard_def update_def Let_def)
  have "session_ok (snd ws') \<and>
      (r = Inr g \<longrightarrow> rp_guards (snd ws') g \<noteq> None \<and> rp_internal_guard (snd ws') = None
        \<and> \<not> rp_initialized (snd ws)) \<and>
      (r = Inl e \<longrightarrow> rp_internal_guard (snd ws') = rp_internal_guard (snd ws)
        \<and> rp_initialized (snd ws') = rp_initialized (snd ws))"
  proof (cases q)
    case (Inr u)
    then obtain s where s: "session_part ?g s = session_part ?g ?s1" "\<not> rp_initialized (snd ws)"
      and ws2: "snd ws2 = s\<lparr>rp_replay_allocations := Some ?g, rp_initialized := True, rp_scope_guard := Some ?g\<rparr>"
      using parts by auto
    have none: "rp_guards (snd ws) = Map.empty" using ok s(2) by (simp add: session_ok_def)
    have live: "rp_guards s h \<noteq> None \<longleftrightarrow> h = ?g" for h
      using session_partD(6) [OF s(1), of h] session_partD(7) [OF s(1)] none by (cases "h = ?g") auto
    have r: "r = Inr ?g" "ws' = ws2" using run' Inr by simp_all
    have "rp_internal_guard (snd ws) = None"
      using ok none by (cases "rp_internal_guard (snd ws)") (auto simp: session_ok_def)
    then have "rp_internal_guard s = None" using session_partD(5) [OF s(1)] by simp
    moreover have "rp_next_guard s = Suc ?g" using session_partD(2) [OF s(1)] by simp
    ultimately show ?thesis
      using r ws2 live s(2) by (auto simp: session_ok_def)
  next
    case (Inl x)
    then have same: "session_part ?g (snd ws2) = session_part ?g ?s1" using parts by simp
    have "x \<noteq> Abort" using run' alive Inl by auto
    then have d: "(case delete_guard pf ?g ws2 of
                (Inl _, ws3) \<Rightarrow> (Inl Abort, ws3)
              | (Inr _, ws3) \<Rightarrow> (Inl x, ws3)) = (r, ws')"
      using run' Inl by (cases x) (simp_all split: prod.splits sum.splits)
    then obtain u where del: "delete_guard pf ?g ws2 = (Inr u, ws')" and r: "r = Inl x"
      using alive by (auto split: prod.splits sum.splits)
    have part: "session_part ?g (snd ws') = session_part ?g ((snd ws)\<lparr>rp_next_guard := Suc ?g\<rparr>)"
      unfolding delete_guard_ok(1) [OF del]
      using session_partD [OF same] fresh by (auto simp: session_part_def fun_eq_iff)
    have "session_ok ((snd ws)\<lparr>rp_next_guard := Suc ?g\<rparr>)"
      by (rule session_ok_next [OF ok]) simp
    then have "session_ok (snd ws')" by (rule session_part_ok [OF part, rotated]) (simp add: fresh)
    then show ?thesis using r session_partD(1,5) [OF part] by simp
  qed
  then show "session_ok (snd ws')"
    and "r = Inr g \<Longrightarrow> rp_guards (snd ws') g \<noteq> None \<and> rp_internal_guard (snd ws') = None
      \<and> \<not> rp_initialized (snd ws)"
    and "r = Inl e \<Longrightarrow> rp_internal_guard (snd ws') = rp_internal_guard (snd ws)
      \<and> rp_initialized (snd ws') = rp_initialized (snd ws)" by blast+
qed

lemma destroy_allocation_ends: "destroy_allocation pf a m = (Inl e, m') \<Longrightarrow> e = Abort"
  by (auto simp: destroy_allocation_def host_deallocate_def os_do_def split: if_splits option.splits
      memory_space_type.splits prod.splits sum.splits)

lemma free_reference_ends: "free_reference pf st m = (Inl e, m') \<Longrightarrow> e = Abort"
  by (auto simp: free_reference_def os_do_def done_with_run split: option.splits prod.splits
      memory_space_type.splits sum.splits)

lemma for_each_ends:
  assumes "\<And>x m e m'. f x m = (Inl e, m') \<Longrightarrow> e = Abort"
  shows "for_each f xs m = (Inl e, m') \<Longrightarrow> e = Abort"
  by (induction xs arbitrary: m)
    (auto simp: done_with_run and_then_def split: prod.splits sum.splits dest: assms)

lemma destroy_members_ends:
  fixes m m' :: "'o machine"
  shows "destroy_members pf sg m = (Inl e, m') \<Longrightarrow> e = Abort"
proof -
  have d: "for_each (destroy_allocation pf) xs m = (Inl e, m') \<Longrightarrow> e = Abort" for xs m e and m' :: "'o machine"
    by (rule for_each_ends [OF destroy_allocation_ends])
  have f: "for_each (free_reference pf) xs m = (Inl e, m') \<Longrightarrow> e = Abort" for xs m e and m' :: "'o machine"
    by (rule for_each_ends [OF free_reference_ends])
  assume "destroy_members pf sg m = (Inl e, m')"
  then show "e = Abort"
    by (auto simp: destroy_members_def and_then_def done_with_run split: prod.splits sum.splits dest: d f)
qed

lemma destroy_ok:
  assumes ok: "session_ok (snd ws)" and live: "rp_guards (snd ws) g \<noteq> None"
    and internal: "rp_internal_guard (snd ws) \<noteq> Some g"
    and run: "destroy_ScopeGuard pf g ws = (r, ws')" and alive: "r \<noteq> Inl Abort"
  shows "r = Inr () \<and> session_ok (snd ws') \<and> rp_guards (snd ws') = Map.empty
    \<and> rp_initialized (snd ws') = rp_initialized (snd ws)"
proof -
  let ?s = "(snd ws)\<lparr>rp_replay_allocations := (if rp_replay_allocations (snd ws) = Some g then None
      else rp_replay_allocations (snd ws)), rp_scope_guard := None\<rparr>"
  have del: "delete_guard pf g (fst ws, ?s) = (r, ws')"
    using run by (simp add: destroy_ScopeGuard_def and_then_def update_def)
  have "\<exists>u. r = Inr u"
    using del alive
    by (cases r) (auto simp: delete_guard_def and_then_def reading_def on_machine_def update_def
        split: prod.splits sum.splits dest: destroy_members_ends)
  then have r: "r = Inr ()" by simp
  have only: "rp_guards (snd ws) h \<noteq> None \<Longrightarrow> h = g" "rp_replay_allocations (snd ws) = Some g" for h
    using session_okD(1) [OF ok, of h] session_okD(1) [OF ok live] by auto
  have none: "rp_internal_guard (snd ws) = None"
    using ok only internal by (cases "rp_internal_guard (snd ws)") (auto simp: session_ok_def)
  have part: "session_part g (snd ws') = session_part g (?s\<lparr>rp_guards := (rp_guards ?s)(g := None)\<rparr>)"
    using delete_guard_ok(1) [OF del [unfolded r]] by simp
  note parts = session_partD [OF part]
  have "rp_guards (snd ws') h = None" for h
  proof (cases "h = g")
    case True
    then show ?thesis using parts(7) by simp
  next
    case False
    then have "rp_guards (snd ws) h = None" using only(1) by blast
    then show ?thesis using parts(6) [OF False] False by simp
  qed
  then have "rp_guards (snd ws') = Map.empty" by (rule ext)
  then show ?thesis using r parts(1-5) none only(2) by (simp add: session_ok_def)
qed

lemma session_ok_no_guard:
  "session_ok s \<Longrightarrow> rp_guards s = Map.empty \<Longrightarrow>
     rp_replay_allocations s = None \<and> rp_scope_guard s = None \<and> rp_internal_guard s = None"
  by (auto simp: session_ok_def)

lemma initialize_ok:
  assumes ok: "session_ok (snd ws)" and run: "initialize (api_beside api) rb pf argc argv ws = (r, ws')"
    and alive: "r \<noteq> Inl Abort"
  shows "session_ok (snd ws')" and "r = Inr () \<Longrightarrow> rp_initialized (snd ws') \<and> rp_internal_guard (snd ws') \<noteq> None"
proof -
  have "session_ok (snd ws') \<and> (r = Inr () \<longrightarrow> rp_initialized (snd ws') \<and> rp_internal_guard (snd ws') \<noteq> None)"
  proof (cases "rp_initialized (snd ws)")
    case True
    then show ?thesis using run ok by (auto simp: initialize_def and_then_def reading_def throw_run)
  next
    case False
    obtain q ws1 where build: "construct_ScopeGuard (api_beside api) rb pf argc argv ws = (q, ws1)"
      by (cases "construct_ScopeGuard (api_beside api) rb pf argc argv ws")
    have q: "q \<noteq> Inl Abort"
      using run alive build False by (auto simp: initialize_def and_then_def reading_def)
    note built = construct_ok [OF ok build q]
    show ?thesis
    proof (cases q)
      case (Inl e)
      then show ?thesis
        using run build False built(1) by (auto simp: initialize_def and_then_def reading_def)
    next
      case (Inr g)
      then have ws': "ws' = (fst ws1, (snd ws1)\<lparr>rp_internal_guard := Some g\<rparr>)"
        using run build False by (auto simp: initialize_def and_then_def reading_def update_def)
      have "rp_guards (snd ws1) g \<noteq> None" using built(2) [OF Inr] by blast
      then have "rp_initialized (snd ws1)" using built(1) by (auto simp: session_ok_def)
      then show ?thesis using ws' built(1) built(2) [OF Inr] by (auto simp: session_ok_def)
    qed
  qed
  then show "session_ok (snd ws')"
    and "r = Inr () \<Longrightarrow> rp_initialized (snd ws') \<and> rp_internal_guard (snd ws') \<noteq> None" by blast+
qed

lemma finalize_ok:
  assumes ok: "session_ok (snd ws)" and g: "rp_initialized (snd ws)" "rp_internal_guard (snd ws) = Some g"
    and run: "finalize pf ws = (r, ws')" and alive: "r \<noteq> Inl Abort"
  shows "r = Inr () \<and> session_ok (snd ws') \<and> rp_guards (snd ws') = Map.empty \<and> rp_initialized (snd ws')"
proof -
  let ?ws = "(fst ws, (snd ws)\<lparr>rp_internal_guard := None\<rparr>)"
  have "session_ok (snd ?ws)" "rp_guards (snd ?ws) g \<noteq> None"
    using ok g(2) by (auto simp: session_ok_def)
  moreover have "destroy_ScopeGuard pf g ?ws = (r, ws')"
    using run g by (simp add: finalize_def and_then_def reading_def update_def)
  ultimately show ?thesis using destroy_ok [of ?ws g pf r ws'] alive g(1) by simp
qed

lemma session_step_ok:
  assumes "session_step api rb pf ws ws'" and ok: "session_ok (snd ws)"
  shows "session_ok (snd ws')"
  using assms(1)
proof (cases rule: session_step.cases)
  case (construct_step argc argv r)
  then show ?thesis using construct_ok(1) [OF ok] by blast
next
  case (destroy_step g r)
  then show ?thesis using destroy_ok [OF ok] by blast
next
  case (initialize_step argc argv r)
  then show ?thesis using initialize_ok(1) [OF ok] by blast
next
  case (finalize_step r)
  show ?thesis
  proof (cases "rp_initialized (snd ws) \<and> rp_internal_guard (snd ws) \<noteq> None")
    case True
    then show ?thesis using finalize_ok [OF ok] finalize_step by blast
  next
    case False
    then show ?thesis
      using finalize_step ok
      by (auto simp: finalize_def and_then_def reading_def throw_run split: if_splits option.splits)
  qed
next
  case (reset_step kokkos_runs r)
  then have "\<exists>mc. snd ws' = (snd ws)\<lparr>rp_machine := mc\<rparr> \<or> ws' = ws"
    by (auto simp: reset_inputs_def guard_reset_inputs_def and_then_def reading_def throw_run on_machine_def
        split: option.splits if_splits prod.splits)
  then show ?thesis using ok by auto
qed

lemma reachable_session_ok: "replay_reachable api rb pf ws \<Longrightarrow> session_ok (snd ws)"
proof (induction rule: replay_reachable.induct)
  case (reachable_start w m)
  show ?case by (simp add: initial_replayer_def session_ok_def)
next
  case (reachable_step ws ws')
  then show ?case using session_step_ok by blast
qed

section \<open>Properties\<close>

text \<open>
  Property C23.  Whatever sequence of guard constructions and destructions, \<open>initialize\<close>,
  \<open>finalize\<close> and \<open>reset_inputs\<close> a program makes, and whatever HDF5, the system and the
  driver answer: the global pointers of the replayer never dangle, at most one guard is
  alive, and while one is alive \<open>replay_allocations\<close> and \<open>scope_guard\<close> point to it.
\<close>

theorem session_pointers_safe:
  assumes "replay_reachable api rb pf ws"
  shows "session_ok (snd ws)"
  using assms by (rule reachable_session_ok)

text \<open>
  Property C24.  After an \<open>initialize\<close> that succeeded, in any session: \<open>finalize\<close> throws no
  exception and destroys the guard, and from then on \<open>finalize\<close>, \<open>initialize\<close> and
  \<open>reset_inputs\<close> each throw their own exception and change nothing: krepe is initialized and
  finalized at most once in a process.
\<close>

theorem finalized_once:
  assumes "replay_reachable api rb pf ws"
    and "initialize (api_beside api) rb pf argc argv ws = (Inr (), ws1)"
    and "finalize pf ws1 = (r, ws2)" and "r \<noteq> Inl Abort"
  shows "r = Inr () \<and> rp_guards (snd ws2) = Map.empty \<and>
    finalize pf ws2 = (Inl (Std_Exception
      ''Trying to call krepe::finalize, but krepe has already been finalized''), ws2) \<and>
    initialize (api_beside api) rb pf argc' argv' ws2 = (Inl (Std_Exception
      ''Trying to initialize krepe, but it has already been initialized''), ws2) \<and>
    reset_inputs pf kokkos_runs ws2 =
      (Inl (Std_Exception ''krepe::reset_inputs(): krepe is not initialized''), ws2)"
proof -
  note ok = reachable_session_ok [OF assms(1)]
  obtain g where g: "rp_initialized (snd ws1)" "rp_internal_guard (snd ws1) = Some g"
    using initialize_ok(2) [OF ok assms(2)] by auto
  have "session_ok (snd ws1)" using initialize_ok(1) [OF ok assms(2)] by simp
  note fin = finalize_ok [OF this g assms(3,4)]
  then show ?thesis
    using session_ok_no_guard [of "snd ws2"]
    by (auto simp: finalize_def initialize_def reset_inputs_def and_then_def reading_def throw_run)
qed

end
