(* ===== verification/Replay_Mappings.thy ===== *)
theory Replay_Mappings
  imports Replay_Session
begin

text \<open>
  Who unmaps what: the pages of host memory that the construction of a guard maps are
  unmapped when the construction fails and when the guard is destroyed, for any system that
  does what \<open>mmap\<close> and \<open>munmap\<close> document.
\<close>

section \<open>The system as a provider of mappings\<close>

locale host_mappings =
  fixes pf :: "'o platform" and mapped :: "'o \<Rightarrow> region set"
  assumes mmap_maps:
      "pf_mmap pf a n os = (Inr a', os') \<Longrightarrow>
         Region a' n \<notin> mapped os \<and> a' \<noteq> nullptr \<and> mapped os' = insert (Region a' n) (mapped os)"
    and mmap_fails: "pf_mmap pf a n os = (Inl e, os') \<Longrightarrow> mapped os' = mapped os"
    and munmap_unmaps: "Region a n \<in> mapped os \<Longrightarrow> mapped (pf_munmap pf a n os) = mapped os - {Region a n}"
    and other_calls:
      "mapped (snd (pf_malloc pf n os)) = mapped os" "mapped (pf_free pf a os) = mapped os"
      "mapped (snd (pf_supports_vmm pf os)) = mapped os" "mapped (snd (pf_mem_create pf n os)) = mapped os"
      "mapped (snd (pf_address_reserve pf n a os)) = mapped os"
      "mapped (snd (pf_mem_map pf a n h os)) = mapped os" "mapped (snd (pf_set_access pf a n os)) = mapped os"
      "mapped (snd (pf_mem_release pf h os)) = mapped os" "mapped (snd (pf_mem_unmap pf a n os)) = mapped os"
      "mapped (snd (pf_address_free pf a n os)) = mapped os" "mapped (snd (pf_device_malloc pf n os)) = mapped os"
      "mapped (snd (pf_device_free pf a os)) = mapped os"
      "mapped (snd (pf_memcpy_to_device pf a bs os)) = mapped os"
begin

abbreviation machine_maps :: "'o machine \<Rightarrow> region set" where
  "machine_maps m \<equiv> mapped (mc_os m)"

lemma balanced_os_call:
  "(\<And>os. mapped (snd (f os)) = mapped os) \<Longrightarrow> balanced machine_maps (os_call f)"
  "(\<And>os. mapped (snd (h os)) = mapped os) \<Longrightarrow> balanced machine_maps (os_do h)"
  by (simp_all add: balanced_def os_call_def os_do_def case_prod_beta)

lemma balanced_copies:
  "balanced machine_maps (host_copy_data a bs)" "balanced machine_maps (device_copy_data pf a bs)"
  "balanced machine_maps (copy_data pf space a bs)"
proof -
  show h: "balanced machine_maps (host_copy_data a bs)" by (simp add: balanced_def host_copy_data_def)
  have "balanced machine_maps (\<lambda>m. (Inr (), m\<lparr>mc_device := write_bytes a bs (mc_device m)\<rparr>))"
    by (simp add: balanced_def)
  then show d: "balanced machine_maps (device_copy_data pf a bs)"
    unfolding device_copy_data_def by (intro balanced_rules balanced_os_call other_calls)
  show "balanced machine_maps (copy_data pf space a bs)"
    unfolding copy_data_def by (intro balanced_rules balanced_control h d)
qed

lemma balanced_other_machine:
  "balanced machine_maps (device_init pf)" "balanced machine_maps (regular_host_allocate pf sz bs)"
  "balanced machine_maps (regular_device_allocate pf sz bs)" "balanced machine_maps (device_allocate pf a sz)"
  "balanced machine_maps (device_deallocate pf a sz)" "balanced machine_maps (free_reference pf st)"
proof -
  show "balanced machine_maps (device_init pf)" "balanced machine_maps (regular_host_allocate pf sz bs)"
    "balanced machine_maps (regular_device_allocate pf sz bs)" "balanced machine_maps (device_allocate pf a sz)"
    "balanced machine_maps (device_deallocate pf a sz)"
    unfolding device_init_def regular_host_allocate_def regular_device_allocate_def device_deallocate_def
      device_allocate_def cuda_device_allocate_def hip_device_allocate_def map_reserved_def
    by (intro balanced_rules balanced_control balanced_os_call other_calls balanced_copies)+
  have "mapped os' = mapped os" if "pf_device_free pf a os = (x, os')" for a os x os'
    using other_calls(12) [of a os] that by simp
  then show "balanced machine_maps (free_reference pf st)"
    by (auto simp: balanced_def free_reference_def os_do_def os_call_def done_with_run other_calls(2)
        split: option.split memory_space_type.split prod.split sum.split)
qed

section \<open>Host allocations\<close>

definition region_of :: "allocation_object \<Rightarrow> region" where
  "region_of a = Region (al_address a) (al_size a)"

text \<open>Objects that own their pages: on the host, mapped, and each its own.\<close>

definition own_pages :: "allocation_object list \<Rightarrow> region set \<Rightarrow> bool" where
  "own_pages raws M \<longleftrightarrow>
     (\<forall>a \<in> set raws. al_space a = Some HOST \<and> al_address a \<noteq> nullptr \<and> region_of a \<in> M) \<and>
     distinct (List.map region_of raws)"

lemma host_allocate_maps:
  assumes "host_allocate pf a sz m = (r, m')"
  shows "case r of
      Inl e \<Rightarrow> machine_maps m' = machine_maps m
    | Inr (a', n) \<Rightarrow> a' \<noteq> nullptr \<and> Region a' n \<notin> machine_maps m \<and>
        machine_maps m' = insert (Region a' n) (machine_maps m)"
proof (cases "a mod pf_pagesize pf = 0")
  case False
  then show ?thesis using assms by (auto simp: host_allocate_def throw_run)
next
  case True
  obtain q os where q: "pf_mmap pf a sz (mc_os m) = (q, os)" by fastforce
  show ?thesis
  proof (cases q)
    case (Inl e)
    then show ?thesis
      using assms True q mmap_fails [of a sz "mc_os m" e os]
      by (auto simp: host_allocate_def os_do_def and_then_def throw_run split: if_splits)
  next
    case (Inr a')
    note new = mmap_maps [OF q [unfolded Inr]]
    have "mapped (pf_munmap pf a' sz os) = mapped (mc_os m)"
      using munmap_unmaps [of a' sz os] new by simp
    then show ?thesis
      using assms True q Inr new
      by (auto simp: host_allocate_def os_do_def and_then_def throw_run host_pages_def done_with_run
          split: if_splits)
  qed
qed

lemma destroy_hosts:
  "own_pages raws (machine_maps m) \<Longrightarrow> for_each (destroy_allocation pf) raws m = (Inr u, m') \<Longrightarrow>
     machine_maps m' = machine_maps m - region_of ` set raws"
proof (induction raws arbitrary: m)
  case Nil
  then show ?case by (simp add: done_with_run)
next
  case (Cons a raws)
  let ?m1 = "m\<lparr>mc_os := pf_munmap pf (al_address a) (al_size a) (mc_os m)\<rparr>"
  have a: "al_space a = Some HOST" "al_address a \<noteq> nullptr" "region_of a \<in> machine_maps m"
    using Cons.prems(1) by (simp_all add: own_pages_def)
  then have step: "destroy_allocation pf a m = (Inr (), ?m1)"
    by (simp add: destroy_allocation_def host_deallocate_def os_do_def)
  have m1: "machine_maps ?m1 = machine_maps m - {region_of a}"
    using munmap_unmaps [of "al_address a" "al_size a" "mc_os m"] a(3) by (simp add: region_of_def)
  have "own_pages raws (machine_maps ?m1)"
    using Cons.prems(1) unfolding m1 by (auto simp: own_pages_def) (metis imageI)
  then have "machine_maps m' = machine_maps ?m1 - region_of ` set raws"
    by (rule Cons.IH) (use Cons.prems(2) step in \<open>simp add: and_then_def\<close>)
  then show ?case unfolding m1 by auto
qed

text \<open>Device objects leave the host's mappings alone.\<close>

definition device_objects :: "allocation_object list \<Rightarrow> bool" where
  "device_objects raws \<longleftrightarrow> (\<forall>a \<in> set raws. al_space a = Some DEVICE)"

lemma destroy_devices:
  "device_objects raws \<Longrightarrow> for_each (destroy_allocation pf) raws m = (Inr u, m') \<Longrightarrow>
     machine_maps m' = machine_maps m"
proof (induction raws arbitrary: m)
  case Nil
  then show ?case by (simp add: done_with_run)
next
  case (Cons a raws)
  then obtain m1 where step: "destroy_allocation pf a m = (Inr (), m1)"
    and rest: "for_each (destroy_allocation pf) raws m1 = (Inr u, m')"
    by (auto simp: and_then_def split: prod.splits sum.splits)
  have "machine_maps m1 = machine_maps m"
    using step Cons.prems(1) balancedD [OF balanced_other_machine(5), of "al_address a" "al_size a" m]
    by (auto simp: destroy_allocation_def device_objects_def split: if_splits prod.splits sum.splits)
  moreover have "machine_maps m' = machine_maps m1"
    by (rule Cons.IH [OF _ rest]) (use Cons.prems(1) in \<open>simp add: device_objects_def\<close>)
  ultimately show ?case by simp
qed

section \<open>What a guard owns\<close>

text \<open>
  The observation that construction does not change: the mappings that are not the guard's,
  and whether the guard owns its pages.
\<close>

definition foreign_maps :: "nat \<Rightarrow> 'o replayer \<Rightarrow> (region set \<times> bool) option" where
  "foreign_maps g s =
     map_option (\<lambda>sg. (machine_maps (rp_machine s) - region_of ` set (sg_host_raw sg),
         own_pages (sg_host_raw sg) (machine_maps (rp_machine s)) \<and> device_objects (sg_device_raw sg)))
       (rp_guards s g)"

lemma own_pages_snoc:
  "region_of a \<notin> M \<Longrightarrow> al_space a = Some HOST \<Longrightarrow> al_address a \<noteq> nullptr \<Longrightarrow>
     own_pages (raws @ [a]) (insert (region_of a) M) = own_pages raws M"
  by (auto simp: own_pages_def) (metis imageI)

lemma foreign_machine:
  "balanced machine_maps m \<Longrightarrow> balanced (\<lambda>ws. foreign_maps g (snd ws)) (on_machine m)"
  by (rule balancedI) (auto simp: on_machine_def foreign_maps_def split: prod.splits dest: balancedD)

lemma foreign_guard:
  assumes "\<And>sg. sg_host_raw (f sg) = sg_host_raw sg" and "\<And>sg. sg_device_raw (f sg) = sg_device_raw sg"
  shows "balanced (\<lambda>ws. foreign_maps g (snd ws)) (on_guard g f)"
  by (rule balancedI)
    (auto simp: on_guard_def update_def foreign_maps_def assms option.map_comp comp_def)

lemma foreign_allocate: "balanced (\<lambda>ws. foreign_maps g (snd ws)) (guard_allocate pf g space r)"
proof (cases "space = HOST")
  case True
  show ?thesis
  proof (rule balancedI)
    fix ws ws' :: "'a \<times> 'o replayer" and q
    assume run: "guard_allocate pf g space r ws = (q, ws')"
    obtain x m' where alloc: "host_allocate pf (base r) (len r) (rp_machine (snd ws)) = (x, m')" by fastforce
    show "foreign_maps g (snd ws') = foreign_maps g (snd ws)"
    proof (cases x)
      case (Inl e)
      then show ?thesis
        using run True alloc host_allocate_maps [OF alloc]
        by (auto simp: guard_allocate_def construct_allocation_def on_machine_def and_then_def
            foreign_maps_def)
    next
      case (Inr p)
      obtain a' n where p: "p = (a', n)" by fastforce
      let ?a = "\<lparr>al_address = a', al_size = n, al_space = Some HOST\<rparr>"
      have new: "a' \<noteq> nullptr" "region_of ?a \<notin> machine_maps (rp_machine (snd ws))"
        "machine_maps m' = insert (region_of ?a) (machine_maps (rp_machine (snd ws)))"
        using host_allocate_maps [OF alloc] Inr p by (simp_all add: region_of_def)
      have ws': "snd ws' = (snd ws)\<lparr>rp_machine := m', rp_guards := (rp_guards (snd ws))(g :=
          map_option (\<lambda>sg. sg\<lparr>sg_host_raw := sg_host_raw sg @ [?a]\<rparr>) (rp_guards (snd ws) g))\<rparr>"
        using run True alloc Inr p
        by (auto simp: guard_allocate_def construct_allocation_def on_machine_def and_then_def
            done_with_run on_guard_def update_def)
      show ?thesis
        using new own_pages_snoc [of ?a "machine_maps (rp_machine (snd ws))"]
        by (cases "rp_guards (snd ws) g") (auto simp: foreign_maps_def ws')
    qed
  qed
next
  case False
  show ?thesis
  proof (cases "has_device_space (pf_backend pf)")
    case no: False
    then show ?thesis using False by (simp add: guard_allocate_def balanced_rules)
  next
    case dev: True
    have c: "balanced machine_maps (construct_allocation pf DEVICE a sz)" for a sz
      using dev unfolding construct_allocation_def
      by (simp, intro balanced_rules balanced_control balanced_other_machine)
    show ?thesis
    proof (rule balancedI)
      fix ws ws' :: "'a \<times> 'o replayer" and q
      assume run: "guard_allocate pf g space r ws = (q, ws')"
      obtain x m' where alloc: "construct_allocation pf DEVICE (base r) (len r) (rp_machine (snd ws)) = (x, m')"
        by fastforce
      have same: "machine_maps m' = machine_maps (rp_machine (snd ws))" by (rule balancedD [OF c alloc])
      have "x = Inr a \<Longrightarrow> al_space a = Some DEVICE" for a
        using alloc dev by (auto simp: construct_allocation_def and_then_def done_with_run
            split: prod.splits sum.splits)
      then show "foreign_maps g (snd ws') = foreign_maps g (snd ws)"
        using run False dev alloc same
        by (cases x; cases "rp_guards (snd ws) g")
          (auto simp: guard_allocate_def on_machine_def and_then_def on_guard_def update_def
            foreign_maps_def device_objects_def)
    qed
  qed
qed

lemma foreign_observed:
  "replay_observed (api_beside api) (\<lambda>ws. foreign_maps g (snd ws)) pf g"
proof (rule replay_observed.intro [OF program_state.hdf5_observed_axioms], unfold_locales, goal_cases)
  case (1) show ?case by (rule foreign_machine [OF balanced_other_machine(1)])
next
  case (2 space address bytes) show ?case by (rule foreign_machine [OF balanced_copies(3)])
next
  case (3 sz bytes) show ?case by (rule foreign_machine [OF balanced_other_machine(2)])
next
  case (4 sz bytes) show ?case by (rule foreign_machine [OF balanced_other_machine(3)])
next
  case (5 space r) show ?case by (rule foreign_allocate)
qed (simp_all add: foreign_guard, simp_all add: balanced_def insert_metadata_def update_def foreign_maps_def)

lemma destroy_members_unmaps:
  assumes run: "destroy_members pf sg m = (Inr u, m')"
    and own: "own_pages (sg_host_raw sg) (machine_maps m)" and dev: "device_objects (sg_device_raw sg)"
  shows "machine_maps m' = machine_maps m - region_of ` set (sg_host_raw sg)"
proof -
  obtain m1 m2 where 1: "for_each (destroy_allocation pf) (sg_device_raw sg) m = (Inr (), m1)"
    and 2: "for_each (destroy_allocation pf) (sg_host_raw sg) m1 = (Inr (), m2)"
    and 3: "for_each (free_reference pf) (List.map snd (sg_allocations sg)) m2 = (Inr (), m')"
    using run by (auto simp: destroy_members_def and_then_def done_with_run split: prod.splits sum.splits)
  have m1: "machine_maps m1 = machine_maps m" by (rule destroy_devices [OF dev 1])
  then have "machine_maps m2 = machine_maps m1 - region_of ` set (sg_host_raw sg)"
    by (intro destroy_hosts [OF _ 2]) (simp add: own)
  moreover have f: "balanced machine_maps (for_each (free_reference pf) (List.map snd (sg_allocations sg)))"
    by (rule balanced_for_each) (rule balanced_other_machine)
  have "machine_maps m' = machine_maps m2" by (rule balancedD [OF f 3])
  ultimately show ?thesis using m1 by simp
qed

lemma delete_guard_unmaps:
  assumes run: "delete_guard pf g ws = (Inr u, ws')" and own: "foreign_maps g (snd ws) = Some (M, True)"
  shows "machine_maps (rp_machine (snd ws')) = M"
proof -
  obtain sg where sg: "rp_guards (snd ws) g = Some sg"
    using own by (auto simp: foreign_maps_def)
  then have "own_pages (sg_host_raw sg) (machine_maps (rp_machine (snd ws)))"
    "device_objects (sg_device_raw sg)" "M = machine_maps (rp_machine (snd ws)) - region_of ` set (sg_host_raw sg)"
    using own by (auto simp: foreign_maps_def)
  moreover obtain m' where "destroy_members pf sg (rp_machine (snd ws)) = (Inr (), m')"
    and "rp_machine (snd ws') = m'"
    using run sg by (auto simp: delete_guard_def and_then_def reading_def on_machine_def update_def
        guard_of_def split: prod.splits sum.splits)
  ultimately show ?thesis using destroy_members_unmaps by simp
qed

lemma construct_body_maps:
  assumes run: "construct_body (api_beside api) rb pf g argc argv ws = (r, ws')"
  shows "foreign_maps g (snd ws') = foreign_maps g (snd ws)"
proof -
  have b: "balanced (\<lambda>ws. foreign_maps g (snd ws)) (scoped (CHECK_HDF5_ID ''H5Fopen''
      (H5Fopen_rdonly (api_beside api) fn)) (H5Fclose (api_beside api)) (load_dump (api_beside api) rb pf g))"
    for fn
    by (rule replay_observed.balanced_construct [OF foreign_observed])
  have u: "balanced (\<lambda>ws. foreign_maps g (snd ws)) (update (\<lambda>s. s\<lparr>rp_input_reset_enabled := e\<rparr>))"
    "balanced (\<lambda>ws. foreign_maps g (snd ws)) (update (\<lambda>s. s\<lparr>rp_replay_allocations := a,
       rp_initialized := i, rp_scope_guard := d\<rparr>))" for e a i d
    by (simp_all add: balanced_def update_def foreign_maps_def)
  have c: "balanced (\<lambda>ws. foreign_maps g (snd ws)) (construct_body (api_beside api) rb pf g argc argv)"
    unfolding construct_body_def
    by (intro b u balanced_reading balanced_control balanced_and_then balanced_throw)
  show ?thesis by (rule balancedD [OF c run])
qed

lemma construction_maps:
  assumes run: "construct_ScopeGuard (api_beside api) rb pf argc argv ws = (r, ws')"
  shows "case r of
      Inl e \<Rightarrow> e \<noteq> Abort \<longrightarrow> machine_maps (rp_machine (snd ws')) = machine_maps (rp_machine (snd ws))
    | Inr g \<Rightarrow> foreign_maps g (snd ws') = Some (machine_maps (rp_machine (snd ws)), True)"
proof -
  let ?g = "rp_next_guard (snd ws)"
  let ?s1 = "(snd ws)\<lparr>rp_next_guard := Suc ?g, rp_guards := (rp_guards (snd ws))(?g \<mapsto> empty_guard)\<rparr>"
  have start: "foreign_maps ?g ?s1 = Some (machine_maps (rp_machine (snd ws)), True)"
    by (simp add: foreign_maps_def empty_guard_def own_pages_def device_objects_def)
  obtain q ws2 where body: "construct_body (api_beside api) rb pf ?g argc argv (fst ws, ?s1) = (q, ws2)"
    by (cases "construct_body (api_beside api) rb pf ?g argc argv (fst ws, ?s1)")
  have own: "foreign_maps ?g (snd ws2) = Some (machine_maps (rp_machine (snd ws)), True)"
    using construct_body_maps [OF body] start by simp
  show ?thesis
  proof -
    obtain d ws3 where "delete_guard pf ?g ws2 = (d, ws3)" by (cases "delete_guard pf ?g ws2")
    then show ?thesis
      using run body own delete_guard_unmaps [of ?g ws2 _ ws3]
      by (cases q; cases d) (auto simp: construct_ScopeGuard_def update_def Let_def split: exn.splits)
  qed
qed

end

section \<open>Properties\<close>

text \<open>
  Property C22.  Host pages are not leaked: when the constructor of \<open>ScopeGuard\<close> throws, the
  host mappings of the process are those from before the call; when it succeeds and the
  guard is then destroyed, they are again.  For any system whose \<open>mmap\<close> and
  \<open>munmap\<close> do what they document, and any behaviour of HDF5 and of the driver.
\<close>

theorem host_pages_released:
  assumes "host_mappings pf mapped"
    and "construct_ScopeGuard (api_beside api) rb pf argc argv ws = (r, ws1)" and "r \<noteq> Inl Abort"
  shows "case r of
      Inl e \<Rightarrow> mapped (mc_os (rp_machine (snd ws1))) = mapped (mc_os (rp_machine (snd ws)))
    | Inr g \<Rightarrow> (\<forall>u ws2. destroy_ScopeGuard pf g ws1 = (Inr u, ws2) \<longrightarrow>
        mapped (mc_os (rp_machine (snd ws2))) = mapped (mc_os (rp_machine (snd ws))))"
proof (cases r)
  case (Inl e)
  then show ?thesis
    using host_mappings.construction_maps [OF assms(1,2)] assms(3) by simp
next
  case (Inr g)
  have own: "host_mappings.foreign_maps mapped g (snd ws1) = Some (mapped (mc_os (rp_machine (snd ws))), True)"
    using host_mappings.construction_maps [OF assms(1,2)] Inr by simp
  have "mapped (mc_os (rp_machine (snd ws2))) = mapped (mc_os (rp_machine (snd ws)))"
    if "destroy_ScopeGuard pf g ws1 = (Inr u, ws2)" for u ws2
  proof (rule host_mappings.delete_guard_unmaps [OF assms(1)])
    let ?s = "(snd ws1)\<lparr>rp_replay_allocations := (if rp_replay_allocations (snd ws1) = Some g then None
        else rp_replay_allocations (snd ws1)), rp_scope_guard := None\<rparr>"
    show "delete_guard pf g (fst ws1, ?s) = (Inr u, ws2)"
      using that by (simp add: destroy_ScopeGuard_def and_then_def update_def)
    show "host_mappings.foreign_maps mapped g (snd (fst ws1, ?s)) = Some (mapped (mc_os (rp_machine (snd ws))), True)"
      using own by (simp add: host_mappings.foreign_maps_def [OF assms(1)])
  qed
  then show ?thesis using Inr by simp
qed

end
