(* ===== verification/Extended_Lambda.thy ===== *)
theory Extended_Lambda
  imports Prelude
begin

text \<open>
  Functors and NVCC's extended lambdas (\<open>src/krepe/common/extended_lambda_utils.hpp\<close>): the
  traversal of the host closures a functor holds, which the extractor copies into a dump and
  the replayer saves, patches and restores.

  NVCC turns an extended lambda into a wrapper: the captured variables, and a member
  \<open>data\<close> that points to a heap copy of the host-only lambda with the same captures.  Types
  are described by what the compiler fixes for them (sizes, alignments, the offset of
  \<open>data\<close>); they are the template arguments the code recurses over.
\<close>

section \<open>Types of objects\<close>

record hdl_layout =
  hl_size :: nat
  hl_align :: nat
  hl_data :: nat
  hl_host_size :: nat

datatype captured_type = Plain nat nat | Hdl hdl_layout "captured_type list"

fun size_of :: "captured_type \<Rightarrow> nat" where
  "size_of (Plain n a) = n"
| "size_of (Hdl l cs) = hl_size l"

fun align_of :: "captured_type \<Rightarrow> nat" where
  "align_of (Plain n a) = a"
| "align_of (Hdl l cs) = hl_align l"

fun is_hdl :: "captured_type \<Rightarrow> bool" where
  "is_hdl (Plain n a) = False"
| "is_hdl (Hdl l cs) = True"

text \<open>Sizes of types are far below \<open>2 ^ 64\<close>: the arithmetic of \<open>std::size_t\<close> does not wrap.\<close>

definition align_offset :: "nat \<Rightarrow> nat \<Rightarrow> nat" where
  "align_offset offset alignment = ((offset + alignment - 1) div alignment) * alignment"

section \<open>Pointers in memory\<close>

text \<open>Eight bytes, the least significant one first.\<close>

definition pointer_bytes :: "addr \<Rightarrow> byte list" where
  "pointer_bytes p = List.map (\<lambda>i. ucast (drop_bit (8 * i) p)) [0..<8]"

definition read_pointer :: "memory \<Rightarrow> addr \<Rightarrow> addr" where
  "read_pointer m a = word_of_int (horner_sum uint 256 (read_bytes m a 8))"

lemma length_pointer_bytes [simp]: "length (pointer_bytes p) = 8"
  by (simp add: pointer_bytes_def)

lemma uint_mod64 [simp]: "uint (p :: addr) mod 18446744073709551616 = uint p"
  using uint_bounded [of p] by simp

lemma bytes_of_word:
  "horner_sum uint 256 (List.map (\<lambda>i. ucast (drop_bit (8 * i) p) :: byte) [0..<n]) = uint (p :: addr) mod 256 ^ n"
proof (induction n)
  case (Suc n)
  have "uint (ucast (drop_bit (8 * n) p) :: byte) = uint p div 256 ^ n mod 256"
    by (simp add: unsigned_ucast_eq unsigned_drop_bit_eq drop_bit_eq_div [where 'a = int] take_bit_eq_mod
      power_mult)
  with Suc show ?case
    using zmod_zmult2_eq [of 256 "uint p" "256 ^ n"] by (simp add: horner_sum_append mult.commute)
qed simp

lemma read_pointer_bytes: "read_bytes m a 8 = pointer_bytes p \<Longrightarrow> read_pointer m a = p"
  using bytes_of_word [of p 8] by (simp add: read_pointer_def pointer_bytes_def)

lemma read_written_pointer [simp]: "read_pointer (write_bytes a (pointer_bytes p) m) a = p"
  using read_write_bytes [of "pointer_bytes p" a m] by (intro read_pointer_bytes) simp

section \<open>The traversal\<close>

text \<open>
  What the visitor is called with: the wrapper, the address of its member \<open>data\<close>, the
  pointer read from there, and the size of the host closure.
\<close>

record hdl_visit =
  hv_functor :: addr
  hv_slot :: addr
  hv_buffer :: addr
  hv_size :: nat

text \<open>
  \<open>visit_hdl_host_lambdas\<close> and \<open>visit_hdl_captures\<close>: a wrapper before the wrappers among
  its captures, first those in the wrapper itself, then those in its host closure.  The
  overload for other types aborts.  Visitors do not write to the memory that is visited.
\<close>

fun visit_hdl_host_lambdas ::
  "memory \<Rightarrow> (hdl_visit \<Rightarrow> ('s, unit) prog) \<Rightarrow> captured_type \<Rightarrow> addr \<Rightarrow> ('s, unit) prog"
and visit_hdl_captures ::
  "memory \<Rightarrow> (hdl_visit \<Rightarrow> ('s, unit) prog) \<Rightarrow> captured_type list \<Rightarrow> addr \<Rightarrow> nat \<Rightarrow> ('s, unit) prog"
where
  "visit_hdl_host_lambdas mem visitor (Plain n a) f = throw Abort"
| "visit_hdl_host_lambdas mem visitor (Hdl l cs) f =
     (let slot = f + of_nat (hl_data l);
          buffer = read_pointer mem slot
      in and_then (visitor \<lparr>hv_functor = f, hv_slot = slot, hv_buffer = buffer, hv_size = hl_host_size l\<rparr>) (\<lambda>_.
         and_then (visit_hdl_captures mem visitor cs f 0) (\<lambda>_.
         visit_hdl_captures mem visitor cs buffer 0)))"
| "visit_hdl_captures mem visitor [] storage offset = done_with ()"
| "visit_hdl_captures mem visitor (t # ts) storage offset =
     (let at = align_offset offset (align_of t) in
      and_then (if is_hdl t then visit_hdl_host_lambdas mem visitor t (storage + of_nat at)
                else done_with ()) (\<lambda>_.
      visit_hdl_captures mem visitor ts storage (at + size_of t)))"

text \<open>The calls of the visitor, in their order.\<close>

fun hdl_visits :: "memory \<Rightarrow> captured_type \<Rightarrow> addr \<Rightarrow> hdl_visit list"
and capture_visits :: "memory \<Rightarrow> captured_type list \<Rightarrow> addr \<Rightarrow> nat \<Rightarrow> hdl_visit list"
where
  "hdl_visits mem (Plain n a) f = []"
| "hdl_visits mem (Hdl l cs) f =
     (let slot = f + of_nat (hl_data l); buffer = read_pointer mem slot
      in \<lparr>hv_functor = f, hv_slot = slot, hv_buffer = buffer, hv_size = hl_host_size l\<rparr> #
         capture_visits mem cs f 0 @ capture_visits mem cs buffer 0)"
| "capture_visits mem [] storage offset = []"
| "capture_visits mem (t # ts) storage offset =
     (let at = align_offset offset (align_of t) in
      hdl_visits mem t (storage + of_nat at) @ capture_visits mem ts storage (at + size_of t))"

lemma no_visits [simp]: "\<not> is_hdl t \<Longrightarrow> hdl_visits mem t f = []"
  by (cases t) simp_all

lemma visit_visits:
  "is_hdl t \<Longrightarrow> visit_hdl_host_lambdas mem visitor t f = for_each visitor (hdl_visits mem t f)"
  "visit_hdl_captures mem visitor ts storage offset = for_each visitor (capture_visits mem ts storage offset)"
proof (induction mem visitor t f and mem visitor ts storage offset
    rule: visit_hdl_host_lambdas_visit_hdl_captures.induct)
  case (4 mem visitor t ts storage offset)
  then show ?case by (cases \<open>is_hdl t\<close>) (simp_all add: Let_def for_each_append)
qed (simp_all add: Let_def for_each_append)

section \<open>Where the slots and the closures lie\<close>

text \<open>The sizes of the closures that are visited depend on the type only.\<close>

fun closure_sizes :: "captured_type \<Rightarrow> nat list" where
  "closure_sizes (Plain n a) = []"
| "closure_sizes (Hdl l cs) =
     hl_host_size l # concat (List.map closure_sizes cs) @ concat (List.map closure_sizes cs)"

lemma visited_sizes:
  "List.map hv_size (hdl_visits mem t f) = closure_sizes t"
  "List.map hv_size (capture_visits mem ts storage offset) = concat (List.map closure_sizes ts)"
  by (induction mem t f and mem ts storage offset rule: hdl_visits_capture_visits.induct)
    (simp_all add: Let_def)

definition cells :: "addr \<Rightarrow> nat \<Rightarrow> addr set" where
  "cells a n = {x. unat (x - a) < n}"

lemma cells_within:
  assumes "k + m \<le> n"
  shows "cells (a + of_nat k) m \<subseteq> cells a n"
proof
  fix x assume "x \<in> cells (a + of_nat k) m"
  then have "unat (x - a - of_nat k) < m" by (simp add: cells_def algebra_simps)
  moreover have "unat (x - a) \<le> unat (x - a - of_nat k) + k"
  proof -
    have "unat (x - a) = unat ((x - a - of_nat k) + of_nat k)" by simp
    also have "\<dots> \<le> unat (x - a - of_nat k) + unat (of_nat k :: addr)"
      by (metis add.commute le_add_same_cancel2 mod_less_eq_dividend unat_word_ariths(1))
    also have "unat (of_nat k :: addr) \<le> k" by (simp add: unat_of_nat)
    finally show ?thesis by simp
  qed
  ultimately show "x \<in> cells a n" using assms by (simp add: cells_def)
qed

lemma cells_disjoint:
  assumes "n \<le> unat (b - a)" and "m \<le> unat (a - b)"
  shows "cells a n \<inter> cells b m = {}"
proof (rule ccontr)
  assume "cells a n \<inter> cells b m \<noteq> {}"
  then obtain x where x: "unat (x - a) < n" "unat (x - b) < m" by (auto simp: cells_def)
  have "unat (a - b) + unat (b - a) \<le> 2 ^ 64"
    by (simp add: unat_sub_if' del: unat_lt64) (use unat_lt64 [of a] unat_lt64 [of b] in arith)
  then have "unat (x - b) + unat (b - a) < 2 ^ LENGTH(64)" using x assms(2) by simp
  then have "unat ((x - b) + (b - a)) = unat (x - b) + unat (b - a)" by (rule unat_add_no_wrap)
  then show False using x assms(1) by simp
qed

lemma cells_mono: "m \<le> n \<Longrightarrow> cells a m \<subseteq> cells a n"
  by (auto simp: cells_def)

lemma write_bytes_outside: "x \<notin> cells a (length bs) \<Longrightarrow> write_bytes a bs m x = m x"
  by (simp add: write_bytes_def cells_def)

lemma write_bytes_inside:
  "x \<in> cells a n \<Longrightarrow> write_bytes a (read_bytes m a n) m' x = m x"
  by (simp add: write_bytes_def read_bytes_def cells_def)

text \<open>
  What the compiler guarantees of a wrapper: \<open>data\<close> and the captures lie inside it, the
  captures lie inside the host closure as well, and the closure is not larger than the
  wrapper (the \<open>static_assert\<close>).
\<close>

fun captures_end :: "captured_type list \<Rightarrow> nat \<Rightarrow> nat" where
  "captures_end [] offset = offset"
| "captures_end (t # ts) offset = captures_end ts (align_offset offset (align_of t) + size_of t)"

fun layout_ok :: "captured_type \<Rightarrow> bool" where
  "layout_ok (Plain n a) = (0 < a)"
| "layout_ok (Hdl l cs) \<longleftrightarrow>
     0 < hl_align l \<and> hl_data l + 8 \<le> hl_size l \<and> hl_host_size l \<le> hl_size l \<and>
     captures_end cs 0 \<le> hl_host_size l \<and> (\<forall>c \<in> set cs. layout_ok c)"

lemma layout_align: "layout_ok t \<Longrightarrow> 0 < align_of t"
  by (cases t) simp_all

lemma align_offset_bounds:
  assumes "0 < a"
  shows "n \<le> align_offset n a" and "a dvd align_offset n a" and "align_offset n a < n + a"
proof -
  have "(n + a - 1) div a * a + (n + a - 1) mod a = n + a - 1" by simp
  moreover have "(n + a - 1) mod a < a" using assms by simp
  ultimately show "n \<le> align_offset n a" "align_offset n a < n + a"
    using assms unfolding align_offset_def by linarith+
  show "a dvd align_offset n a" by (simp add: align_offset_def)
qed

lemma captures_end_ge: "\<forall>t \<in> set ts. layout_ok t \<Longrightarrow> offset \<le> captures_end ts offset"
proof (induction ts arbitrary: offset)
  case (Cons t ts)
  have "offset \<le> align_offset offset (align_of t)"
    using Cons.prems align_offset_bounds(1) [OF layout_align] by simp
  also have "\<dots> \<le> captures_end ts (align_offset offset (align_of t) + size_of t)"
    using Cons.IH [of "align_offset offset (align_of t) + size_of t"] Cons.prems by simp
  finally show ?case by simp
qed simp

text \<open>
  Every slot lies in the functor itself or in a closure that was visited before: reading
  the addresses \<open>A\<close> first, then each closure in turn.
\<close>

fun slots_seen :: "addr set \<Rightarrow> hdl_visit list \<Rightarrow> bool" where
  "slots_seen A [] = True"
| "slots_seen A (v # vs) \<longleftrightarrow>
     cells (hv_slot v) 8 \<subseteq> A \<and> slots_seen (A \<union> cells (hv_buffer v) (hv_size v)) vs"

definition closure_cells :: "hdl_visit list \<Rightarrow> addr set" where
  "closure_cells vs = (\<Union>v \<in> set vs. cells (hv_buffer v) (hv_size v))"

definition slot_cells :: "hdl_visit list \<Rightarrow> addr set" where
  "slot_cells vs = (\<Union>v \<in> set vs. cells (hv_slot v) 8)"

lemma closure_cells_simps [simp]:
  "closure_cells [] = {}" "closure_cells (v # vs) = cells (hv_buffer v) (hv_size v) \<union> closure_cells vs"
  "slot_cells [] = {}" "slot_cells (v # vs) = cells (hv_slot v) 8 \<union> slot_cells vs"
  by (auto simp: closure_cells_def slot_cells_def)

lemma slots_seen_mono: "slots_seen A vs \<Longrightarrow> A \<subseteq> B \<Longrightarrow> slots_seen B vs"
proof (induction vs arbitrary: A B)
  case (Cons v vs)
  then show ?case by (auto intro: Cons.IH [of "A \<union> cells (hv_buffer v) (hv_size v)"])
qed simp

lemma slots_seen_append:
  "slots_seen A vs \<Longrightarrow> slots_seen (A \<union> closure_cells vs) us \<Longrightarrow> slots_seen A (vs @ us)"
  by (induction vs arbitrary: A) (simp_all add: Un_assoc)

lemma slots_seen_within: "slots_seen A vs \<Longrightarrow> slot_cells vs \<subseteq> A \<union> closure_cells vs"
  by (induction vs arbitrary: A) (simp, fastforce)

lemma visits_seen:
  "layout_ok t \<Longrightarrow> cells f (size_of t) \<subseteq> A \<Longrightarrow> slots_seen A (hdl_visits mem t f)"
  "\<forall>t \<in> set ts. layout_ok t \<Longrightarrow> cells storage (captures_end ts offset) \<subseteq> A \<Longrightarrow>
     slots_seen A (capture_visits mem ts storage offset)"
proof (induction mem t f and mem ts storage offset arbitrary: A and A
    rule: hdl_visits_capture_visits.induct)
  case (2 mem l cs f)
  let ?buffer = "read_pointer mem (f + of_nat (hl_data l))"
  let ?B = "A \<union> cells ?buffer (hl_host_size l)"
  have ends: "captures_end cs 0 \<le> hl_host_size l" "captures_end cs 0 \<le> hl_size l"
    and ok: "\<forall>t \<in> set cs. layout_ok t" and data: "hl_data l + 8 \<le> hl_size l" using 2(3) by auto
  have self: "cells f (hl_size l) \<subseteq> A" using 2(4) by simp
  have "cells (f + of_nat (hl_data l)) 8 \<subseteq> A" using cells_within [OF data, of f] self by blast
  moreover have "cells f (captures_end cs 0) \<subseteq> ?B"
    using cells_mono [OF ends(2), of f] self by blast
  then have "slots_seen ?B (capture_visits mem cs f 0)" by (rule 2(1) [OF refl refl ok])
  moreover have "cells ?buffer (captures_end cs 0) \<subseteq> ?B \<union> closure_cells (capture_visits mem cs f 0)"
    using cells_mono [OF ends(1), of ?buffer] by blast
  then have "slots_seen (?B \<union> closure_cells (capture_visits mem cs f 0)) (capture_visits mem cs ?buffer 0)"
    by (rule 2(2) [OF refl refl ok])
  ultimately show ?case by (simp add: Let_def slots_seen_append)
next
  case (4 mem t ts storage offset)
  let ?at = "align_offset offset (align_of t)"
  have ok: "layout_ok t" "\<forall>t \<in> set ts. layout_ok t" using 4(3) by auto
  have "?at + size_of t \<le> captures_end ts (?at + size_of t)" by (rule captures_end_ge [OF ok(2)])
  from cells_within [OF this, of storage]
  have "slots_seen A (hdl_visits mem t (storage + of_nat ?at))"
    using 4(4) by (intro 4(1) [OF refl ok(1)]) auto
  moreover have "slots_seen (A \<union> closure_cells (hdl_visits mem t (storage + of_nat ?at)))
      (capture_visits mem ts storage (?at + size_of t))"
    using 4(4) by (intro 4(2) [OF refl ok(2)]) auto
  ultimately show ?case by (simp add: Let_def slots_seen_append)
qed simp_all

text \<open>The traversal depends on the pointers in the slots only.\<close>

lemma visits_cong:
  "\<forall>v \<in> set (hdl_visits mem t f). read_pointer mem' (hv_slot v) = hv_buffer v \<Longrightarrow>
     hdl_visits mem' t f = hdl_visits mem t f"
  "\<forall>v \<in> set (capture_visits mem ts storage offset). read_pointer mem' (hv_slot v) = hv_buffer v \<Longrightarrow>
     capture_visits mem' ts storage offset = capture_visits mem ts storage offset"
  by (induction mem t f and mem ts storage offset rule: hdl_visits_capture_visits.induct)
    (auto simp: Let_def)

end
