(* ===== verification/Replay_Buffers.thy ===== *)
theory Replay_Buffers
  imports Raw_Allocation Extended_Lambda
begin

text \<open>
  The buffers of the reference outputs: what \<open>regular_host_allocate\<close> and
  \<open>regular_device_allocate\<close> (\<open>src/krepe/replay/host_allocation.hpp\<close>, \<open>cuda_allocation.hpp\<close>,
  \<open>hip_allocation.hpp\<close>) rely on of the allocators of the host and the device, and that a new
  buffer leaves all the memory alone that is in use.
\<close>

section \<open>Memory in use\<close>

text \<open>
  \<open>used\<close> says which addresses of a kind of memory are in use.  From one machine to the next,
  what is in use stays in use and keeps its bytes.
\<close>

definition grows :: "(memory_space_type \<Rightarrow> 'o \<Rightarrow> addr set) \<Rightarrow> 'o machine \<Rightarrow> 'o machine \<Rightarrow> bool" where
  "grows used mc mc' \<longleftrightarrow>
     (\<forall>space. used space (mc_os mc) \<subseteq> used space (mc_os mc') \<and>
        (\<forall>x \<in> used space (mc_os mc). memory_of space mc' x = memory_of space mc x))"

lemma grows_refl [simp]: "grows used mc mc"
  by (simp add: grows_def)

lemma grows_trans: "grows used mc mc' \<Longrightarrow> grows used mc' mc'' \<Longrightarrow> grows used mc mc''"
  unfolding grows_def by (metis (no_types, lifting) subset_iff)

lemma read_bytes_agree:
  assumes "\<And>x. x \<in> cells p n \<Longrightarrow> m x = m' x" and "n \<le> 2 ^ 64"
  shows "read_bytes m p n = read_bytes m' p n"
proof -
  have "p + of_nat i \<in> cells p n" if "i < n" for i
    using that assms(2) by (simp add: cells_def unat_of_nat)
  then show ?thesis using assms(1) by (simp add: read_bytes_def)
qed

lemma size_in_range: "unat (n :: u64) \<le> 2 ^ 64"
  using unsigned_less [of n, where ?'a = nat] by (simp add: less_imp_le)

lemma grows_read:
  assumes "grows used mc mc'" and "cells p n \<subseteq> used space (mc_os mc)" and "n \<le> 2 ^ 64"
  shows "read_bytes (memory_of space mc') p n = read_bytes (memory_of space mc) p n"
  by (rule read_bytes_agree) (use assms in \<open>auto simp: grows_def\<close>)

text \<open>A buffer with its bytes.\<close>

definition holds_buffer ::
  "(memory_space_type \<Rightarrow> 'o \<Rightarrow> addr set) \<Rightarrow> memory_space_type \<Rightarrow> 'o machine \<Rightarrow> addr \<Rightarrow> byte list \<Rightarrow> bool" where
  "holds_buffer used space mc p bytes \<longleftrightarrow>
     p \<noteq> nullptr \<and> length bytes \<le> 2 ^ 64 \<and> cells p (length bytes) \<subseteq> used space (mc_os mc) \<and>
     read_bytes (memory_of space mc) p (length bytes) = bytes"

lemma holds_buffer_grows: "holds_buffer used space mc p bytes \<Longrightarrow> grows used mc mc' \<Longrightarrow> holds_buffer used space mc' p bytes"
  using grows_read [of used mc mc' p "length bytes" space] by (auto simp: holds_buffer_def grows_def)

section \<open>The allocators\<close>

text \<open>
  A new block was not in use before; \<open>room\<close> is a number of bytes that will be granted.
\<close>

locale buffer_heap =
  fixes pf :: "'o platform" and used :: "memory_space_type \<Rightarrow> 'o \<Rightarrow> addr set" and room :: "'o \<Rightarrow> nat"
  assumes malloc_grants: "n \<noteq> 0 \<Longrightarrow> unat n \<le> room os \<Longrightarrow> fst (pf_malloc pf n os) \<noteq> nullptr"
    and malloc_fresh: "pf_malloc pf n os = (p, os') \<Longrightarrow> p \<noteq> nullptr \<Longrightarrow>
      cells p (unat n) \<inter> used HOST os = {} \<and> cells p (unat n) \<subseteq> used HOST os' \<and>
      (\<forall>space. used space os \<subseteq> used space os') \<and> room os \<le> room os' + unat n"
    and device_grants: "has_device_space (pf_backend pf) \<Longrightarrow> n \<noteq> 0 \<Longrightarrow> unat n \<le> room os \<Longrightarrow>
      \<exists>p os'. pf_device_malloc pf n os = (Inr p, os') \<and> p \<noteq> nullptr"
    and device_fresh: "pf_device_malloc pf n os = (Inr p, os') \<Longrightarrow> p \<noteq> nullptr \<Longrightarrow>
      cells p (unat n) \<inter> used DEVICE os = {} \<and> cells p (unat n) \<subseteq> used DEVICE os' \<and>
      (\<forall>space. used space os \<subseteq> used space os') \<and> room os \<le> room os' + unat n"
    and memcpy_grants: "has_device_space (pf_backend pf) \<Longrightarrow> cells p (length bytes) \<subseteq> used DEVICE os \<Longrightarrow>
      \<exists>os'. pf_memcpy_to_device pf p bytes os = (Inr (), os')"
    and memcpy_uses: "pf_memcpy_to_device pf p bytes os = (Inr (), os') \<Longrightarrow>
      used space os' = used space os \<and> room os' = room os"
begin

lemma host_buffer:
  assumes n: "n \<noteq> 0" "unat n \<le> room (mc_os mc)" and bytes: "length bytes = unat n"
  shows "\<exists>p mc'. regular_host_allocate pf n bytes mc = (Inr p, mc') \<and> grows used mc mc' \<and>
    holds_buffer used HOST mc' p bytes \<and> room (mc_os mc) \<le> room (mc_os mc') + unat n"
proof -
  obtain p os' where m: "pf_malloc pf n (mc_os mc) = (p, os')" by fastforce
  then have p: "p \<noteq> nullptr" using malloc_grants [OF n] by simp
  note fresh = malloc_fresh [OF m p]
  let ?mc = "mc\<lparr>mc_os := os', mc_host := write_bytes p bytes (mc_host mc)\<rparr>"
  have len: "length bytes \<le> 2 ^ 64" using size_in_range [of n] by (simp add: bytes)
  have "regular_host_allocate pf n bytes mc = (Inr p, ?mc)"
    using p by (simp add: regular_host_allocate_def and_then_def os_do_def m host_copy_data_def done_with_def)
  moreover have "grows used mc ?mc"
    unfolding grows_def
  proof (intro allI conjI ballI)
    fix space show "used space (mc_os mc) \<subseteq> used space (mc_os ?mc)" using fresh by simp
    fix x assume "x \<in> used space (mc_os mc)"
    then have "space = HOST \<Longrightarrow> x \<notin> cells p (length bytes)" using fresh by (auto simp: bytes)
    then show "memory_of space ?mc x = memory_of space mc x"
      by (cases space) (simp_all add: memory_of_def write_bytes_outside)
  qed
  moreover have "holds_buffer used HOST ?mc p bytes"
    using fresh p len by (simp add: holds_buffer_def bytes memory_of_def read_write_bytes [OF len, unfolded bytes])
  ultimately show ?thesis using fresh by auto
qed

lemma device_buffer:
  assumes backend: "has_device_space (pf_backend pf)"
    and n: "n \<noteq> 0" "unat n \<le> room (mc_os mc)" and bytes: "length bytes = unat n"
  shows "\<exists>p mc'. regular_device_allocate pf n bytes mc = (Inr p, mc') \<and> grows used mc mc' \<and>
    holds_buffer used DEVICE mc' p bytes \<and> room (mc_os mc) \<le> room (mc_os mc') + unat n"
proof -
  obtain p os1 where m: "pf_device_malloc pf n (mc_os mc) = (Inr p, os1)" and p: "p \<noteq> nullptr"
    using device_grants [OF backend n] by blast
  note fresh = device_fresh [OF m p]
  have "cells p (length bytes) \<subseteq> used DEVICE os1" using fresh by (simp add: bytes)
  from memcpy_grants [OF backend this] obtain os' where c: "pf_memcpy_to_device pf p bytes os1 = (Inr (), os')" by blast
  note uses = memcpy_uses [OF c]
  let ?mc = "mc\<lparr>mc_os := os', mc_device := write_bytes p bytes (mc_device mc)\<rparr>"
  have len: "length bytes \<le> 2 ^ 64" using size_in_range [of n] by (simp add: bytes)
  have "regular_device_allocate pf n bytes mc = (Inr p, ?mc)"
    by (simp add: regular_device_allocate_def device_copy_data_def and_then_def os_call_def m c done_with_def)
  moreover have "grows used mc ?mc"
    unfolding grows_def
  proof (intro allI conjI ballI)
    fix space show "used space (mc_os mc) \<subseteq> used space (mc_os ?mc)" using fresh uses by simp
    fix x assume "x \<in> used space (mc_os mc)"
    then have "space = DEVICE \<Longrightarrow> x \<notin> cells p (length bytes)" using fresh by (auto simp: bytes)
    then show "memory_of space ?mc x = memory_of space mc x"
      by (cases space) (simp_all add: memory_of_def write_bytes_outside)
  qed
  moreover have "holds_buffer used DEVICE ?mc p bytes"
    using fresh p len uses by (simp add: holds_buffer_def bytes memory_of_def read_write_bytes [OF len, unfolded bytes])
  ultimately show ?thesis using fresh uses by auto
qed

end

end
