(* ===== verification/Reference_Platform.thy ===== *)
theory Reference_Platform
  imports Replay_Mappings Replay_Buffers
begin

text \<open>
  A system that satisfies the laws of \<open>Replay_Mappings\<close> and \<open>Replay_Buffers\<close>: a list of host
  mappings and a heap that only grows.  It shows that the laws can hold, and the concrete executions of the
  development run on it.  It is not a model of an operating system or of a driver.
\<close>

record ref_os =
  ro_maps :: "region list"
  ro_heap :: addr

definition overlaps :: "region \<Rightarrow> region \<Rightarrow> bool" where
  "overlaps r s \<longleftrightarrow> \<not> below r s \<and> \<not> below s r"

text \<open>The errors are \<open>EINVAL\<close> and \<open>EEXIST\<close>.\<close>

definition ref_mmap :: "addr \<Rightarrow> u64 \<Rightarrow> ref_os \<Rightarrow> (int + addr) \<times> ref_os" where
  "ref_mmap a n os =
     (if a = 0 \<or> n = 0 \<or> \<not> fits (Region a n) then (Inl 22, os)
      else if list_ex (overlaps (Region a n)) (ro_maps os) then (Inl 17, os)
      else (Inr a, os\<lparr>ro_maps := Region a n # ro_maps os\<rparr>))"

definition ref_munmap :: "addr \<Rightarrow> u64 \<Rightarrow> ref_os \<Rightarrow> ref_os" where
  "ref_munmap a n os = os\<lparr>ro_maps := removeAll (Region a n) (ro_maps os)\<rparr>"

text \<open>The heap ends at the first mapping above it, or at the end of the address space.\<close>

definition ref_grants :: "u64 \<Rightarrow> ref_os \<Rightarrow> bool" where
  "ref_grants n os \<longleftrightarrow> ro_heap os \<noteq> 0 \<and> fits (Region (ro_heap os) n) \<and>
     \<not> list_ex (overlaps (Region (ro_heap os) n)) (ro_maps os)"

definition ref_malloc :: "u64 \<Rightarrow> ref_os \<Rightarrow> addr \<times> ref_os" where
  "ref_malloc n os =
     (if ref_grants n os then (ro_heap os, os\<lparr>ro_heap := ro_heap os + n\<rparr>) else (nullptr, os))"

definition ref_device_malloc :: "u64 \<Rightarrow> ref_os \<Rightarrow> (exn + addr) \<times> ref_os" where
  "ref_device_malloc n os =
     (if ref_grants n os then (Inr (ro_heap os), os\<lparr>ro_heap := ro_heap os + n\<rparr>)
      else (Inl (Std_Exception ''out of memory''), os))"

definition ref_platform :: "device_backend \<Rightarrow> ref_os platform" where
  "ref_platform backend =
     \<lparr>pf_backend = backend, pf_pagesize = 4096, pf_new = (\<lambda>n. None), pf_malloc_host = (\<lambda>n. None),
      pf_malloc = ref_malloc, pf_free = (\<lambda>a os. os), pf_mmap = ref_mmap, pf_munmap = ref_munmap,
      pf_fresh = (\<lambda>os a. 0), pf_strerror = (\<lambda>e. ''Invalid argument''),
      pf_supports_vmm = (\<lambda>os. (Inr True, os)), pf_granularity = Inr 4096,
      pf_mem_create = (\<lambda>n os. (Inr 1, os)), pf_address_reserve = (\<lambda>n a os. (Inr a, os)),
      pf_mem_map = (\<lambda>a n h os. (Inr (), os)), pf_set_access = (\<lambda>a n os. (Inr (), os)),
      pf_mem_release = (\<lambda>h os. (Inr (), os)), pf_mem_unmap = (\<lambda>a n os. (Inr (), os)),
      pf_address_free = (\<lambda>a n os. (Inr (), os)),
      pf_device_malloc = ref_device_malloc,
      pf_device_free = (\<lambda>a os. (Inr (), os)), pf_memcpy_to_device = (\<lambda>a bs os. (Inr (), os))\<rparr>"

lemma ref_platform_simps [simp]:
  "pf_backend (ref_platform k) = k" "pf_pagesize (ref_platform k) = 4096"
  "pf_granularity (ref_platform k) = Inr 4096" "pf_new (ref_platform k) n = None"
  "pf_malloc_host (ref_platform k) n = None" "pf_mmap (ref_platform k) = ref_mmap"
  "pf_munmap (ref_platform k) = ref_munmap" "pf_malloc (ref_platform k) = ref_malloc"
  "pf_memcpy_to_device (ref_platform k) a bs os = (Inr (), os)"
  "pf_device_malloc (ref_platform k) = ref_device_malloc"
  by (simp_all add: ref_platform_def)

definition ref_machine :: "ref_os machine" where
  "ref_machine = \<lparr>mc_os = \<lparr>ro_maps = [], ro_heap = 0x100000\<rparr>, mc_host = (\<lambda>_. 0), mc_device = (\<lambda>_. 0)\<rparr>"

definition ref_mapped :: "ref_os \<Rightarrow> region set" where
  "ref_mapped os = set (ro_maps os)"

lemma ref_mmap_new:
  assumes "ref_mmap a n os = (Inr a', os')"
  shows "Region a' n \<notin> ref_mapped os \<and> a' \<noteq> 0 \<and> ref_mapped os' = insert (Region a' n) (ref_mapped os)"
proof -
  have n: "0 < n \<Longrightarrow> overlaps (Region a n) (Region a n)"
    by (simp add: overlaps_def below_def word_less_nat_alt)
  then show ?thesis
    using assms by (auto simp: ref_mmap_def ref_mapped_def list_ex_iff word_gt_0 split: if_splits)
qed

interpretation ref_maps: host_mappings "ref_platform backend" ref_mapped for backend
proof (unfold_locales)
  show "pf_mmap (ref_platform backend) a n os = (Inr a', os') \<Longrightarrow>
      Region a' n \<notin> ref_mapped os \<and> a' \<noteq> nullptr \<and> ref_mapped os' = insert (Region a' n) (ref_mapped os)"
    for a n os a' os'
    using ref_mmap_new by (simp add: ref_platform_def)
qed (auto simp: ref_platform_def ref_mmap_def ref_munmap_def ref_malloc_def
  ref_device_malloc_def ref_mapped_def
  split: if_splits)

text \<open>What is in use: the pages that are mapped, and everything below the end of the heap.\<close>

definition ref_used :: "memory_space_type \<Rightarrow> ref_os \<Rightarrow> addr set" where
  "ref_used space os = {x. unat x < unat (ro_heap os) \<or> (\<exists>r \<in> set (ro_maps os). unat x \<in> extent r)}"

definition ref_room :: "ref_os \<Rightarrow> nat" where
  "ref_room os =
     (if ro_heap os \<noteq> 0 \<and> list_all (\<lambda>r. below r (Region (ro_heap os) 0)) (ro_maps os)
      then 2 ^ 64 - 1 - unat (ro_heap os) else 0)"

lemma cells_extent:
  assumes "fits (Region p n)"
  shows "x \<in> cells p (unat n) \<longleftrightarrow> unat x \<in> extent (Region p n)"
  using assms unat_lt64 [of x] by (auto simp: cells_def extent_def fits_def unat_sub_if' simp del: unat_lt64)

lemma ref_grants_block:
  assumes "ref_grants n os"
  defines "os' \<equiv> os\<lparr>ro_heap := ro_heap os + n\<rparr>"
  shows "ro_heap os \<noteq> 0 \<and> cells (ro_heap os) (unat n) \<inter> ref_used space os = {} \<and>
    cells (ro_heap os) (unat n) \<subseteq> ref_used space os' \<and> (\<forall>space. ref_used space os \<subseteq> ref_used space os') \<and>
    ref_room os \<le> ref_room os' + unat n"
proof -
  have fits: "fits (Region (ro_heap os) n)" and heap: "ro_heap os \<noteq> 0"
    and apart: "\<And>r. r \<in> set (ro_maps os) \<Longrightarrow> extent (Region (ro_heap os) n) \<inter> extent r = {}"
    using assms(1) by (auto simp: ref_grants_def list_ex_iff overlaps_def dest: below_disjoint)
  have no_wrap: "unat (ro_heap os + n) = unat (ro_heap os) + unat n"
    by (rule unat_add_no_wrap) (use fits in \<open>simp add: fits_def\<close>)
  note cells = cells_extent [OF fits]
  have "cells (ro_heap os) (unat n) \<inter> ref_used space os = {}"
  proof (rule ccontr)
    assume "cells (ro_heap os) (unat n) \<inter> ref_used space os \<noteq> {}"
    then obtain x where x: "unat x \<in> extent (Region (ro_heap os) n)" "x \<in> ref_used space os" using cells by blast
    have "\<not> unat x < unat (ro_heap os)" using x(1) by (simp add: extent_def)
    with x(2) obtain r where "r \<in> set (ro_maps os)" "unat x \<in> extent r" by (auto simp: ref_used_def)
    with x(1) apart show False by blast
  qed
  moreover have "cells (ro_heap os) (unat n) \<subseteq> ref_used space os'"
    by (auto simp: ref_used_def cells os'_def no_wrap extent_def)
  moreover have "\<forall>space. ref_used space os \<subseteq> ref_used space os'"
    by (auto simp: ref_used_def os'_def no_wrap)
  moreover have "ref_room os \<le> ref_room os' + unat n"
  proof -
    have "ro_heap os + n \<noteq> 0" using heap no_wrap by (auto simp: unat_eq_0 simp flip: unat_eq_0)
    moreover have "below r (Region (ro_heap os + n) 0)" if "below r (Region (ro_heap os) 0)" for r
      using that by (simp add: below_def no_wrap)
    ultimately show ?thesis by (auto simp: ref_room_def os'_def no_wrap list_all_iff)
  qed
  ultimately show ?thesis using heap by blast
qed

lemma ref_room_grants:
  assumes "n \<noteq> 0" and "unat n \<le> ref_room os"
  shows "ref_grants n os"
proof -
  have "0 < unat n" using assms(1) by (simp add: unat_gt_0)
  then have heap: "ro_heap os \<noteq> 0" and maps: "\<And>r. r \<in> set (ro_maps os) \<Longrightarrow> below r (Region (ro_heap os) 0)"
    and room: "unat n \<le> 2 ^ 64 - 1 - unat (ro_heap os)"
    using assms(2) by (auto simp: ref_room_def list_all_iff split: if_splits)
  have "fits (Region (ro_heap os) n)" using room unat_lt64 [of "ro_heap os"] by (simp add: fits_def del: unat_lt64)
  then show ?thesis using heap maps by (auto simp: ref_grants_def list_ex_iff overlaps_def below_def)
qed

interpretation ref_heap: buffer_heap "ref_platform backend" ref_used ref_room for backend
proof unfold_locales
  show "n \<noteq> 0 \<Longrightarrow> unat n \<le> ref_room os \<Longrightarrow> fst (pf_malloc (ref_platform backend) n os) \<noteq> nullptr" for n os
    using ref_room_grants [of n os] ref_grants_block [of n os HOST] by (simp add: ref_malloc_def)
  show "pf_malloc (ref_platform backend) n os = (p, os') \<Longrightarrow> p \<noteq> nullptr \<Longrightarrow>
      cells p (unat n) \<inter> ref_used HOST os = {} \<and> cells p (unat n) \<subseteq> ref_used HOST os' \<and>
      (\<forall>space. ref_used space os \<subseteq> ref_used space os') \<and> ref_room os \<le> ref_room os' + unat n" for n os p os'
    using ref_grants_block [of n os HOST] by (auto simp: ref_malloc_def split: if_splits)
  show "n \<noteq> 0 \<Longrightarrow> unat n \<le> ref_room os \<Longrightarrow>
      \<exists>p os'. pf_device_malloc (ref_platform backend) n os = (Inr p, os') \<and> p \<noteq> nullptr" for n os
    using ref_room_grants [of n os] ref_grants_block [of n os DEVICE] by (simp add: ref_device_malloc_def)
  show "pf_device_malloc (ref_platform backend) n os = (Inr p, os') \<Longrightarrow> p \<noteq> nullptr \<Longrightarrow>
      cells p (unat n) \<inter> ref_used DEVICE os = {} \<and> cells p (unat n) \<subseteq> ref_used DEVICE os' \<and>
      (\<forall>space. ref_used space os \<subseteq> ref_used space os') \<and> ref_room os \<le> ref_room os' + unat n" for n os p os'
    using ref_grants_block [of n os DEVICE] by (auto simp: ref_device_malloc_def split: if_splits)
qed auto

text \<open>On this platform giving memory back succeeds.\<close>

lemma for_each_succeeds:
  "(\<And>x m. x \<in> set xs \<Longrightarrow> \<exists>m'. f x m = (Inr (), m')) \<Longrightarrow> \<exists>m'. for_each f xs m = (Inr (), m')"
proof (induction xs arbitrary: m)
  case (Cons x xs)
  obtain m1 where "f x m = (Inr (), m1)" using Cons.prems [of x m] by auto
  moreover have "\<exists>m'. for_each f xs m1 = (Inr (), m')" using Cons by simp
  ultimately show ?case by (simp add: and_then_def)
qed (simp add: done_with_def)

lemma ref_destroy:
  assumes "al_space a = Some space"
  shows "\<exists>m'. destroy_allocation (ref_platform k) a m = (Inr (), m')"
  using assms
  by (cases space) (simp_all add: destroy_allocation_def host_deallocate_def os_do_def device_deallocate_def
    and_then_def os_call_def ref_platform_def)

lemma ref_destroy_guard:
  assumes sg: "rp_guards (snd ws) g = Some sg" and "\<forall>a \<in> set (sg_host_raw sg @ sg_device_raw sg). al_space a \<noteq> None"
    and "\<forall>st \<in> snd ` set (sg_allocations sg). st_reference st = None"
  shows "\<exists>ws'. destroy_ScopeGuard (ref_platform k) g ws = (Inr (), ws')"
proof -
  have d: "\<exists>m'. for_each (destroy_allocation (ref_platform k)) xs m = (Inr (), m')"
    if "set xs \<subseteq> set (sg_host_raw sg @ sg_device_raw sg)" for xs m
    by (rule for_each_succeeds) (use assms(2) that ref_destroy in blast)
  have f: "\<exists>m'. for_each (free_reference (ref_platform k)) (List.map snd (sg_allocations sg)) m = (Inr (), m')" for m
    by (rule for_each_succeeds) (use assms(3) in \<open>auto simp: free_reference_def done_with_def\<close>)
  have "\<exists>m'. destroy_members (ref_platform k) sg m = (Inr (), m')" for m
  proof -
    obtain m1 where "for_each (destroy_allocation (ref_platform k)) (sg_device_raw sg) m = (Inr (), m1)"
      using d [of "sg_device_raw sg" m] by auto
    moreover obtain m2 where "for_each (destroy_allocation (ref_platform k)) (sg_host_raw sg) m1 = (Inr (), m2)"
      using d [of "sg_host_raw sg" m1] by auto
    ultimately show ?thesis using f [of m2] by (auto simp: destroy_members_def and_then_def done_with_def)
  qed
  from this [of "rp_machine (snd ws)"] show ?thesis
    using sg by (auto simp: destroy_ScopeGuard_def delete_guard_def and_then_def update_def reading_def
        guard_of_def on_machine_def)
qed

end
