(* ===== verification/Reference_Capture.thy ===== *)
theory Reference_Capture
  imports Capture_Replay Reference_Store Reference_Platform "HOL-Library.Code_Target_Nat"
begin

text \<open>
  A concrete capture: \<open>create_kernel_dump\<close> run on the reference library, and the conditions
  of a replay of its file on the reference platform.
\<close>

text \<open>One host allocation of two bytes, captured with the reference library.\<close>

definition example_allocation :: active_allocation where
  "example_allocation =
     \<lparr>aa_ptr = 0x500, aa_record = \<lparr>ar_label = ''x'', ar_space = ''Host'', ar_p_data = 0x10100,
        ar_size = 2, ar_reported_size = 2, ar_data_size_known = True\<rparr>\<rparr>"

definition example_snapshot :: allocation_snapshot where
  "example_snapshot = \<lparr>sn_active_bytes = 2, sn_allocations = [example_allocation]\<rparr>"

definition example_build :: capture_build where
  "example_build = \<lparr>has_compiler_plugins = False, enable_cuda_dump = False, enable_hip_dump = False,
     allocation_header_size = 128, on_linux = True\<rparr>"

definition example_env :: capture_env where
  "example_env = \<lparr>host_memory = (\<lambda>x. ucast x), resize_error = (\<lambda>_. None), cuda_memcpy = (\<lambda>_ _. Inl []),
     hip_memcpy = (\<lambda>_ _. Inl [])\<rparr>"

definition example_replay :: replay_build where
  "example_replay = \<lparr>rb_backend = No_Backend, rb_nvcc_hdl_workaround = False,
     rb_exec_spaces = [''Serial''], rb_kokkos_5_2 = False\<rparr>"

definition example_dump :: "view_dump_result \<times> ref_world" where
  "example_dump = create_kernel_dump example_build example_env ref_api Inr example_snapshot [7] []
     [(''k'', ''v'')] (Scalar_Policy 4) ''l'' 1 1 ref_start"

lemma example_dump_ok:
  "vr_ok (fst example_dump) \<and> vr_filename (fst example_dump) = ''krepe_l_1.h5''"
  by code_simp

lemma example_pages:
  "page_ranges example_replay (ref_platform No_Backend) HOST {example_allocation} = [Region 0x10000 0x1000]"
  "page_ranges example_replay (ref_platform No_Backend) DEVICE {example_allocation} = []"
proof -
  have "space_of example_allocation = HOST"
    by (simp add: space_of_def memory_space_type_from_string_def example_allocation_def)
  moreover have "pages_of example_replay (ref_platform No_Backend) example_allocation = Inr (Region 0x10000 0x1000)"
    by (simp add: pages_of_def get_allocation_address_def space_of_def memory_space_type_from_string_def
      example_allocation_def ref_platform_def page_range_def Let_def)
  moreover have "ar_size (aa_record example_allocation) = 2" by (simp add: example_allocation_def)
  ultimately show "page_ranges example_replay (ref_platform No_Backend) HOST {example_allocation} = [Region 0x10000 0x1000]"
    and "page_ranges example_replay (ref_platform No_Backend) DEVICE {example_allocation} = []"
    by (simp_all add: page_ranges_def has_data_def)
qed

lemma example_pages_for:
  "pages_for example_replay (ref_platform No_Backend) HOST example_snapshot = [Region 0x10000 0x1000]"
  "pages_for example_replay (ref_platform No_Backend) DEVICE example_snapshot = []"
  by (simp_all add: pages_for_def example_snapshot_def example_pages compute_allocations_def merge_loop.simps)

lemma example_ready:
  "replay_ready example_build example_env example_replay (ref_platform No_Backend) example_snapshot"
  "grants_pages example_replay (ref_platform No_Backend) example_snapshot ref_machine"
proof -
  show "grants_pages example_replay (ref_platform No_Backend) example_snapshot ref_machine"
    by (simp add: grants_pages_def example_pages_for construct_allocation_def host_allocate_def and_then_def os_do_def ref_mmap_def fits_def ref_machine_def host_pages_def done_with_def device_init_def has_device_space_def)
  have dumped: "fully_dumped example_build example_env example_allocation [0, 1]"
    by (simp add: fully_dumped_def dumpable_def machine_bytes_def example_allocation_def example_env_def
      is_host_accessible_space_def read_bytes_def upt_rec)
  have "restorable example_replay (ref_platform No_Backend) example_allocation"
    by (simp add: restorable_def pages_of_def has_data_def space_of_def memory_space_type_from_string_def
      example_allocation_def get_allocation_address_def ref_platform_def)
  then show "replay_ready example_build example_env example_replay (ref_platform No_Backend) example_snapshot"
    using dumped by (auto simp: replay_ready_def example_snapshot_def data_apart_def)
qed

text \<open>The replay of that capture.\<close>

definition example_argv :: "string list" where
  "example_argv = [''replayer'', ''--kernel-replayer-enable-input-reset'', ''--kernel-replayer-dump'',
     ''krepe_l_1.h5'']"

definition example_start :: "ref_world \<times> ref_os replayer" where
  "example_start = (snd example_dump, initial_replayer ref_machine)"

definition example_replayed :: "(exn + nat) \<times> ref_world \<times> ref_os replayer" where
  "example_replayed =
     construct_ScopeGuard (api_beside ref_api) example_replay (ref_platform No_Backend) 4 example_argv example_start"

lemma example_run:
  "create_kernel_dump example_build example_env ref_api Inr example_snapshot [7] [] [(''k'', ''v'')]
     (Scalar_Policy 4) ''l'' 1 1 ref_start = (fst example_dump, snd example_dump)"
  by (simp add: example_dump_def)

lemma example_conditions:
  "vr_ok (fst example_dump)" "expected_policy example_replay (Scalar_Policy 4) = Some (Replay_Scalar 4)"
  "\<not> rp_initialized (initial_replayer ref_machine)" "rp_next_guard (initial_replayer ref_machine) = 0"
  "grants_pages example_replay (ref_platform No_Backend) example_snapshot (rp_machine (initial_replayer ref_machine))"
  "replay_arguments 4 example_argv = (True, Some (vr_filename (fst example_dump)), 1,
     [''replayer'', ''--kernel-replayer-dump'', ''krepe_l_1.h5'', ''--kernel-replayer-enable-input-reset''])"
  using example_dump_ok example_ready(2)
  by (simp_all add: initial_replayer_def example_argv_def replay_arguments_def find_cli_flag_def
    find_cli_option_def remove_cli_args_def swap_args_def upt_rec numeral_nat Let_def)

lemma example_replays:
  "\<exists>w2 s'. example_replayed = (Inr 0, (w2, s')) \<and> ref_view w2 = ref_view (snd example_dump) \<and>
     replays example_build example_env example_replay example_snapshot [7] [] [(''k'', ''v'')] (Replay_Scalar 4) True
       (initial_replayer ref_machine) s'"
  using hdf5_reader.created_dump_replays [OF ref_reader.hdf5_reader_axioms example_run example_conditions(1) example_ready(1)
      example_conditions(2,3,5,6)]
  by (simp add: example_replayed_def example_start_def example_conditions(4))

lemma example_initialized:
  "\<exists>ws1 ws2. initialize (api_beside ref_api) example_replay (ref_platform No_Backend) 4 example_argv example_start =
     (Inr (), ws1) \<and> finalize (ref_platform No_Backend) ws1 = (Inr (), ws2)"
proof -
  obtain w2 s' where run: "example_replayed = (Inr 0, (w2, s'))"
    and rp: "replays example_build example_env example_replay example_snapshot [7] [] [(''k'', ''v'')] (Replay_Scalar 4) True
       (initial_replayer ref_machine) s'"
    using example_replays by blast
  obtain sg where sg: "rp_guards s' 0 = Some sg" "describes example_build example_env True example_snapshot sg"
    and init: "rp_initialized s'" using rp by (auto simp: replays_def example_conditions(4))
  let ?ws1 = "(w2, s'\<lparr>rp_internal_guard := Some 0\<rparr>)" and ?ws = "(w2, s'\<lparr>rp_internal_guard := None\<rparr>)"
  have "initialize (api_beside ref_api) example_replay (ref_platform No_Backend) 4 example_argv example_start =
      (Inr (), ?ws1)"
    using run example_conditions(3)
    by (simp add: initialize_def and_then_def reading_def update_def example_replayed_def example_start_def)
  moreover have "\<exists>ws2. destroy_ScopeGuard (ref_platform No_Backend) 0 ?ws = (Inr (), ws2)"
    by (rule ref_destroy_guard [where sg = sg])
      (use sg in \<open>auto simp: describes_def list_all_iff stored_input_def\<close>)
  then have "\<exists>ws2. finalize (ref_platform No_Backend) ?ws1 = (Inr (), ws2)"
    using init by (simp add: finalize_def and_then_def reading_def update_def)
  ultimately show ?thesis by blast
qed

lemma example_reachable: "replay_reachable ref_api example_replay (ref_platform No_Backend) example_start"
  unfolding example_start_def by (rule reachable_start)

end
