(* ===== verification/Extractor.thy ===== *)
theory Extractor
  imports Extended_Lambda Kokkos_Hooks
begin

text \<open>
  The extractor that is linked into the application (\<open>src/krepe/extract/kernel_extractor.cpp\<close>
  and \<open>.hpp\<close>): it looks the tool's entry points up with \<open>dlsym\<close>, once, and forwards every
  call to them, or to functions that do nothing when the tool is not loaded.

  \<open>'h\<close> is the state of the process the tool's functions act on; for the capture tool of this
  repository it is \<open>hooks\<close>.
\<close>

section \<open>The entry points of a tool\<close>

text \<open>
  What \<open>dlsym\<close> may return: a pointer to a function of one of these types.  \<open>char*\<close> are
  strings, a pointer and a size are the bytes they delimit.
\<close>

datatype 'h tool_symbol =
  Add_Metadata_Symbol "string \<Rightarrow> string \<Rightarrow> 'h \<Rightarrow> 'h"
| Copy_Functor_Symbol "byte list \<Rightarrow> 'h \<Rightarrow> 'h"
| Copy_Nvcc_Lambda_Symbol "byte list \<Rightarrow> byte list \<Rightarrow> 'h \<Rightarrow> 'h"
| Scalar_Policy_Symbol "u64 \<Rightarrow> 'h \<Rightarrow> 'h"
| Range_Policy_Symbol "string \<Rightarrow> string \<Rightarrow> u64 \<Rightarrow> bool \<Rightarrow> u64 \<Rightarrow> u64 \<Rightarrow> i32 \<Rightarrow> 'h \<Rightarrow> 'h"
| Mdrange_Policy_Symbol "string \<Rightarrow> string \<Rightarrow> u64 \<Rightarrow> string \<Rightarrow> string \<Rightarrow> u64 \<Rightarrow> bool \<Rightarrow>
    64 word list \<Rightarrow> 64 word list \<Rightarrow> 64 word list \<Rightarrow> 'h \<Rightarrow> 'h"
| Team_Policy_Symbol "string \<Rightarrow> string \<Rightarrow> u64 \<Rightarrow> bool \<Rightarrow> i32 \<Rightarrow> i32 \<Rightarrow> i32 \<Rightarrow> i32 \<Rightarrow> i32 \<Rightarrow>
    i32 \<Rightarrow> i32 \<Rightarrow> i32 \<Rightarrow> 'h \<Rightarrow> 'h"
| Will_Dump_Symbol "string \<Rightarrow> 'h \<Rightarrow> bool \<times> 'h"
| Clear_Views_Symbol "'h \<Rightarrow> 'h"
| Register_View_Symbol "addr \<Rightarrow> string \<Rightarrow> 'h \<Rightarrow> 'h"

text \<open>\<open>dlsym(RTLD_DEFAULT, name)\<close>: \<open>None\<close> when \<open>dlerror\<close> reports an error after it.\<close>

type_synonym 'h loader = "string \<Rightarrow> 'h tool_symbol option"

text \<open>The function pointers; \<open>None\<close> is the null pointer.\<close>

record 'h extractor =
  add_metadata_function :: "(string \<Rightarrow> string \<Rightarrow> 'h \<Rightarrow> 'h) option"
  copy_functor_function :: "(byte list \<Rightarrow> 'h \<Rightarrow> 'h) option"
  copy_nvcc_lambda_function :: "(byte list \<Rightarrow> byte list \<Rightarrow> 'h \<Rightarrow> 'h) option"
  register_scalar_policy_function :: "(u64 \<Rightarrow> 'h \<Rightarrow> 'h) option"
  register_range_policy_function ::
    "(string \<Rightarrow> string \<Rightarrow> u64 \<Rightarrow> bool \<Rightarrow> u64 \<Rightarrow> u64 \<Rightarrow> i32 \<Rightarrow> 'h \<Rightarrow> 'h) option"
  register_mdrange_policy_function :: "(string \<Rightarrow> string \<Rightarrow> u64 \<Rightarrow> string \<Rightarrow> string \<Rightarrow> u64 \<Rightarrow> bool \<Rightarrow>
    64 word list \<Rightarrow> 64 word list \<Rightarrow> 64 word list \<Rightarrow> 'h \<Rightarrow> 'h) option"
  register_team_policy_function :: "(string \<Rightarrow> string \<Rightarrow> u64 \<Rightarrow> bool \<Rightarrow> i32 \<Rightarrow> i32 \<Rightarrow> i32 \<Rightarrow> i32 \<Rightarrow>
    i32 \<Rightarrow> i32 \<Rightarrow> i32 \<Rightarrow> i32 \<Rightarrow> 'h \<Rightarrow> 'h) option"
  next_invocation_will_dump_function :: "(string \<Rightarrow> 'h \<Rightarrow> bool \<times> 'h) option"
  clear_registered_views_function :: "('h \<Rightarrow> 'h) option"
  register_view_function :: "(addr \<Rightarrow> string \<Rightarrow> 'h \<Rightarrow> 'h) option"
  has_kernel_dump_tool :: "bool option"

definition initial_extractor :: "'h extractor" where
  "initial_extractor =
     \<lparr>add_metadata_function = None, copy_functor_function = None, copy_nvcc_lambda_function = None,
      register_scalar_policy_function = None, register_range_policy_function = None,
      register_mdrange_policy_function = None, register_team_policy_function = None,
      next_invocation_will_dump_function = None, clear_registered_views_function = None,
      register_view_function = None, has_kernel_dump_tool = None\<rparr>"

section \<open>Loading\<close>

text \<open>
  \<open>ptr = reinterpret_cast<FuncPtr>(handle)\<close>, for each of the pointers: a pointer to a
  function of another type cannot be called, and is taken for a null pointer.
\<close>

definition store_add_metadata :: "'h tool_symbol \<Rightarrow> 'h extractor \<Rightarrow> 'h extractor" where
  "store_add_metadata handle e =
     e\<lparr>add_metadata_function := (case handle of Add_Metadata_Symbol f \<Rightarrow> Some f | _ \<Rightarrow> None)\<rparr>"

definition store_copy_functor :: "'h tool_symbol \<Rightarrow> 'h extractor \<Rightarrow> 'h extractor" where
  "store_copy_functor handle e =
     e\<lparr>copy_functor_function := (case handle of Copy_Functor_Symbol f \<Rightarrow> Some f | _ \<Rightarrow> None)\<rparr>"

definition store_copy_nvcc_lambda :: "'h tool_symbol \<Rightarrow> 'h extractor \<Rightarrow> 'h extractor" where
  "store_copy_nvcc_lambda handle e =
     e\<lparr>copy_nvcc_lambda_function := (case handle of Copy_Nvcc_Lambda_Symbol f \<Rightarrow> Some f | _ \<Rightarrow> None)\<rparr>"

definition store_scalar_policy :: "'h tool_symbol \<Rightarrow> 'h extractor \<Rightarrow> 'h extractor" where
  "store_scalar_policy handle e =
     e\<lparr>register_scalar_policy_function := (case handle of Scalar_Policy_Symbol f \<Rightarrow> Some f | _ \<Rightarrow> None)\<rparr>"

definition store_range_policy :: "'h tool_symbol \<Rightarrow> 'h extractor \<Rightarrow> 'h extractor" where
  "store_range_policy handle e =
     e\<lparr>register_range_policy_function := (case handle of Range_Policy_Symbol f \<Rightarrow> Some f | _ \<Rightarrow> None)\<rparr>"

definition store_mdrange_policy :: "'h tool_symbol \<Rightarrow> 'h extractor \<Rightarrow> 'h extractor" where
  "store_mdrange_policy handle e =
     e\<lparr>register_mdrange_policy_function := (case handle of Mdrange_Policy_Symbol f \<Rightarrow> Some f | _ \<Rightarrow> None)\<rparr>"

definition store_team_policy :: "'h tool_symbol \<Rightarrow> 'h extractor \<Rightarrow> 'h extractor" where
  "store_team_policy handle e =
     e\<lparr>register_team_policy_function := (case handle of Team_Policy_Symbol f \<Rightarrow> Some f | _ \<Rightarrow> None)\<rparr>"

definition store_will_dump :: "'h tool_symbol \<Rightarrow> 'h extractor \<Rightarrow> 'h extractor" where
  "store_will_dump handle e =
     e\<lparr>next_invocation_will_dump_function := (case handle of Will_Dump_Symbol f \<Rightarrow> Some f | _ \<Rightarrow> None)\<rparr>"

definition store_clear_views :: "'h tool_symbol \<Rightarrow> 'h extractor \<Rightarrow> 'h extractor" where
  "store_clear_views handle e =
     e\<lparr>clear_registered_views_function := (case handle of Clear_Views_Symbol f \<Rightarrow> Some f | _ \<Rightarrow> None)\<rparr>"

definition store_register_view :: "'h tool_symbol \<Rightarrow> 'h extractor \<Rightarrow> 'h extractor" where
  "store_register_view handle e =
     e\<lparr>register_view_function := (case handle of Register_View_Symbol f \<Rightarrow> Some f | _ \<Rightarrow> None)\<rparr>"

definition load_function_from_tool ::
  "'h loader \<Rightarrow> string \<Rightarrow> ('h tool_symbol \<Rightarrow> 'h extractor \<Rightarrow> 'h extractor) \<Rightarrow> 'h extractor \<Rightarrow>
   bool \<times> 'h extractor" where
  "load_function_from_tool dl name store e =
     (case dl name of None \<Rightarrow> (False, e) | Some handle \<Rightarrow> (True, store handle e))"

text \<open>The chain of \<open>&&\<close> stops at the first function that is missing.\<close>

fun load_each ::
  "'h loader \<Rightarrow> (string \<times> ('h tool_symbol \<Rightarrow> 'h extractor \<Rightarrow> 'h extractor)) list \<Rightarrow> 'h extractor \<Rightarrow>
   bool \<times> 'h extractor" where
  "load_each dl [] e = (True, e)"
| "load_each dl ((name, store) # fs) e =
     (let (loaded, e') = load_function_from_tool dl name store e in
      if loaded then load_each dl fs e' else (False, e'))"

definition init_internal_functions_from_tool ::
  "bool \<Rightarrow> 'h loader \<Rightarrow> 'h extractor \<Rightarrow> bool \<times> 'h extractor" where
  "init_internal_functions_from_tool libdl dl e =
     (if \<not> libdl then (False, e)
      else load_each dl
        [(''krepe_kernel_dump_add_metadata'', store_add_metadata),
         (''krepe_kernel_dump_copy_functor'', store_copy_functor),
         (''krepe_kernel_dump_copy_nvcc_lambda'', store_copy_nvcc_lambda),
         (''krepe_kernel_dump_register_scalar_policy'', store_scalar_policy),
         (''krepe_kernel_dump_register_range_policy'', store_range_policy),
         (''krepe_kernel_dump_register_mdrange_policy'', store_mdrange_policy),
         (''krepe_kernel_dump_register_team_policy'', store_team_policy),
         (''krepe_kernel_dump_next_invocation_will_dump'', store_will_dump),
         (''krepe_kernel_dump_clear_registered_views'', store_clear_views),
         (''krepe_kernel_dump_register_view'', store_register_view)] e)"

text \<open>The functions that replace those of a tool that is not there.\<close>

definition without_tool :: "'h extractor \<Rightarrow> 'h extractor" where
  "without_tool e =
     e\<lparr>add_metadata_function := Some (\<lambda>key value h. h),
       copy_functor_function := Some (\<lambda>data h. h),
       copy_nvcc_lambda_function := Some (\<lambda>data inner h. h),
       register_scalar_policy_function := Some (\<lambda>n h. h),
       register_range_policy_function := Some (\<lambda>space schedule sz sg lower upper chunk h. h),
       register_mdrange_policy_function :=
         Some (\<lambda>space schedule rank outer inner sz sg lower upper tile h. h),
       register_team_policy_function :=
         Some (\<lambda>space schedule sz sg team league vector t0 t1 h0 h1 chunk h. h),
       next_invocation_will_dump_function := Some (\<lambda>kernel_name h. (False, h)),
       clear_registered_views_function := Some (\<lambda>h. h),
       register_view_function := Some (\<lambda>data space h. h),
       has_kernel_dump_tool := Some False\<rparr>"

definition init_internal_functions :: "bool \<Rightarrow> 'h loader \<Rightarrow> 'h extractor \<Rightarrow> 'h extractor" where
  "init_internal_functions libdl dl e =
     (if has_kernel_dump_tool e = None
      then let (loaded, e') = init_internal_functions_from_tool libdl dl e in
           if loaded then e'\<lparr>has_kernel_dump_tool := Some True\<rparr> else without_tool e'
      else e)"

section \<open>The calls\<close>

text \<open>
  How the process is linked at the time of a call.  The state is the process and the
  extractor's globals; a call through a null pointer ends the process.
\<close>

record 'h linkage =
  lk_libdl :: bool
  lk_dlsym :: "'h loader"

type_synonym ('h, 'a) extractor_prog = "('h \<times> 'h extractor, 'a) prog"

definition initialized :: "'h linkage \<Rightarrow> ('h, unit) extractor_prog" where
  "initialized lk he = (Inr (), (fst he, init_internal_functions (lk_libdl lk) (lk_dlsym lk) (snd he)))"

definition through :: "('h extractor \<Rightarrow> 'f option) \<Rightarrow> ('f \<Rightarrow> 'h \<Rightarrow> 'a \<times> 'h) \<Rightarrow> ('h, 'a) extractor_prog" where
  "through pointer act he =
     (case pointer (snd he) of
        None \<Rightarrow> (Inl Abort, he)
      | Some f \<Rightarrow> let (x, h) = act f (fst he) in (Inr x, (h, snd he)))"

definition copy_functor :: "'h linkage \<Rightarrow> byte list \<Rightarrow> ('h, unit) extractor_prog" where
  "copy_functor lk data = and_then (initialized lk) (\<lambda>_.
     through copy_functor_function (\<lambda>f h. ((), f data h)))"

definition copy_nvcc_lambda :: "'h linkage \<Rightarrow> byte list \<Rightarrow> byte list \<Rightarrow> ('h, unit) extractor_prog" where
  "copy_nvcc_lambda lk data inner = and_then (initialized lk) (\<lambda>_.
     through copy_nvcc_lambda_function (\<lambda>f h. ((), f data inner h)))"

definition register_scalar_policy :: "'h linkage \<Rightarrow> u64 \<Rightarrow> ('h, unit) extractor_prog" where
  "register_scalar_policy lk n = and_then (initialized lk) (\<lambda>_.
     through register_scalar_policy_function (\<lambda>f h. ((), f n h)))"

definition register_range_policy ::
  "'h linkage \<Rightarrow> string \<Rightarrow> string \<Rightarrow> u64 \<Rightarrow> bool \<Rightarrow> u64 \<Rightarrow> u64 \<Rightarrow> i32 \<Rightarrow> ('h, unit) extractor_prog" where
  "register_range_policy lk space schedule index_type_size index_type_signed lower upper chunk_size =
     and_then (initialized lk) (\<lambda>_.
     through register_range_policy_function (\<lambda>f h.
       ((), f space schedule index_type_size index_type_signed lower upper chunk_size h)))"

definition register_mdrange_policy ::
  "'h linkage \<Rightarrow> string \<Rightarrow> string \<Rightarrow> u64 \<Rightarrow> string \<Rightarrow> string \<Rightarrow> u64 \<Rightarrow> bool \<Rightarrow> 64 word list \<Rightarrow>
   64 word list \<Rightarrow> 64 word list \<Rightarrow> ('h, unit) extractor_prog" where
  "register_mdrange_policy lk space schedule rank outer_dir inner_dir index_type_size
     index_type_signed lower upper tile =
     and_then (initialized lk) (\<lambda>_.
     through register_mdrange_policy_function (\<lambda>f h.
       ((), f space schedule rank outer_dir inner_dir index_type_size index_type_signed lower upper tile h)))"

record scratch_description =
  scratch_level0 :: i32
  scratch_level1 :: i32

definition register_team_policy ::
  "'h linkage \<Rightarrow> string \<Rightarrow> string \<Rightarrow> u64 \<Rightarrow> bool \<Rightarrow> i32 \<Rightarrow> i32 \<Rightarrow> i32 \<Rightarrow> scratch_description \<Rightarrow>
   scratch_description \<Rightarrow> i32 \<Rightarrow> ('h, unit) extractor_prog" where
  "register_team_policy lk space schedule index_type_size index_type_signed team_size league_size
     vector_length team_scratch thread_scratch chunk_size =
     and_then (initialized lk) (\<lambda>_.
     through register_team_policy_function (\<lambda>f h.
       ((), f space schedule index_type_size index_type_signed team_size league_size vector_length
              (scratch_level0 team_scratch) (scratch_level1 team_scratch)
              (scratch_level0 thread_scratch) (scratch_level1 thread_scratch) chunk_size h)))"

definition next_invocation_will_dump :: "'h linkage \<Rightarrow> string \<Rightarrow> ('h, bool) extractor_prog" where
  "next_invocation_will_dump lk kernel_name =
     and_then (initialized lk) (\<lambda>_. through next_invocation_will_dump_function (\<lambda>f. f kernel_name))"

definition clear_registered_views :: "'h linkage \<Rightarrow> ('h, unit) extractor_prog" where
  "clear_registered_views lk = and_then (initialized lk) (\<lambda>_.
     through clear_registered_views_function (\<lambda>f h. ((), f h)))"

definition register_view :: "'h linkage \<Rightarrow> addr \<Rightarrow> string \<Rightarrow> ('h, unit) extractor_prog" where
  "register_view lk data space = and_then (initialized lk) (\<lambda>_.
     through register_view_function (\<lambda>f h. ((), f data space h)))"

text \<open>\<open>c_str()\<close>, read up to the null character by the callee.\<close>

definition c_string :: "string \<Rightarrow> string" where
  "c_string s = takeWhile (\<lambda>c. c \<noteq> CHR 0x00) s"

definition add_metadata :: "'h linkage \<Rightarrow> string \<Rightarrow> string \<Rightarrow> ('h, unit) extractor_prog" where
  "add_metadata lk key value = and_then (initialized lk) (\<lambda>_.
     through add_metadata_function (\<lambda>f h. ((), f (c_string key) value h)))"

section \<open>Copying a functor\<close>

text \<open>
  A functor is an object of a type at an address of the process memory \<open>mem\<close>.  With NVCC's
  extended lambdas the host closures follow, in the order of the traversal.
\<close>

definition copy_host_closure :: "memory \<Rightarrow> hdl_visit \<Rightarrow> (byte list, unit) prog" where
  "copy_host_closure mem v closure_data =
     (Inr (), closure_data @ read_bytes mem (hv_buffer v) (hv_size v))"

definition copy_nvcc_functor ::
  "'h linkage \<Rightarrow> memory \<Rightarrow> captured_type \<Rightarrow> addr \<Rightarrow> ('h, unit) extractor_prog" where
  "copy_nvcc_functor lk mem t functor he =
     (case visit_hdl_host_lambdas mem (copy_host_closure mem) t functor [] of
        (Inl e, _) \<Rightarrow> (Inl e, he)
      | (Inr _, closure_data) \<Rightarrow>
          copy_nvcc_lambda lk (read_bytes mem functor (size_of t)) closure_data he)"

text \<open>
  \<open>replay_functor\<close> returns the functor; \<open>prologue\<close> is what a compiler plugin put before its
  statements.
\<close>

definition extract_functor ::
  "'h linkage \<Rightarrow> bool \<Rightarrow> ('h, unit) extractor_prog \<Rightarrow> memory \<Rightarrow> captured_type \<Rightarrow> addr \<Rightarrow>
   ('h, unit) extractor_prog" where
  "extract_functor lk nvcc_hdl_workaround prologue mem t functor =
     and_then prologue (\<lambda>_.
     if nvcc_hdl_workaround \<and> is_hdl t then copy_nvcc_functor lk mem t functor
     else copy_functor lk (read_bytes mem functor (size_of t)))"

text \<open>The bytes of the closures, as a dump stores them.\<close>

definition closure_bytes :: "memory \<Rightarrow> captured_type \<Rightarrow> addr \<Rightarrow> byte list" where
  "closure_bytes mem t f =
     concat (List.map (\<lambda>v. read_bytes mem (hv_buffer v) (hv_size v)) (hdl_visits mem t f))"

lemma copy_host_closures:
  "for_each (copy_host_closure mem) vs closure_data =
     (Inr (), closure_data @ concat (List.map (\<lambda>v. read_bytes mem (hv_buffer v) (hv_size v)) vs))"
  by (induction vs arbitrary: closure_data)
    (simp_all add: and_then_def done_with_def copy_host_closure_def)

lemma copy_nvcc_functor_bytes:
  assumes "is_hdl t"
  shows "copy_nvcc_functor lk mem t f =
    copy_nvcc_lambda lk (read_bytes mem f (size_of t)) (closure_bytes mem t f)"
  using assms by (simp add: fun_eq_iff copy_nvcc_functor_def visit_visits(1) copy_host_closures closure_bytes_def)

section \<open>Any sequence of calls\<close>

datatype extractor_call =
  E_Add_Metadata string string
| E_Copy_Functor "byte list"
| E_Copy_Nvcc_Lambda "byte list" "byte list"
| E_Scalar_Policy u64
| E_Range_Policy string string u64 bool u64 u64 i32
| E_Mdrange_Policy string string u64 string string u64 bool "64 word list" "64 word list" "64 word list"
| E_Team_Policy string string u64 bool i32 i32 i32 scratch_description scratch_description i32
| E_Will_Dump string
| E_Clear_Views
| E_Register_View addr string

text \<open>A call, and the answer of those that give one.\<close>

fun make_call :: "'h linkage \<Rightarrow> extractor_call \<Rightarrow> ('h, bool option) extractor_prog" where
  "make_call lk (E_Add_Metadata key value) = and_then (add_metadata lk key value) (\<lambda>_. done_with None)"
| "make_call lk (E_Copy_Functor data) = and_then (copy_functor lk data) (\<lambda>_. done_with None)"
| "make_call lk (E_Copy_Nvcc_Lambda data inner) =
     and_then (copy_nvcc_lambda lk data inner) (\<lambda>_. done_with None)"
| "make_call lk (E_Scalar_Policy n) = and_then (register_scalar_policy lk n) (\<lambda>_. done_with None)"
| "make_call lk (E_Range_Policy sp sch sz sg lo up ch) =
     and_then (register_range_policy lk sp sch sz sg lo up ch) (\<lambda>_. done_with None)"
| "make_call lk (E_Mdrange_Policy sp sch rk od idir sz sg lo up ti) =
     and_then (register_mdrange_policy lk sp sch rk od idir sz sg lo up ti) (\<lambda>_. done_with None)"
| "make_call lk (E_Team_Policy sp sch sz sg ts ls vl team thread ch) =
     and_then (register_team_policy lk sp sch sz sg ts ls vl team thread ch) (\<lambda>_. done_with None)"
| "make_call lk (E_Will_Dump label) =
     and_then (next_invocation_will_dump lk label) (\<lambda>b. done_with (Some b))"
| "make_call lk E_Clear_Views = and_then (clear_registered_views lk) (\<lambda>_. done_with None)"
| "make_call lk (E_Register_View data space) = and_then (register_view lk data space) (\<lambda>_. done_with None)"

text \<open>The linkage may change from call to call: a tool may be loaded late.\<close>

fun make_calls :: "('h linkage \<times> extractor_call) list \<Rightarrow> ('h, bool option list) extractor_prog" where
  "make_calls [] = done_with []"
| "make_calls ((lk, c) # cs) =
     and_then (make_call lk c) (\<lambda>x. and_then (make_calls cs) (\<lambda>xs. done_with (x # xs)))"

end
