(* ===== verification/View_Registration.thy ===== *)
theory View_Registration
  imports Extractor
begin

text \<open>
  The compiler plugins (\<open>src/krepe/compiler_plugins/gcc.cpp\<close> and \<open>clang.cpp\<close>): they put
  calls at the start of \<open>krepe::replay_functor\<close> that register the data pointers of all
  views the functor holds, which they find by walking over its type.

  Of the compilers' trees only what the plugins look at is described: the members of a
  class, its name and where it is declared, and the results of the look-ups.
\<close>

section \<open>Types and declarations\<close>

text \<open>A namespace without a name is anonymous.\<close>

datatype decl_context = Namespace "string option" | Class_Context

text \<open>
  A class: its name, the contexts it is declared in (the innermost first), and what the
  look-ups in it find: a method \<open>data\<close>, and a type \<open>memory_space\<close> with or without a function
  \<open>name\<close>, whose value is kept.
\<close>

record class_info =
  ci_name :: string
  ci_context :: "decl_context list"
  ci_has_data :: bool
  ci_memory_space :: "string option option"

datatype cxx_type =
  Class_Type class_info "cxx_member list"
| Reference_Type cxx_type
| Other_Type
and cxx_member =
  Field string cxx_type
| Base_Subobject string cxx_type
| Other_Member

text \<open>Expressions that denote a subobject of the functor; a base is named by its class.\<close>

datatype cxx_expr =
  Functor_Parameter | Component cxx_expr string | Base_Component cxx_expr string

text \<open>\<open>ViewInfo\<close>: the expression that \<open>data()\<close> is called on, and the name of the space.\<close>

record view_info =
  vi_expr :: cxx_expr
  vi_space :: string

section \<open>The plugin for GCC\<close>

definition innermost_namespace :: "decl_context list \<Rightarrow> string \<Rightarrow> bool" where
  "innermost_namespace cs name = (case cs of Namespace (Some n) # _ \<Rightarrow> n = name | _ \<Rightarrow> False)"

text \<open>What both plugins do with a view; a failed look-up ends the compilation.\<close>

definition push_view :: "view_info list \<Rightarrow> cxx_expr \<Rightarrow> class_info \<Rightarrow> exn + view_info list" where
  "push_view views root info =
     (if \<not> ci_has_data info then Inl Abort
      else case ci_memory_space info of
        Some (Some space) \<Rightarrow> Inr (views @ [\<lparr>vi_expr = root, vi_space = space\<rparr>])
      | _ \<Rightarrow> Inl Abort)"

definition visit_view :: "view_info list \<Rightarrow> cxx_expr \<Rightarrow> class_info \<Rightarrow> exn + bool \<times> view_info list" where
  "visit_view views root info =
     (if ci_name info \<noteq> ''View'' then Inr (False, views)
      else if \<not> innermost_namespace (ci_context info) ''Kokkos'' then Inr (False, views)
      else case push_view views root info of Inl e \<Rightarrow> Inl e | Inr views' \<Rightarrow> Inr (True, views'))"

text \<open>
  \<open>visit\<close>, \<open>visit_record\<close> and its loop over \<open>TYPE_FIELDS\<close>, where base subobjects are fields
  too.
\<close>

fun visit_record :: "view_info list \<Rightarrow> cxx_expr \<Rightarrow> cxx_type \<Rightarrow> exn + view_info list"
and visit_members :: "view_info list \<Rightarrow> cxx_expr \<Rightarrow> cxx_member list \<Rightarrow> exn + view_info list"
and visit_member :: "view_info list \<Rightarrow> cxx_expr \<Rightarrow> cxx_member \<Rightarrow> exn + view_info list"
where
  "visit_record views root (Class_Type info members) =
     (case visit_view views root info of
        Inl e \<Rightarrow> Inl e
      | Inr (found, views') \<Rightarrow> if found then Inr views' else visit_members views' root members)"
| "visit_record views root (Reference_Type t) = Inr views"
| "visit_record views root Other_Type = Inr views"
| "visit_members views root [] = Inr views"
| "visit_members views root (m # ms) =
     (case visit_member views root m of
        Inl e \<Rightarrow> Inl e
      | Inr views' \<Rightarrow> visit_members views' root ms)"
| "visit_member views root (Field name t) = visit_record views (Component root name) t"
| "visit_member views root (Base_Subobject name t) = visit_record views (Base_Component root name) t"
| "visit_member views root Other_Member = Inr views"

definition get_functor_views :: "cxx_type \<Rightarrow> exn + view_info list" where
  "get_functor_views functor_type = visit_record [] Functor_Parameter functor_type"

section \<open>Functions and their bodies\<close>

datatype cxx_stmt = Clear_Registered_Views | Register_View_Of cxx_expr string | Source_Stmt nat

text \<open>
  A function declaration: its name if it has one, its contexts, the types of its parameters
  and its body; whether the body is a statement list; and whether \<open>krepe::impl\<close>,
  \<open>clear_registered_views\<close> and \<open>register_view\<close> are found from it.
\<close>

record function_decl =
  fd_name :: "string option"
  fd_context :: "decl_context list"
  fd_params :: "cxx_type list"
  fd_body_is_list :: bool
  fd_body :: "cxx_stmt list"
  fd_finds_impl :: bool
  fd_finds_clear :: bool
  fd_finds_register :: bool

definition register_stmts :: "view_info list \<Rightarrow> cxx_stmt list" where
  "register_stmts views =
     Clear_Registered_Views # List.map (\<lambda>v. Register_View_Of (vi_expr v) (vi_space v)) views"

definition strip_reference :: "cxx_type \<Rightarrow> cxx_type" where
  "strip_reference t = (case t of Reference_Type u \<Rightarrow> u | _ \<Rightarrow> t)"

definition is_class :: "cxx_type \<Rightarrow> bool" where
  "is_class t = (case t of Class_Type _ _ \<Rightarrow> True | _ \<Rightarrow> False)"

text \<open>\<open>ast_callback\<close>; a tree that is not a function is \<open>None\<close>.\<close>

definition ast_callback :: "function_decl option \<Rightarrow> exn + function_decl option" where
  "ast_callback ast =
     (case ast of
        None \<Rightarrow> Inr None
      | Some f \<Rightarrow>
          if fd_name f \<noteq> Some ''replay_functor'' then Inr (Some f)
          else if \<not> innermost_namespace (fd_context f) ''krepe'' then Inr (Some f)
          else case fd_params f of
            [] \<Rightarrow> Inr (Some f)
          | param # _ \<Rightarrow>
              let functor_type = strip_reference param in
              if \<not> is_class functor_type then Inl Abort
              else case get_functor_views functor_type of
                Inl e \<Rightarrow> Inl e
              | Inr views \<Rightarrow>
                  if \<not> fd_body_is_list f then Inl Abort
                  else if \<not> fd_finds_impl f then Inl Abort
                  else if \<not> fd_finds_clear f then Inl Abort
                  else if \<not> fd_finds_register f then Inl Abort
                  else Inr (Some (f\<lparr>fd_body := register_stmts views @ fd_body f\<rparr>)))"

section \<open>The plugin for Clang\<close>

text \<open>\<open>getEnclosingNamespaceContext\<close> skips the classes around a declaration.\<close>

definition enclosing_namespace :: "decl_context list \<Rightarrow> string \<Rightarrow> bool" where
  "enclosing_namespace cs name =
     innermost_namespace (dropWhile (\<lambda>c. c = Class_Context) cs) name"

definition clang_visit_view ::
  "view_info list \<Rightarrow> cxx_expr \<Rightarrow> class_info \<Rightarrow> exn + bool \<times> view_info list" where
  "clang_visit_view views root view =
     (if ci_name view \<noteq> ''View'' then Inr (False, views)
      else if \<not> enclosing_namespace (ci_context view) ''Kokkos'' then Inr (False, views)
      else case push_view views root view of Inl e \<Rightarrow> Inl e | Inr views' \<Rightarrow> Inr (True, views'))"

text \<open>
  \<open>FunctorVisitor::visit\<close> on a field and on a class: \<open>fields()\<close> has no base subobjects, and
  the type of a field is stripped of a reference.
\<close>

fun clang_visit_type :: "view_info list \<Rightarrow> cxx_expr \<Rightarrow> cxx_type \<Rightarrow> exn + view_info list"
and clang_visit_fields :: "view_info list \<Rightarrow> cxx_expr \<Rightarrow> cxx_member list \<Rightarrow> exn + view_info list"
and clang_visit_field :: "view_info list \<Rightarrow> cxx_expr \<Rightarrow> cxx_member \<Rightarrow> exn + view_info list"
where
  "clang_visit_type views root (Class_Type info members) =
     (case clang_visit_view views root info of
        Inl e \<Rightarrow> Inl e
      | Inr (found, views') \<Rightarrow> if found then Inr views' else clang_visit_fields views' root members)"
| "clang_visit_type views root (Reference_Type (Class_Type info members)) =
     (case clang_visit_view views root info of
        Inl e \<Rightarrow> Inl e
      | Inr (found, views') \<Rightarrow> if found then Inr views' else clang_visit_fields views' root members)"
| "clang_visit_type views root (Reference_Type _) = Inr views"
| "clang_visit_type views root Other_Type = Inr views"
| "clang_visit_fields views root [] = Inr views"
| "clang_visit_fields views root (m # ms) =
     (case clang_visit_field views root m of
        Inl e \<Rightarrow> Inl e
      | Inr views' \<Rightarrow> clang_visit_fields views' root ms)"
| "clang_visit_field views root (Field name t) = clang_visit_type views (Component root name) t"
| "clang_visit_field views root (Base_Subobject name t) = Inr views"
| "clang_visit_field views root Other_Member = Inr views"

definition members_of :: "cxx_type \<Rightarrow> cxx_member list" where
  "members_of t = (case t of Class_Type info members \<Rightarrow> members | _ \<Rightarrow> [])"

definition patch_replay_functor :: "function_decl \<Rightarrow> exn + function_decl" where
  "patch_replay_functor f =
     (case fd_params f of
        [param] \<Rightarrow>
          let functor_struct = strip_reference param in
          if \<not> is_class functor_struct then Inl Abort
          else (case clang_visit_fields [] Functor_Parameter (members_of functor_struct) of
              Inl e \<Rightarrow> Inl e
            | Inr views \<Rightarrow>
                if \<not> fd_finds_impl f then Inl Abort
                else if \<not> fd_finds_clear f then Inl Abort
                else if \<not> fd_finds_register f then Inl Abort
                else Inr (f\<lparr>fd_body := register_stmts views @ fd_body f\<rparr>))
      | _ \<Rightarrow> Inl Abort)"

text \<open>\<open>HandleTopLevelDecl\<close> on a group of declarations; \<open>None\<close> is not a function.\<close>

fun HandleTopLevelDecl :: "function_decl option list \<Rightarrow> exn + function_decl option list" where
  "HandleTopLevelDecl [] = Inr []"
| "HandleTopLevelDecl (decl # decls) =
     (let patched =
        (case decl of
           None \<Rightarrow> Inr decl
         | Some f \<Rightarrow>
             if fd_name f \<noteq> Some ''replay_functor'' then Inr decl
             else if \<not> enclosing_namespace (fd_context f) ''krepe'' then Inr decl
             else (case patch_replay_functor f of Inl e \<Rightarrow> Inl e | Inr f' \<Rightarrow> Inr (Some f')))
      in case patched of
           Inl e \<Rightarrow> Inl e
         | Inr decl' \<Rightarrow>
             (case HandleTopLevelDecl decls of Inl e \<Rightarrow> Inl e | Inr decls' \<Rightarrow> Inr (decl' # decls')))"

section \<open>Running the inserted statements\<close>

text \<open>
  \<open>data_of\<close> is the value of \<open>data()\<close> on a subobject, \<open>source\<close> what the other statements do.
\<close>

fun run_stmt ::
  "'h linkage \<Rightarrow> (cxx_expr \<Rightarrow> addr) \<Rightarrow> (nat \<Rightarrow> ('h, unit) extractor_prog) \<Rightarrow> cxx_stmt \<Rightarrow>
   ('h, unit) extractor_prog" where
  "run_stmt lk data_of source Clear_Registered_Views = clear_registered_views lk"
| "run_stmt lk data_of source (Register_View_Of e space) = register_view lk (data_of e) space"
| "run_stmt lk data_of source (Source_Stmt n) = source n"

definition run_body ::
  "'h linkage \<Rightarrow> (cxx_expr \<Rightarrow> addr) \<Rightarrow> (nat \<Rightarrow> ('h, unit) extractor_prog) \<Rightarrow> cxx_stmt list \<Rightarrow>
   ('h, unit) extractor_prog" where
  "run_body lk data_of source body = for_each (run_stmt lk data_of source) body"

section \<open>The views of a functor\<close>

text \<open>
  The views a type holds, as a relation: a class that is a view is not looked into, any
  other class holds the views of its fields and bases.
\<close>

definition is_view :: "class_info \<Rightarrow> bool" where
  "is_view info \<longleftrightarrow> ci_name info = ''View'' \<and> innermost_namespace (ci_context info) ''Kokkos''"

definition complete_view :: "class_info \<Rightarrow> bool" where
  "complete_view info \<longleftrightarrow> ci_has_data info \<and> (\<exists>space. ci_memory_space info = Some (Some space))"

inductive view_in :: "cxx_type \<Rightarrow> cxx_expr \<Rightarrow> cxx_expr \<Rightarrow> class_info \<Rightarrow> bool" where
  itself: "is_view info \<Longrightarrow> view_in (Class_Type info ms) root root info"
| in_field: "\<not> is_view info \<Longrightarrow> Field name t \<in> set ms \<Longrightarrow> view_in t (Component root name) e v \<Longrightarrow>
    view_in (Class_Type info ms) root e v"
| in_base: "\<not> is_view info \<Longrightarrow> Base_Subobject name t \<in> set ms \<Longrightarrow>
    view_in t (Base_Component root name) e v \<Longrightarrow> view_in (Class_Type info ms) root e v"

inductive_simps view_in_class: "view_in (Class_Type info ms) root e v"
inductive_simps view_in_reference: "view_in (Reference_Type t) root e v"
inductive_simps view_in_other: "view_in Other_Type root e v"

text \<open>The same, in the order of the traversal.\<close>

fun views_of :: "cxx_expr \<Rightarrow> cxx_type \<Rightarrow> (cxx_expr \<times> class_info) list"
and views_of_members :: "cxx_expr \<Rightarrow> cxx_member list \<Rightarrow> (cxx_expr \<times> class_info) list"
and views_of_member :: "cxx_expr \<Rightarrow> cxx_member \<Rightarrow> (cxx_expr \<times> class_info) list"
where
  "views_of root (Class_Type info ms) = (if is_view info then [(root, info)] else views_of_members root ms)"
| "views_of root (Reference_Type t) = []"
| "views_of root Other_Type = []"
| "views_of_members root [] = []"
| "views_of_members root (m # ms) = views_of_member root m @ views_of_members root ms"
| "views_of_member root (Field name t) = views_of (Component root name) t"
| "views_of_member root (Base_Subobject name t) = views_of (Base_Component root name) t"
| "views_of_member root Other_Member = []"

lemma views_of_view_in:
  "(e, v) \<in> set (views_of root t) \<longleftrightarrow> view_in t root e v"
  "(e, v) \<in> set (views_of_members root ms) \<longleftrightarrow>
     (\<exists>name t. Field name t \<in> set ms \<and> view_in t (Component root name) e v) \<or>
     (\<exists>name t. Base_Subobject name t \<in> set ms \<and> view_in t (Base_Component root name) e v)"
  "(e, v) \<in> set (views_of_member root m) \<longleftrightarrow>
     (\<exists>name t. m = Field name t \<and> view_in t (Component root name) e v) \<or>
     (\<exists>name t. m = Base_Subobject name t \<and> view_in t (Base_Component root name) e v)"
proof (induction root t and root ms and root m rule: views_of_views_of_members_views_of_member.induct)
  case (5 root m ms)
  then show ?case by auto
qed (auto simp: view_in_class view_in_reference view_in_other)

definition registration :: "cxx_expr \<times> class_info \<Rightarrow> view_info" where
  "registration ev = \<lparr>vi_expr = fst ev, vi_space = the (the (ci_memory_space (snd ev)))\<rparr>"

definition collected ::
  "view_info list \<Rightarrow> (cxx_expr \<times> class_info) list \<Rightarrow> exn + view_info list" where
  "collected views vs =
     (if \<forall>(e, v) \<in> set vs. complete_view v then Inr (views @ List.map registration vs) else Inl Abort)"

lemma collected_Nil [simp]: "collected views [] = Inr views"
  by (simp add: collected_def)

lemma collected_append:
  "collected views (vs @ us) =
     (case collected views vs of Inl e \<Rightarrow> Inl e | Inr views' \<Rightarrow> collected views' us)"
  by (auto simp: collected_def)

lemma push_view_collected: "push_view views root info = collected views [(root, info)]"
  by (auto simp: push_view_def collected_def complete_view_def registration_def split: option.splits)

lemma visit_view_collected:
  "visit_view views root info =
     (if is_view info then case collected views [(root, info)] of Inl e \<Rightarrow> Inl e | Inr vs \<Rightarrow> Inr (True, vs)
      else Inr (False, views))"
  by (simp add: visit_view_def is_view_def push_view_collected)

lemma visit_collects:
  "visit_record views root t = collected views (views_of root t)"
  "visit_members views root ms = collected views (views_of_members root ms)"
  "visit_member views root m = collected views (views_of_member root m)"
  by (induction views root t and views root ms and views root m rule: visit_record_visit_members_visit_member.induct)
    (simp_all add: visit_view_collected collected_append split: sum.split)

section \<open>Every view is registered once\<close>

text \<open>In C++ the fields of a class have different names, and so have its direct bases.\<close>

fun member_expr :: "cxx_expr \<Rightarrow> cxx_member \<Rightarrow> cxx_expr list" where
  "member_expr root (Field name t) = [Component root name]"
| "member_expr root (Base_Subobject name t) = [Base_Component root name]"
| "member_expr root Other_Member = []"

definition distinct_exprs :: "cxx_member list \<Rightarrow> bool" where
  "distinct_exprs ms \<longleftrightarrow> distinct (concat (List.map (member_expr Functor_Parameter) ms))"

fun distinct_names :: "cxx_type \<Rightarrow> bool"
and distinct_names_members :: "cxx_member list \<Rightarrow> bool"
and distinct_names_member :: "cxx_member \<Rightarrow> bool"
where
  "distinct_names (Class_Type info ms) \<longleftrightarrow> distinct_exprs ms \<and> distinct_names_members ms"
| "distinct_names (Reference_Type t) = True"
| "distinct_names Other_Type = True"
| "distinct_names_members [] = True"
| "distinct_names_members (m # ms) \<longleftrightarrow> distinct_names_member m \<and> distinct_names_members ms"
| "distinct_names_member (Field name t) = distinct_names t"
| "distinct_names_member (Base_Subobject name t) = distinct_names t"
| "distinct_names_member Other_Member = True"

text \<open>\<open>inside x e\<close>: \<open>e\<close> denotes the object \<open>x\<close> or a part of it.\<close>

fun inside :: "cxx_expr \<Rightarrow> cxx_expr \<Rightarrow> bool" where
  "inside x Functor_Parameter \<longleftrightarrow> x = Functor_Parameter"
| "inside x (Component e name) \<longleftrightarrow> x = Component e name \<or> inside x e"
| "inside x (Base_Component e name) \<longleftrightarrow> x = Base_Component e name \<or> inside x e"

fun depth :: "cxx_expr \<Rightarrow> nat" where
  "depth Functor_Parameter = 0"
| "depth (Component e name) = Suc (depth e)"
| "depth (Base_Component e name) = Suc (depth e)"

lemma inside_depth: "inside x e \<Longrightarrow> depth x \<le> depth e"
  by (induction e) auto

lemma inside_self [simp]: "inside x x"
  by (cases x) simp_all

lemma inside_same_depth: "inside x e \<Longrightarrow> inside y e \<Longrightarrow> depth x = depth y \<Longrightarrow> x = y"
  by (induction e) (auto dest: inside_depth)

lemma inside_component: "inside (Component x name) e \<Longrightarrow> inside x e"
  "inside (Base_Component x name) e \<Longrightarrow> inside x e"
  by (induction e) auto

lemma member_expr_same:
  "x \<in> set (member_expr root m) \<Longrightarrow> x \<in> set (member_expr root m') \<Longrightarrow>
     member_expr root' m = member_expr root' m' \<and> member_expr root' m \<noteq> []"
  by (cases m; cases m') auto

lemma distinct_exprs_Cons:
  assumes "distinct_exprs (m # ms)"
  shows "distinct_exprs ms"
    and "x \<in> set (member_expr root m) \<Longrightarrow> \<forall>m' \<in> set ms. x \<notin> set (member_expr root m')"
proof -
  show "distinct_exprs ms" using assms by (simp add: distinct_exprs_def)
  show "\<forall>m' \<in> set ms. x \<notin> set (member_expr root m')" if x: "x \<in> set (member_expr root m)"
  proof (intro ballI notI)
    fix m' assume m': "m' \<in> set ms" "x \<in> set (member_expr root m')"
    have "set (member_expr Functor_Parameter m) \<inter> set (member_expr Functor_Parameter m') = {}"
      using assms m'(1) by (auto simp: distinct_exprs_def)
    with member_expr_same [OF x m'(2), of Functor_Parameter] show False by simp
  qed
qed

lemma views_inside:
  "(e, v) \<in> set (views_of root t) \<Longrightarrow> inside root e"
  "(e, v) \<in> set (views_of_members root ms) \<Longrightarrow> \<exists>m \<in> set ms. \<exists>x \<in> set (member_expr root m). inside x e"
  "(e, v) \<in> set (views_of_member root m) \<Longrightarrow> \<exists>x \<in> set (member_expr root m). inside x e"
proof (induction root t and root ms and root m rule: views_of_views_of_members_views_of_member.induct)
  case (1 root info ms)
  show ?case
  proof (cases "is_view info")
    case False
    with 1 obtain m x where "x \<in> set (member_expr root m)" "inside x e" by auto
    then show ?thesis by (cases m) (auto dest: inside_component)
  qed (use 1 in simp)
qed auto

lemma views_distinct:
  "distinct_names t \<Longrightarrow> distinct (List.map fst (views_of root t))"
  "distinct_exprs ms \<Longrightarrow> distinct_names_members ms \<Longrightarrow> distinct (List.map fst (views_of_members root ms))"
  "distinct_names_member m \<Longrightarrow> distinct (List.map fst (views_of_member root m))"
proof (induction root t and root ms and root m rule: views_of_views_of_members_views_of_member.induct)
  case (5 root m ms)
  have "fst ` set (views_of_member root m) \<inter> fst ` set (views_of_members root ms) = {}"
  proof (rule ccontr)
    assume "fst ` set (views_of_member root m) \<inter> fst ` set (views_of_members root ms) \<noteq> {}"
    then obtain e v u where "(e, v) \<in> set (views_of_member root m)" "(e, u) \<in> set (views_of_members root ms)"
      by auto
    then obtain x m' y where x: "x \<in> set (member_expr root m)" "inside x e"
      and y: "m' \<in> set ms" "y \<in> set (member_expr root m')" "inside y e"
      using views_inside(2,3) by metis
    have "depth x = depth y" using x(1) y(2) by (cases m; cases m') auto
    with x y have "x = y" using inside_same_depth by blast
    with x y distinct_exprs_Cons(2) [OF 5(3)] show False by blast
  qed
  with 5 distinct_exprs_Cons(1) [OF 5(3)] show ?case by simp
qed auto

text \<open>
  Property C14.  The GCC plugin's walk over a functor's type, \<open>get_functor_views\<close>, finds
  exactly the views the functor holds in fields, fields of fields and base classes, each
  with the name of its memory space and, as the names of members differ, each once; it
  stops the compilation only if one of them has no \<open>data\<close> or no named \<open>memory_space\<close>.
\<close>

theorem get_functor_views_correct:
  "case get_functor_views t of
     Inl e \<Rightarrow> e = Abort \<and> (\<exists>x v. view_in t Functor_Parameter x v \<and> \<not> complete_view v)
   | Inr views \<Rightarrow>
       {(vi_expr v, vi_space v) | v. v \<in> set views} =
         {(x, space). \<exists>v. view_in t Functor_Parameter x v \<and> ci_memory_space v = Some (Some space)} \<and>
       (distinct_names t \<longrightarrow> distinct (List.map vi_expr views))"
proof -
  let ?vs = "views_of Functor_Parameter t"
  have get: "get_functor_views t = collected [] ?vs" by (simp add: get_functor_views_def visit_collects)
  note members = views_of_view_in(1) [of _ _ Functor_Parameter t]
  show ?thesis
  proof (cases "\<forall>(x, v) \<in> set ?vs. complete_view v")
    case True
    have "{(vi_expr v, vi_space v) | v. v \<in> set (List.map registration ?vs)} =
        {(x, space). \<exists>v. (x, v) \<in> set ?vs \<and> ci_memory_space v = Some (Some space)}"
    proof (intro set_eqI iffI)
      fix p assume "p \<in> {(vi_expr v, vi_space v) | v. v \<in> set (List.map registration ?vs)}"
      then obtain x v where "(x, v) \<in> set ?vs" "p = (x, the (the (ci_memory_space v)))"
        by (auto simp: registration_def)
      moreover from this True have "complete_view v" by blast
      ultimately show "p \<in> {(x, space). \<exists>v. (x, v) \<in> set ?vs \<and> ci_memory_space v = Some (Some space)}"
        by (auto simp: complete_view_def)
    next
      fix p assume "p \<in> {(x, space). \<exists>v. (x, v) \<in> set ?vs \<and> ci_memory_space v = Some (Some space)}"
      then obtain x v space where "(x, v) \<in> set ?vs" "ci_memory_space v = Some (Some space)" "p = (x, space)"
        by auto
      then show "p \<in> {(vi_expr v, vi_space v) | v. v \<in> set (List.map registration ?vs)}"
        by (auto simp: registration_def intro!: exI [of _ "registration (x, v)"] image_eqI [of _ _ "(x, v)"])
    qed
    moreover have "vi_expr \<circ> registration = fst" by (simp add: fun_eq_iff registration_def)
    ultimately show ?thesis
      using True views_distinct(1) [of t Functor_Parameter] by (simp add: get collected_def members)
  next
    case False
    then show ?thesis by (auto simp: get collected_def members) blast
  qed
qed

text \<open>A functor with a view, a base with a view in another space, and a field without views.\<close>

definition example_view :: "string \<Rightarrow> cxx_type" where
  "example_view space = Class_Type \<lparr>ci_name = ''View'', ci_context = [Namespace (Some ''Kokkos'')],
     ci_has_data = True, ci_memory_space = Some (Some space)\<rparr> [Field ''m_map'' Other_Type]"

definition example_class :: "string \<Rightarrow> cxx_member list \<Rightarrow> cxx_type" where
  "example_class name ms = Class_Type \<lparr>ci_name = name, ci_context = [], ci_has_data = False,
     ci_memory_space = None\<rparr> ms"

definition example_functor :: cxx_type where
  "example_functor = example_class ''Functor''
     [Base_Subobject ''Base'' (example_class ''Base'' [Field ''a'' (example_view ''Cuda'')]),
      Field ''n'' Other_Type, Field ''b'' (example_view ''Host'')]"

theorem get_functor_views_correct_witness:
  "\<exists>views. get_functor_views example_functor = Inr views \<and> distinct (List.map vi_expr views) \<and>
     List.map vi_space views = [''Cuda'', ''Host'']"
proof -
  have "distinct_names example_functor"
    by (simp add: example_functor_def example_class_def example_view_def distinct_exprs_def)
  moreover have "\<exists>views. get_functor_views example_functor = Inr views \<and> List.map vi_space views = [''Cuda'', ''Host'']"
    by (simp add: get_functor_views_def example_functor_def example_class_def example_view_def
      visit_view_def innermost_namespace_def push_view_def)
  ultimately show ?thesis using get_functor_views_correct [of example_functor] by auto
qed

section \<open>The two plugins\<close>

text \<open>
  Types on which the plugins agree: no base classes, no references to classes, and the
  classes called \<open>View\<close> are not nested in other classes.
\<close>

fun plain :: "cxx_type \<Rightarrow> bool"
and plain_members :: "cxx_member list \<Rightarrow> bool"
and plain_member :: "cxx_member \<Rightarrow> bool"
where
  "plain (Class_Type info ms) \<longleftrightarrow>
     (enclosing_namespace (ci_context info) ''Kokkos'' \<longrightarrow> innermost_namespace (ci_context info) ''Kokkos'') \<and>
     plain_members ms"
| "plain (Reference_Type t) = (\<not> is_class t)"
| "plain Other_Type = True"
| "plain_members [] = True"
| "plain_members (m # ms) \<longleftrightarrow> plain_member m \<and> plain_members ms"
| "plain_member (Field name t) = plain t"
| "plain_member (Base_Subobject name t) = False"
| "plain_member Other_Member = True"

lemma enclosing_innermost: "innermost_namespace cs name \<Longrightarrow> enclosing_namespace cs name"
  by (auto simp: innermost_namespace_def enclosing_namespace_def split: list.splits decl_context.splits)

lemma clang_visit_view_same:
  assumes "enclosing_namespace (ci_context info) ''Kokkos'' \<longrightarrow> innermost_namespace (ci_context info) ''Kokkos''"
  shows "clang_visit_view views root info = visit_view views root info"
  using assms enclosing_innermost [of "ci_context info" "''Kokkos''"]
  by (auto simp: clang_visit_view_def visit_view_def)

lemma clang_visits_same:
  "plain t \<Longrightarrow> clang_visit_type views root t = visit_record views root t"
  "plain_members ms \<Longrightarrow> clang_visit_fields views root ms = visit_members views root ms"
  "plain_member m \<Longrightarrow> clang_visit_field views root m = visit_member views root m"
  by (induction views root t and views root ms and views root m
      rule: clang_visit_type_clang_visit_fields_clang_visit_field.induct)
    (auto simp: clang_visit_view_same is_class_def split: sum.splits)

text \<open>
  Property C31.  The two compiler plugins insert the same registrations: on a
  \<open>krepe::replay_functor\<close> whose functor is a class that is not itself a view, with no base
  classes, no members that are references to classes and no class called \<open>View\<close> nested in
  a class of namespace Kokkos, the bodies they leave (or their refusals) are equal.
\<close>

theorem plugins_agree:
  assumes "fd_name f = Some ''replay_functor''" and "innermost_namespace (fd_context f) ''krepe''"
    and "fd_params f = [param]" and "fd_body_is_list f"
    and "strip_reference param = Class_Type info ms" and "\<not> is_view info" and "plain (Class_Type info ms)"
  shows "(case ast_callback (Some f) of Inl e \<Rightarrow> Inl e | Inr d \<Rightarrow> Inr [d]) = HandleTopLevelDecl [Some f]"
proof -
  have "clang_visit_fields [] Functor_Parameter ms = get_functor_views (Class_Type info ms)"
    using assms(6,7) by (simp add: get_functor_views_def visit_view_collected clang_visits_same)
  moreover have "enclosing_namespace (fd_context f) ''krepe''" using assms(2) by (rule enclosing_innermost)
  ultimately show ?thesis
    using assms by (auto simp: ast_callback_def patch_replay_functor_def is_class_def members_of_def
      split: sum.splits)
qed

definition example_decl :: function_decl where
  "example_decl =
     \<lparr>fd_name = Some ''replay_functor'', fd_context = [Namespace (Some ''krepe'')],
      fd_params = [Reference_Type (example_class ''Functor'' [Field ''b'' (example_view ''Host'')])],
      fd_body_is_list = True, fd_body = [Source_Stmt 0], fd_finds_impl = True, fd_finds_clear = True,
      fd_finds_register = True\<rparr>"

theorem plugins_agree_witness:
  "HandleTopLevelDecl [Some example_decl] = Inr [Some (example_decl\<lparr>fd_body :=
     [Clear_Registered_Views, Register_View_Of (Component Functor_Parameter ''b'') ''Host'', Source_Stmt 0]\<rparr>)]"
proof -
  have "ast_callback (Some example_decl) = Inr (Some (example_decl\<lparr>fd_body :=
     [Clear_Registered_Views, Register_View_Of (Component Functor_Parameter ''b'') ''Host'', Source_Stmt 0]\<rparr>))"
    by (simp add: ast_callback_def example_decl_def innermost_namespace_def strip_reference_def
      example_class_def is_class_def get_functor_views_def visit_view_def example_view_def push_view_def
      register_stmts_def)
  moreover have "(case ast_callback (Some example_decl) of Inl e \<Rightarrow> Inl e | Inr d \<Rightarrow> Inr [d]) =
      HandleTopLevelDecl [Some example_decl]"
    by (rule plugins_agree [where param = "hd (fd_params example_decl)" and info = "\<lparr>ci_name = ''Functor'', ci_context = [], ci_has_data = False,
        ci_memory_space = None\<rparr>" and ms = "[Field ''b'' (example_view ''Host'')]"]) (simp_all add: example_decl_def innermost_namespace_def strip_reference_def
      example_class_def example_view_def is_view_def enclosing_namespace_def)
  ultimately show ?thesis by simp
qed

end
