(* ===== verification/Extractor_Contract.thy ===== *)
theory Extractor_Contract
  imports Extractor
begin

text \<open>
  What the application may rely on when it calls the extractor: the first call decides
  whether there is a tool, and from then on every call is forwarded to it, or every call
  does nothing; no call goes through a null pointer.
\<close>

section \<open>The contract of a tool\<close>

fun as_passed :: "extractor_call \<Rightarrow> extractor_call" where
  "as_passed (E_Add_Metadata key value) = E_Add_Metadata (c_string key) value"
| "as_passed c = c"

text \<open>The answers a tool gives to a sequence of calls.\<close>

fun answer_to :: "(string \<Rightarrow> 'h \<Rightarrow> bool) \<Rightarrow> extractor_call \<Rightarrow> 'h \<Rightarrow> bool option" where
  "answer_to answer (E_Will_Dump label) h = Some (answer label h)"
| "answer_to answer c h = None"

fun answers_to ::
  "(extractor_call \<Rightarrow> 'h \<Rightarrow> 'h) \<Rightarrow> (string \<Rightarrow> 'h \<Rightarrow> bool) \<Rightarrow> extractor_call list \<Rightarrow> 'h \<Rightarrow> bool option list"
where
  "answers_to act answer [] h = []"
| "answers_to act answer (c # cs) h =
     answer_to answer c h # answers_to act answer cs (act (as_passed c) h)"

lemma scratch_description_eta [simp]:
  "\<lparr>scratch_level0 = scratch_level0 x, scratch_level1 = scratch_level1 x\<rparr> = x"
  by (cases x) simp

text \<open>
  A tool is what \<open>dlsym\<close> finds under the ten names: \<open>act\<close> is what a call does to the
  process, \<open>answer\<close> what the tool says of the next invocation of a kernel.
\<close>

locale dump_tool =
  fixes dl :: "'h loader"
    and act :: "extractor_call \<Rightarrow> 'h \<Rightarrow> 'h"
    and answer :: "string \<Rightarrow> 'h \<Rightarrow> bool"
  assumes has_add_metadata: "dl ''krepe_kernel_dump_add_metadata'' =
      Some (Add_Metadata_Symbol (\<lambda>key value. act (E_Add_Metadata key value)))"
    and has_copy_functor: "dl ''krepe_kernel_dump_copy_functor'' =
      Some (Copy_Functor_Symbol (\<lambda>data. act (E_Copy_Functor data)))"
    and has_copy_nvcc_lambda: "dl ''krepe_kernel_dump_copy_nvcc_lambda'' =
      Some (Copy_Nvcc_Lambda_Symbol (\<lambda>data inner. act (E_Copy_Nvcc_Lambda data inner)))"
    and has_scalar_policy: "dl ''krepe_kernel_dump_register_scalar_policy'' =
      Some (Scalar_Policy_Symbol (\<lambda>n. act (E_Scalar_Policy n)))"
    and has_range_policy: "dl ''krepe_kernel_dump_register_range_policy'' =
      Some (Range_Policy_Symbol (\<lambda>sp sch sz sg lo up ch. act (E_Range_Policy sp sch sz sg lo up ch)))"
    and has_mdrange_policy: "dl ''krepe_kernel_dump_register_mdrange_policy'' =
      Some (Mdrange_Policy_Symbol (\<lambda>sp sch rk od idir sz sg lo up ti.
        act (E_Mdrange_Policy sp sch rk od idir sz sg lo up ti)))"
    and has_team_policy: "dl ''krepe_kernel_dump_register_team_policy'' =
      Some (Team_Policy_Symbol (\<lambda>sp sch sz sg ts ls vl t0 t1 h0 h1 ch.
        act (E_Team_Policy sp sch sz sg ts ls vl \<lparr>scratch_level0 = t0, scratch_level1 = t1\<rparr>
          \<lparr>scratch_level0 = h0, scratch_level1 = h1\<rparr> ch)))"
    and has_will_dump: "dl ''krepe_kernel_dump_next_invocation_will_dump'' =
      Some (Will_Dump_Symbol (\<lambda>label h. (answer label h, act (E_Will_Dump label) h)))"
    and has_clear_views: "dl ''krepe_kernel_dump_clear_registered_views'' =
      Some (Clear_Views_Symbol (act E_Clear_Views))"
    and has_register_view: "dl ''krepe_kernel_dump_register_view'' =
      Some (Register_View_Symbol (\<lambda>data space. act (E_Register_View data space)))"
begin

lemmas symbols = has_add_metadata has_copy_functor has_copy_nvcc_lambda has_scalar_policy
  has_range_policy has_mdrange_policy has_team_policy has_will_dump has_clear_views has_register_view

text \<open>The pointers once the tool is loaded.\<close>

definition loaded :: "'h extractor" where
  "loaded =
     \<lparr>add_metadata_function = Some (\<lambda>key value. act (E_Add_Metadata key value)),
      copy_functor_function = Some (\<lambda>data. act (E_Copy_Functor data)),
      copy_nvcc_lambda_function = Some (\<lambda>data inner. act (E_Copy_Nvcc_Lambda data inner)),
      register_scalar_policy_function = Some (\<lambda>n. act (E_Scalar_Policy n)),
      register_range_policy_function =
        Some (\<lambda>sp sch sz sg lo up ch. act (E_Range_Policy sp sch sz sg lo up ch)),
      register_mdrange_policy_function =
        Some (\<lambda>sp sch rk od idir sz sg lo up ti. act (E_Mdrange_Policy sp sch rk od idir sz sg lo up ti)),
      register_team_policy_function = Some (\<lambda>sp sch sz sg ts ls vl t0 t1 h0 h1 ch.
        act (E_Team_Policy sp sch sz sg ts ls vl \<lparr>scratch_level0 = t0, scratch_level1 = t1\<rparr>
          \<lparr>scratch_level0 = h0, scratch_level1 = h1\<rparr> ch)),
      next_invocation_will_dump_function = Some (\<lambda>label h. (answer label h, act (E_Will_Dump label) h)),
      clear_registered_views_function = Some (act E_Clear_Views),
      register_view_function = Some (\<lambda>data space. act (E_Register_View data space)),
      has_kernel_dump_tool = Some True\<rparr>"

lemma init_loads: "init_internal_functions True dl initial_extractor = loaded"
  by (simp add: init_internal_functions_def init_internal_functions_from_tool_def
    load_function_from_tool_def symbols initial_extractor_def loaded_def store_add_metadata_def
    store_copy_functor_def store_copy_nvcc_lambda_def store_scalar_policy_def store_range_policy_def
    store_mdrange_policy_def store_team_policy_def store_will_dump_def store_clear_views_def
    store_register_view_def)

lemma init_loaded: "init_internal_functions libdl dl' loaded = loaded"
  by (simp add: init_internal_functions_def loaded_def)

lemma make_call_when:
  assumes "init_internal_functions (lk_libdl lk) (lk_dlsym lk) e = loaded"
  shows "make_call lk c (h, e) = (Inr (answer_to answer c h), (act (as_passed c) h, loaded))"
  by (cases c) (simp_all add: add_metadata_def copy_functor_def copy_nvcc_lambda_def
    register_scalar_policy_def register_range_policy_def register_mdrange_policy_def
    register_team_policy_def next_invocation_will_dump_def clear_registered_views_def
    register_view_def and_then_def initialized_def through_def assms done_with_def loaded_def)

lemmas make_call_loaded = make_call_when [OF init_loaded]

lemma make_calls_loaded:
  "make_calls cs (h, loaded) =
     (Inr (answers_to act answer (List.map snd cs) h), (fold (\<lambda>c. act (as_passed c)) (List.map snd cs) h, loaded))"
proof (induction cs arbitrary: h)
  case (Cons c cs)
  then show ?case by (cases c) (simp add: and_then_def make_call_loaded done_with_def)
qed (simp add: done_with_def)

text \<open>Only the linkage of the first call matters.\<close>

lemma make_calls_first:
  assumes "lk_libdl lk" and "lk_dlsym lk = dl"
  shows "make_calls ((lk, c) # cs) (h, initial_extractor) =
    (Inr (answers_to act answer (c # List.map snd cs) h),
     (fold (\<lambda>c. act (as_passed c)) (c # List.map snd cs) h, loaded))"
  using make_call_when [of lk initial_extractor c h] init_loads assms
  by (simp add: and_then_def make_calls_loaded done_with_def)

end

section \<open>Without a tool\<close>

definition tool_names :: "string list" where
  "tool_names =
     [''krepe_kernel_dump_add_metadata'', ''krepe_kernel_dump_copy_functor'',
      ''krepe_kernel_dump_copy_nvcc_lambda'', ''krepe_kernel_dump_register_scalar_policy'',
      ''krepe_kernel_dump_register_range_policy'', ''krepe_kernel_dump_register_mdrange_policy'',
      ''krepe_kernel_dump_register_team_policy'', ''krepe_kernel_dump_next_invocation_will_dump'',
      ''krepe_kernel_dump_clear_registered_views'', ''krepe_kernel_dump_register_view'']"

lemma load_each_missing:
  assumes "\<exists>name \<in> set (List.map fst fs). dl name = None"
  shows "\<not> fst (load_each dl fs e)"
  using assms
proof (induction fs arbitrary: e)
  case (Cons f fs)
  then show ?case
    by (cases f) (auto simp: load_function_from_tool_def split: option.splits)
qed simp

lemma init_without:
  assumes "\<not> libdl \<or> (\<exists>name \<in> set tool_names. dl name = None)"
  shows "\<exists>e. init_internal_functions libdl dl initial_extractor = without_tool e"
proof -
  let ?r = "init_internal_functions_from_tool libdl dl initial_extractor"
  have "\<not> fst ?r"
    using assms unfolding init_internal_functions_from_tool_def
    by (cases libdl) (auto simp only: if_True if_False not_True_eq_False not_False_eq_True simp_thms
      fst_conv intro!: load_each_missing, auto simp: tool_names_def)
  then have "init_internal_functions libdl dl initial_extractor = without_tool (snd ?r)"
    by (cases ?r) (simp add: init_internal_functions_def initial_extractor_def)
  then show ?thesis ..
qed

lemma init_without_again: "init_internal_functions libdl dl (without_tool e) = without_tool e"
  by (simp add: init_internal_functions_def without_tool_def)

fun no_dump_answer :: "extractor_call \<Rightarrow> bool option" where
  "no_dump_answer (E_Will_Dump label) = Some False"
| "no_dump_answer c = None"

lemma make_call_without:
  assumes "init_internal_functions (lk_libdl lk) (lk_dlsym lk) e = without_tool e'"
  shows "make_call lk c (h, e) = (Inr (no_dump_answer c), (h, without_tool e'))"
  by (cases c) (simp_all add: add_metadata_def copy_functor_def copy_nvcc_lambda_def
    register_scalar_policy_def register_range_policy_def register_mdrange_policy_def
    register_team_policy_def next_invocation_will_dump_def clear_registered_views_def
    register_view_def and_then_def initialized_def through_def assms done_with_def without_tool_def)

lemma make_calls_without:
  "make_calls cs (h, without_tool e) =
     (Inr (List.map (\<lambda>c. no_dump_answer (snd c)) cs), (h, without_tool e))"
proof (induction cs)
  case (Cons c cs)
  then show ?case
    by (cases c) (simp add: and_then_def make_call_without [OF init_without_again] done_with_def)
qed (simp add: done_with_def)

section \<open>The capture tool\<close>

text \<open>The functions \<open>kokkos_hooks.cpp\<close> exports for the extractor.\<close>

definition hooks_loader :: "'w hooks loader" where
  "hooks_loader = map_of
     [(''krepe_kernel_dump_add_metadata'', Add_Metadata_Symbol krepe_kernel_dump_add_metadata),
      (''krepe_kernel_dump_copy_functor'', Copy_Functor_Symbol krepe_kernel_dump_copy_functor),
      (''krepe_kernel_dump_copy_nvcc_lambda'', Copy_Nvcc_Lambda_Symbol krepe_kernel_dump_copy_nvcc_lambda),
      (''krepe_kernel_dump_register_scalar_policy'',
         Scalar_Policy_Symbol krepe_kernel_dump_register_scalar_policy),
      (''krepe_kernel_dump_register_range_policy'',
         Range_Policy_Symbol krepe_kernel_dump_register_range_policy),
      (''krepe_kernel_dump_register_mdrange_policy'',
         Mdrange_Policy_Symbol krepe_kernel_dump_register_mdrange_policy),
      (''krepe_kernel_dump_register_team_policy'',
         Team_Policy_Symbol krepe_kernel_dump_register_team_policy),
      (''krepe_kernel_dump_next_invocation_will_dump'',
         Will_Dump_Symbol krepe_kernel_dump_next_invocation_will_dump),
      (''krepe_kernel_dump_clear_registered_views'',
         Clear_Views_Symbol krepe_kernel_dump_clear_registered_views),
      (''krepe_kernel_dump_register_view'', Register_View_Symbol krepe_kernel_dump_register_view)]"

fun capture_event :: "extractor_call \<Rightarrow> 'w hook_event" where
  "capture_event (E_Add_Metadata key value) = Add_Metadata (c_string key) value"
| "capture_event (E_Copy_Functor data) = Copy_Functor data"
| "capture_event (E_Copy_Nvcc_Lambda data inner) = Copy_Nvcc_Lambda data inner"
| "capture_event (E_Scalar_Policy n) = Register_Scalar_Policy n"
| "capture_event (E_Range_Policy sp sch sz sg lo up ch) = Register_Range_Policy sp sch sz sg lo up ch"
| "capture_event (E_Mdrange_Policy sp sch rk od idir sz sg lo up ti) =
     Register_Mdrange_Policy sp sch rk od idir sz sg lo up ti"
| "capture_event (E_Team_Policy sp sch sz sg ts ls vl team thread ch) =
     Register_Team_Policy sp sch sz sg ts ls vl (scratch_level0 team) (scratch_level1 team)
       (scratch_level0 thread) (scratch_level1 thread) ch"
| "capture_event (E_Will_Dump label) = Will_Dump label"
| "capture_event E_Clear_Views = Clear_Views"
| "capture_event (E_Register_View data space) = Register_View data space"

fun hooks_act :: "extractor_call \<Rightarrow> 'w hooks \<Rightarrow> 'w hooks" where
  "hooks_act (E_Add_Metadata key value) h = krepe_kernel_dump_add_metadata key value h"
| "hooks_act (E_Copy_Functor data) h = krepe_kernel_dump_copy_functor data h"
| "hooks_act (E_Copy_Nvcc_Lambda data inner) h = krepe_kernel_dump_copy_nvcc_lambda data inner h"
| "hooks_act (E_Scalar_Policy n) h = krepe_kernel_dump_register_scalar_policy n h"
| "hooks_act (E_Range_Policy sp sch sz sg lo up ch) h =
     krepe_kernel_dump_register_range_policy sp sch sz sg lo up ch h"
| "hooks_act (E_Mdrange_Policy sp sch rk od idir sz sg lo up ti) h =
     krepe_kernel_dump_register_mdrange_policy sp sch rk od idir sz sg lo up ti h"
| "hooks_act (E_Team_Policy sp sch sz sg ts ls vl team thread ch) h =
     krepe_kernel_dump_register_team_policy sp sch sz sg ts ls vl (scratch_level0 team)
       (scratch_level1 team) (scratch_level0 thread) (scratch_level1 thread) ch h"
| "hooks_act (E_Will_Dump label) h = snd (krepe_kernel_dump_next_invocation_will_dump label h)"
| "hooks_act E_Clear_Views h = krepe_kernel_dump_clear_registered_views h"
| "hooks_act (E_Register_View data space) h = krepe_kernel_dump_register_view data space h"

definition hooks_answer :: "string \<Rightarrow> 'w hooks \<Rightarrow> bool" where
  "hooks_answer label h = fst (krepe_kernel_dump_next_invocation_will_dump label h)"

interpretation hooks_tool: dump_tool hooks_loader hooks_act hooks_answer
  by unfold_locales (simp_all add: hooks_loader_def hooks_answer_def fun_eq_iff)

text \<open>The linkage of an application that runs with the capture tool.\<close>

definition capture_linkage :: "'w hooks linkage" where
  "capture_linkage = \<lparr>lk_libdl = True, lk_dlsym = hooks_loader\<rparr>"

lemma first_call:
  "make_call capture_linkage c (h, initial_extractor) =
     (Inr (answer_to hooks_answer c h), (hooks_act (as_passed c) h, hooks_tool.loaded))"
  by (rule hooks_tool.make_call_when) (simp add: capture_linkage_def hooks_tool.init_loads)

lemma hooks_act_event: "hooks_act (as_passed c) h = hook_step cx (capture_event c) h"
  by (cases c) simp_all

lemma hooks_act_run:
  "fold (\<lambda>c. hooks_act (as_passed c)) cs h = hook_run cx (List.map capture_event cs) h"
  by (induction cs arbitrary: h) (simp_all add: hooks_act_event [of _ _ cx])

text \<open>
  Property C13.  The extractor forwards, all or nothing.  The linkage of the first call
  decides.  When the capture tool is loaded then, every call of the run has the effect of
  the tool's entry point and gets its answer, whatever the linkage becomes later.  When one
  of the ten functions is missing (or \<open>dlsym\<close> is not used), no call of the run has an
  effect and every question is answered with no, even if the tool is loaded later.  In
  neither case is a null pointer called.
\<close>

theorem extractor_forwards:
  "(\<exists>e. make_calls ((capture_linkage, c) # cs) (h, initial_extractor) =
      (Inr (answers_to hooks_act hooks_answer (c # List.map snd cs) h),
       (hook_run cx (List.map capture_event (c # List.map snd cs)) h, e))) \<and>
   (\<not> libdl \<or> (\<exists>name \<in> set tool_names. dl name = None) \<longrightarrow>
      (\<exists>e. make_calls ((\<lparr>lk_libdl = libdl, lk_dlsym = dl\<rparr>, c) # cs) (h, initial_extractor) =
        (Inr (List.map no_dump_answer (c # List.map snd cs)), (h, e))))"
proof (intro conjI impI)
  show "\<exists>e. make_calls ((capture_linkage, c) # cs) (h, initial_extractor) =
      (Inr (answers_to hooks_act hooks_answer (c # List.map snd cs) h),
       (hook_run cx (List.map capture_event (c # List.map snd cs)) h, e))"
    using hooks_tool.make_calls_first [of capture_linkage c cs h]
    by (simp only: hooks_act_run [of _ _ cx] capture_linkage_def linkage.simps simp_thms) blast
next
  assume missing: "\<not> libdl \<or> (\<exists>name \<in> set tool_names. dl name = None)"
  from init_without [OF this] obtain e where
    "init_internal_functions libdl dl initial_extractor = without_tool e" by blast
  then show "\<exists>e. make_calls ((\<lparr>lk_libdl = libdl, lk_dlsym = dl\<rparr>, c) # cs) (h, initial_extractor) =
      (Inr (List.map no_dump_answer (c # List.map snd cs)), (h, e))"
    using make_call_without [of "\<lparr>lk_libdl = libdl, lk_dlsym = dl\<rparr>" initial_extractor e c h]
    by (intro exI [of _ "without_tool e"]) (simp add: and_then_def make_calls_without done_with_def comp_def)
qed

theorem extractor_forwards_witness:
  "\<exists>e. make_calls [(\<lparr>lk_libdl = True, lk_dlsym = Map.empty\<rparr>, E_Will_Dump ''k''),
      (capture_linkage, E_Scalar_Policy 4)] (initial_hooks (), initial_extractor) =
    (Inr [Some False, None], (initial_hooks (), e))"
proof -
  have "\<exists>name \<in> set tool_names. Map.empty name = None" by (rule bexI [of _ "hd tool_names"]) (simp_all add: tool_names_def)
  with extractor_forwards [where libdl = True and dl = Map.empty and c = "E_Will_Dump ''k''"
      and h = "initial_hooks ()" and cs = "[(capture_linkage, E_Scalar_Policy 4)]"]
  show ?thesis by (simp del: make_calls.simps make_call.simps)
qed

end
