(* ===== verification/Extract_Policy.thy ===== *)
theory Extract_Policy
  imports Extractor_Contract Dump_Reader
begin

text \<open>
  \<open>register_bounds\<close> and \<open>parallel_for\<close> of the extractor
  (\<open>src/krepe/extract/kernel_extractor.hpp\<close>): what is recorded of an execution policy.  Of
  Kokkos's policies only what this code reads and, on the replay side, passes to their
  constructors is described.
\<close>

section \<open>Execution policies of Kokkos\<close>

text \<open>The values of an index type are integers within its bounds.\<close>

fun index_type_bytes :: "index_type \<Rightarrow> nat" where
  "index_type_bytes Int8 = 1" | "index_type_bytes Uint8 = 1"
| "index_type_bytes Int16 = 2" | "index_type_bytes Uint16 = 2"
| "index_type_bytes Int32_Type = 4" | "index_type_bytes Uint32 = 4"
| "index_type_bytes Int64 = 8" | "index_type_bytes Uint64 = 8"

fun index_type_is_signed :: "index_type \<Rightarrow> bool" where
  "index_type_is_signed Int8 = True" | "index_type_is_signed Uint8 = False"
| "index_type_is_signed Int16 = True" | "index_type_is_signed Uint16 = False"
| "index_type_is_signed Int32_Type = True" | "index_type_is_signed Uint32 = False"
| "index_type_is_signed Int64 = True" | "index_type_is_signed Uint64 = False"

definition of_index_type :: "index_type \<Rightarrow> int \<Rightarrow> bool" where
  "of_index_type t n \<longleftrightarrow>
     (if index_type_is_signed t
      then - (2 ^ (8 * index_type_bytes t - 1)) \<le> n \<and> n < 2 ^ (8 * index_type_bytes t - 1)
      else 0 \<le> n \<and> n < 2 ^ (8 * index_type_bytes t))"

datatype kokkos_iterate = Kokkos_Default | Kokkos_Left | Kokkos_Right

record kokkos_range =
  kr_space :: string
  kr_schedule :: schedule_type
  kr_index_type :: index_type
  kr_begin :: int
  kr_end :: int
  kr_chunk_size :: int

record kokkos_mdrange =
  km_space :: string
  km_schedule :: schedule_type
  km_index_type :: index_type
  km_rank :: nat
  km_outer_direction :: kokkos_iterate
  km_inner_direction :: kokkos_iterate
  km_lower :: "64 word list"
  km_upper :: "64 word list"
  km_tile :: "64 word list"

text \<open>A team size or a vector length is a number or \<open>Kokkos::AUTO\<close>, here \<open>None\<close>.\<close>

record kokkos_team =
  kt_space :: string
  kt_schedule :: schedule_type
  kt_index_type :: index_type
  kt_league_size :: i32
  kt_team_size :: "i32 option"
  kt_vector_length :: "i32 option"
  kt_team_scratch_0 :: i32
  kt_team_scratch_1 :: i32
  kt_thread_scratch_0 :: i32
  kt_thread_scratch_1 :: i32
  kt_chunk_size :: i32

datatype kokkos_policy =
  Kokkos_Scalar u64
| Kokkos_Range kokkos_range
| Kokkos_Mdrange kokkos_mdrange
| Kokkos_Team kokkos_team

section \<open>Properties of the types\<close>

definition get_index_type_props :: "index_type \<Rightarrow> u64 \<times> bool" where
  "get_index_type_props t = (of_nat (index_type_bytes t), index_type_is_signed t)"

text \<open>A signed value is widened to 64 bits, whose bits are then taken as unsigned.\<close>

definition index_type_to_u64 :: "index_type \<Rightarrow> int \<Rightarrow> u64" where
  "index_type_to_u64 t n =
     (if index_type_is_signed t
      then let widened = (word_of_int n :: 64 word) in word_of_int (sint widened)
      else word_of_int n)"

definition iteration_pattern_to_string :: "kokkos_iterate \<Rightarrow> exn + string" where
  "iteration_pattern_to_string direction =
     (case direction of
        Kokkos_Left \<Rightarrow> Inr ''left''
      | Kokkos_Right \<Rightarrow> Inr ''right''
      | Kokkos_Default \<Rightarrow> Inl (Std_Exception
          ''default iteration pattern should already be resolved at this point''))"

definition schedule_to_string :: "schedule_type \<Rightarrow> string" where
  "schedule_to_string schedule =
     (case schedule of Static_Schedule \<Rightarrow> ''static'' | Dynamic_Schedule \<Rightarrow> ''dynamic'')"

section \<open>Registering\<close>

text \<open>The Kokkos the application is compiled with.\<close>

record extractor_build =
  eb_kokkos_5_3 :: bool
  eb_cuda :: bool
  eb_hip :: bool
  eb_sycl :: bool

definition supports_querying_scratch_size :: "extractor_build \<Rightarrow> string \<Rightarrow> bool" where
  "supports_querying_scratch_size eb execution_space =
     (if eb_kokkos_5_3 eb then True
      else if eb_cuda eb then execution_space = ''Cuda''
      else if eb_hip eb then execution_space = ''HIP''
      else if eb_sycl eb then execution_space = ''SYCL''
      else False)"

definition register_range_bounds :: "'h linkage \<Rightarrow> kokkos_range \<Rightarrow> ('h, unit) extractor_prog" where
  "register_range_bounds lk policy =
     (let (idx_type_size, idx_type_signed) = get_index_type_props (kr_index_type policy);
          lower = index_type_to_u64 (kr_index_type policy) (kr_begin policy);
          upper = index_type_to_u64 (kr_index_type policy) (kr_end policy)
      in register_range_policy lk (kr_space policy) (schedule_to_string (kr_schedule policy))
           idx_type_size idx_type_signed lower upper (word_of_int (kr_chunk_size policy)))"

text \<open>The loop copies \<open>rank\<close> elements of each array into arrays of \<open>std::int64_t\<close>.\<close>

definition register_mdrange_bounds :: "'h linkage \<Rightarrow> kokkos_mdrange \<Rightarrow> ('h, unit) extractor_prog" where
  "register_mdrange_bounds lk policy =
     (let (idx_type_size, idx_type_signed) = get_index_type_props (km_index_type policy) in
      and_then (returned (iteration_pattern_to_string (km_outer_direction policy))) (\<lambda>outer_dir.
      and_then (returned (iteration_pattern_to_string (km_inner_direction policy))) (\<lambda>inner_dir.
        let i64_lower = List.map (\<lambda>i. km_lower policy ! i) [0..<km_rank policy];
            i64_upper = List.map (\<lambda>i. km_upper policy ! i) [0..<km_rank policy];
            i64_tile = List.map (\<lambda>i. km_tile policy ! i) [0..<km_rank policy]
        in register_mdrange_policy lk (km_space policy) (schedule_to_string (km_schedule policy))
             (of_nat (km_rank policy)) outer_dir inner_dir idx_type_size idx_type_signed
             i64_lower i64_upper i64_tile)))"

definition register_team_bounds ::
  "'h linkage \<Rightarrow> extractor_build \<Rightarrow> kokkos_team \<Rightarrow> ('h, unit) extractor_prog" where
  "register_team_bounds lk eb policy =
     (let (idx_type_size, idx_type_signed) = get_index_type_props (kt_index_type policy);
          (team_scratch, thread_scratch) =
            (if supports_querying_scratch_size eb (kt_space policy)
             then (\<lparr>scratch_level0 = kt_team_scratch_0 policy, scratch_level1 = kt_team_scratch_1 policy\<rparr>,
                   \<lparr>scratch_level0 = kt_thread_scratch_0 policy, scratch_level1 = kt_thread_scratch_1 policy\<rparr>)
             else (\<lparr>scratch_level0 = -1, scratch_level1 = -1\<rparr>, \<lparr>scratch_level0 = -1, scratch_level1 = -1\<rparr>));
          team_size = (case kt_team_size policy of None \<Rightarrow> -1 | Some n \<Rightarrow> n);
          vector_length = (case kt_vector_length policy of None \<Rightarrow> -1 | Some n \<Rightarrow> n)
      in register_team_policy lk (kt_space policy) (schedule_to_string (kt_schedule policy))
           idx_type_size idx_type_signed team_size (kt_league_size policy) vector_length
           team_scratch thread_scratch (kt_chunk_size policy))"

fun register_bounds :: "'h linkage \<Rightarrow> extractor_build \<Rightarrow> kokkos_policy \<Rightarrow> ('h, unit) extractor_prog" where
  "register_bounds lk eb (Kokkos_Scalar upper_bound) = register_scalar_policy lk upper_bound"
| "register_bounds lk eb (Kokkos_Range policy) = register_range_bounds lk policy"
| "register_bounds lk eb (Kokkos_Mdrange policy) = register_mdrange_bounds lk policy"
| "register_bounds lk eb (Kokkos_Team policy) = register_team_bounds lk eb policy"

section \<open>The kernel launch\<close>

text \<open>
  \<open>krepe::parallel_for\<close> of the extractor; \<open>run\<close> is \<open>Kokkos::parallel_for\<close> with the
  functor, which calls the tool's handlers and runs the kernel.
\<close>

definition extract_parallel_for ::
  "'h linkage \<Rightarrow> extractor_build \<Rightarrow> bool \<Rightarrow> ('h, unit) extractor_prog \<Rightarrow> memory \<Rightarrow>
   (string \<Rightarrow> kokkos_policy \<Rightarrow> ('h, unit) extractor_prog) \<Rightarrow>
   string \<Rightarrow> kokkos_policy \<Rightarrow> captured_type \<Rightarrow> addr \<Rightarrow> ('h, unit) extractor_prog" where
  "extract_parallel_for lk eb nvcc_hdl_workaround prologue mem run label policy t functor =
     and_then (next_invocation_will_dump lk (c_string label)) (\<lambda>will_dump.
     if will_dump
     then and_then (register_bounds lk eb policy) (\<lambda>_.
          and_then (extract_functor lk nvcc_hdl_workaround prologue mem t functor) (\<lambda>_.
          run label policy))
     else run label policy)"

section \<open>What the tool is told\<close>

text \<open>The description of a policy that a tool receives.\<close>

fun policy_call :: "extractor_build \<Rightarrow> kokkos_policy \<Rightarrow> extractor_call option" where
  "policy_call eb (Kokkos_Scalar n) = Some (E_Scalar_Policy n)"
| "policy_call eb (Kokkos_Range p) =
     Some (E_Range_Policy (kr_space p) (schedule_to_string (kr_schedule p))
       (of_nat (index_type_bytes (kr_index_type p))) (index_type_is_signed (kr_index_type p))
       (word_of_int (kr_begin p)) (word_of_int (kr_end p)) (word_of_int (kr_chunk_size p)))"
| "policy_call eb (Kokkos_Mdrange p) =
     (case (iteration_pattern_to_string (km_outer_direction p),
            iteration_pattern_to_string (km_inner_direction p)) of
        (Inr outer, Inr inner) \<Rightarrow>
          Some (E_Mdrange_Policy (km_space p) (schedule_to_string (km_schedule p)) (of_nat (km_rank p))
            outer inner (of_nat (index_type_bytes (km_index_type p)))
            (index_type_is_signed (km_index_type p))
            (List.map ((!) (km_lower p)) [0..<km_rank p]) (List.map ((!) (km_upper p)) [0..<km_rank p])
            (List.map ((!) (km_tile p)) [0..<km_rank p]))
      | _ \<Rightarrow> None)"
| "policy_call eb (Kokkos_Team p) =
     (let s = (\<lambda>n. if supports_querying_scratch_size eb (kt_space p) then n else -1) in
      Some (E_Team_Policy (kt_space p) (schedule_to_string (kt_schedule p))
        (of_nat (index_type_bytes (kt_index_type p))) (index_type_is_signed (kt_index_type p))
        (case kt_team_size p of None \<Rightarrow> -1 | Some n \<Rightarrow> n) (kt_league_size p)
        (case kt_vector_length p of None \<Rightarrow> -1 | Some n \<Rightarrow> n)
        \<lparr>scratch_level0 = s (kt_team_scratch_0 p), scratch_level1 = s (kt_team_scratch_1 p)\<rparr>
        \<lparr>scratch_level0 = s (kt_thread_scratch_0 p), scratch_level1 = s (kt_thread_scratch_1 p)\<rparr>
        (kt_chunk_size p)))"

lemma index_type_to_u64_word [simp]: "index_type_to_u64 t n = word_of_int n"
  by (simp add: index_type_to_u64_def)

text \<open>A policy without a default pattern is registered with one call.\<close>

lemma register_bounds_call:
  assumes "policy_call eb policy = Some c"
  shows "register_bounds lk eb policy = and_then (make_call lk c) (\<lambda>_. done_with ())"
proof (cases policy)
  case (Kokkos_Mdrange p)
  with assms show ?thesis
    by (auto simp: register_mdrange_bounds_def get_index_type_props_def returned_def
      and_then_assoc split: sum.splits)
next
  case (Kokkos_Team p)
  with assms show ?thesis
    by (auto simp: register_team_bounds_def get_index_type_props_def Let_def and_then_assoc)
qed (use assms in \<open>auto simp: register_range_bounds_def get_index_type_props_def and_then_assoc\<close>)

lemma no_policy_call_prog: "policy_call eb policy = Some c \<Longrightarrow> as_passed c = c"
  by (cases policy) (auto simp: Let_def split: sum.splits)

end
