(* ===== verification/Replay_Policy.thy ===== *)
theory Replay_Policy
  imports Extract_Policy Replayer
begin

text \<open>
  The replayer's \<open>parallel_for\<close> (\<open>src/krepe/replay/kernel_replayer.hpp\<close>): the policy that
  was read from the dump becomes one of Kokkos's policies, and the kernel is launched with
  it.  A launch is what \<open>Kokkos::parallel_for\<close> is called with.
\<close>

section \<open>Building the policies\<close>

definition get_range_policy ::
  "string \<Rightarrow> schedule_type \<Rightarrow> index_type \<Rightarrow> int \<Rightarrow> int \<Rightarrow> i32 \<Rightarrow> kokkos_policy" where
  "get_range_policy exec_space schedule index_type start upper chunk_size =
     Kokkos_Range \<lparr>kr_space = exec_space, kr_schedule = schedule, kr_index_type = index_type,
       kr_begin = start, kr_end = upper, kr_chunk_size = sint chunk_size\<rparr>"

text \<open>The vectors are read at \<open>rank\<close> positions: past their ends that is undefined.\<close>

definition get_mdrange_policy ::
  "nat \<Rightarrow> kokkos_iterate \<Rightarrow> kokkos_iterate \<Rightarrow> string \<Rightarrow> schedule_type \<Rightarrow> index_type \<Rightarrow>
   64 word list \<Rightarrow> 64 word list \<Rightarrow> 64 word list \<Rightarrow> exn + kokkos_policy" where
  "get_mdrange_policy rank outer_dir inner_dir exec_space schedule index_type start upper tile =
     (if length start < rank \<or> length upper < rank \<or> length tile < rank then Inl Abort
      else Inr (Kokkos_Mdrange \<lparr>km_space = exec_space, km_schedule = schedule,
        km_index_type = index_type, km_rank = rank, km_outer_direction = outer_dir,
        km_inner_direction = inner_dir,
        km_lower = List.map (\<lambda>i. start ! i) [0..<rank], km_upper = List.map (\<lambda>i. upper ! i) [0..<rank],
        km_tile = List.map (\<lambda>i. tile ! i) [0..<rank]\<rparr>))"

text \<open>
  A new team policy has no scratch memory.  A team size or vector length below zero stands
  for \<open>Kokkos::AUTO\<close>, a team scratch of -1 for sizes that could not be queried.
\<close>

definition new_team_policy ::
  "string \<Rightarrow> schedule_type \<Rightarrow> index_type \<Rightarrow> i32 \<Rightarrow> i32 option \<Rightarrow> i32 option \<Rightarrow> kokkos_team" where
  "new_team_policy exec_space schedule index_type league_size team_size vector_length =
     \<lparr>kt_space = exec_space, kt_schedule = schedule, kt_index_type = index_type,
      kt_league_size = league_size, kt_team_size = team_size, kt_vector_length = vector_length,
      kt_team_scratch_0 = 0, kt_team_scratch_1 = 0, kt_thread_scratch_0 = 0,
      kt_thread_scratch_1 = 0, kt_chunk_size = 0\<rparr>"

definition get_team_policy ::
  "string \<Rightarrow> schedule_type \<Rightarrow> index_type \<Rightarrow> i32 \<Rightarrow> i32 \<Rightarrow> i32 \<Rightarrow> i32 \<Rightarrow> i32 \<Rightarrow> i32 \<Rightarrow> i32 \<Rightarrow> i32 \<Rightarrow>
   kokkos_policy" where
  "get_team_policy exec_space schedule index_type team_size league_size vector_length
     team_scratch_0 team_scratch_1 thread_scratch_0 thread_scratch_1 chunk_size =
     (let new = new_team_policy exec_space schedule index_type league_size;
          policy =
            (if team_size <s 0
             then if vector_length <s 0 then new None None else new None (Some vector_length)
             else if vector_length <s 0 then new (Some team_size) None
             else new (Some team_size) (Some vector_length));
          policy =
            (if team_scratch_0 \<noteq> -1
             then policy\<lparr>kt_team_scratch_0 := team_scratch_0, kt_thread_scratch_0 := thread_scratch_0,
                         kt_team_scratch_1 := team_scratch_1, kt_thread_scratch_1 := thread_scratch_1\<rparr>
             else policy)
      in Kokkos_Team (policy\<lparr>kt_chunk_size := chunk_size\<rparr>))"

section \<open>Choosing the policy\<close>

text \<open>
  What the compiler knows of a functor: the numbers of indices it can be called with, and
  the types of team policies whose members it can be called with.
\<close>

record functor_signature =
  supports_n_args :: "nat \<Rightarrow> bool"
  is_team_functor :: "string \<Rightarrow> schedule_type \<Rightarrow> index_type \<Rightarrow> bool"

datatype 'f launch = Launch string kokkos_policy 'f

text \<open>
  The bits of a stored bound, as a value of the index type: a signed type takes them as a
  signed number first; the conversion keeps the lower bits.
\<close>

definition to_index_type :: "index_type \<Rightarrow> u64 \<Rightarrow> int" where
  "to_index_type t w =
     (if index_type_is_signed t
      then signed_take_bit (8 * index_type_bytes t - 1) (sint w)
      else take_bit (8 * index_type_bytes t) (uint w))"

fun kokkos_dir :: "iterate_dir \<Rightarrow> kokkos_iterate" where
  "kokkos_dir Iterate_Left = Kokkos_Left"
| "kokkos_dir Iterate_Right = Kokkos_Right"

definition visit_range ::
  "functor_signature \<Rightarrow> string \<Rightarrow> 'f \<Rightarrow> replay_range \<Rightarrow> exn + 'f launch option" where
  "visit_range fs label functor policy =
     (if supports_n_args fs 1
      then let lower = to_index_type (rr_index_type policy) (rr_begin policy);
               upper = to_index_type (rr_index_type policy) (rr_end policy)
           in Inr (Some (Launch label (get_range_policy (rr_exec_space policy) (rr_schedule policy)
                (rr_index_type policy) lower upper (rr_chunk_size policy)) functor))
      else Inr None)"

definition visit_mdrange ::
  "functor_signature \<Rightarrow> string \<Rightarrow> 'f \<Rightarrow> replay_mdrange \<Rightarrow> exn + 'f launch option" where
  "visit_mdrange fs label functor policy =
     (if supports_n_args fs (rm_rank policy)
      then
        let get = (\<lambda>outer inner. get_mdrange_policy (rm_rank policy) outer inner (rm_exec_space policy)
                    (rm_schedule policy) (rm_index_type policy) (rm_begin policy) (rm_end policy)
                    (rm_tile policy));
            p = (if rm_outer_dir policy = Iterate_Right
                 then if rm_inner_dir policy = Iterate_Right then get Kokkos_Right Kokkos_Right
                      else get Kokkos_Right Kokkos_Left
                 else if rm_inner_dir policy = Iterate_Right then get Kokkos_Left Kokkos_Right
                 else get Kokkos_Left Kokkos_Left)
        in case p of Inl e \<Rightarrow> Inl e | Inr p \<Rightarrow> Inr (Some (Launch label p functor))
      else Inr None)"

definition visit_team ::
  "functor_signature \<Rightarrow> string \<Rightarrow> 'f \<Rightarrow> replay_team \<Rightarrow> exn + 'f launch option" where
  "visit_team fs label functor policy =
     (if is_team_functor fs (rt_exec_space policy) (rt_schedule policy) (rt_index_type policy)
      then Inr (Some (Launch label (get_team_policy (rt_exec_space policy) (rt_schedule policy)
        (rt_index_type policy) (rt_team_size policy) (rt_league_size policy) (rt_vector_length policy)
        (rt_team_scratch_0 policy) (rt_team_scratch_1 policy) (rt_thread_scratch_0 policy)
        (rt_thread_scratch_1 policy) (rt_chunk_size policy)) functor))
      else Inr None)"

text \<open>
  \<open>ParallelForVisitor\<close>.  A functor that cannot be called as the policy asks for launches
  nothing.
\<close>

fun parallel_for_visitor ::
  "functor_signature \<Rightarrow> string \<Rightarrow> 'f \<Rightarrow> policy_var \<Rightarrow> exn + 'f launch option" where
  "parallel_for_visitor fs label functor Replay_None =
     Inl (Std_Exception (''Trying to use a replay parallel_for but the replay dump does not '' @
       ''contain an execution policy''))"
| "parallel_for_visitor fs label functor (Replay_Scalar n) =
     (if supports_n_args fs 1 then Inr (Some (Launch label (Kokkos_Scalar n) functor)) else Inr None)"
| "parallel_for_visitor fs label functor (Replay_Range policy) = visit_range fs label functor policy"
| "parallel_for_visitor fs label functor (Replay_Mdrange policy) = visit_mdrange fs label functor policy"
| "parallel_for_visitor fs label functor (Replay_Team policy) = visit_team fs label functor policy"

section \<open>Facts on the conversions\<close>

lemma index_type_bits: "0 < index_type_bytes t" "8 * index_type_bytes t \<le> 64"
  by (cases t; simp)+

lemma to_index_type_range: "of_index_type t (to_index_type t w)"
  using signed_take_bit_int_greater_eq_minus_exp [of "8 * index_type_bytes t - 1" "sint w"]
    signed_take_bit_int_less_exp [of "8 * index_type_bytes t - 1" "sint w"]
  by (auto simp: of_index_type_def to_index_type_def take_bit_int_less_exp)

text \<open>A bound survives the trip through 64 unsigned bits.\<close>

lemma to_index_type_of:
  assumes "of_index_type t n"
  shows "to_index_type t (word_of_int n) = n"
proof (cases "index_type_is_signed t")
  case True
  let ?b = "8 * index_type_bytes t - 1"
  have n: "- (2 ^ ?b) \<le> n" "n < 2 ^ ?b" using assms True by (simp_all add: of_index_type_def)
  have "(2 :: int) ^ ?b \<le> 2 ^ 63" using index_type_bits(2) [of t] by (intro power_increasing) auto
  with n have "signed_take_bit 63 n = n" by (intro signed_take_bit_int_eq_self) auto
  then show ?thesis using True n by (simp add: to_index_type_def signed_of_int signed_take_bit_int_eq_self)
next
  case False
  let ?b = "8 * index_type_bytes t"
  have n: "0 \<le> n" "n < 2 ^ ?b" using assms False by (simp_all add: of_index_type_def)
  have "(2 :: int) ^ ?b \<le> 2 ^ 64" using index_type_bits(2) [of t] by (intro power_increasing) auto
  with n have "take_bit 64 n = n" by (intro take_bit_int_eq_self) auto
  then show ?thesis
    using False n by (simp add: to_index_type_def unsigned_of_int take_bit_int_eq_self)
qed

section \<open>What is launched\<close>

text \<open>What the types of Kokkos's policies promise of the values in them.\<close>

fun well_typed_policy :: "kokkos_policy \<Rightarrow> bool" where
  "well_typed_policy (Kokkos_Scalar n) \<longleftrightarrow> True"
| "well_typed_policy (Kokkos_Range p) \<longleftrightarrow>
     of_index_type (kr_index_type p) (kr_begin p) \<and> of_index_type (kr_index_type p) (kr_end p) \<and>
     - (2 ^ 31) \<le> kr_chunk_size p \<and> kr_chunk_size p < 2 ^ 31"
| "well_typed_policy (Kokkos_Mdrange p) \<longleftrightarrow>
     length (km_lower p) = km_rank p \<and> length (km_upper p) = km_rank p \<and> length (km_tile p) = km_rank p \<and>
     km_outer_direction p \<noteq> Kokkos_Default \<and> km_inner_direction p \<noteq> Kokkos_Default"
| "well_typed_policy (Kokkos_Team p) \<longleftrightarrow>
     (\<forall>n \<in> set_option (kt_team_size p). \<not> n <s 0) \<and> (\<forall>n \<in> set_option (kt_vector_length p). \<not> n <s 0)"

text \<open>The functor can be called as the policy calls it.\<close>

fun callable :: "functor_signature \<Rightarrow> kokkos_policy \<Rightarrow> bool" where
  "callable fs (Kokkos_Scalar n) \<longleftrightarrow> supports_n_args fs 1"
| "callable fs (Kokkos_Range p) \<longleftrightarrow> supports_n_args fs 1"
| "callable fs (Kokkos_Mdrange p) \<longleftrightarrow> supports_n_args fs (km_rank p)"
| "callable fs (Kokkos_Team p) \<longleftrightarrow> is_team_functor fs (kt_space p) (kt_schedule p) (kt_index_type p)"

lemma range_well_typed: "well_typed_policy (get_range_policy sp sc t (to_index_type t lo) (to_index_type t up) ch)"
  using sint_range_size [of ch] to_index_type_range
  by (simp add: get_range_policy_def word_size)

lemma mdrange_well_typed:
  assumes "get_mdrange_policy rank outer inner sp sc t lo up ti = Inr p"
    and "outer \<noteq> Kokkos_Default" and "inner \<noteq> Kokkos_Default" and "supports_n_args fs rank"
  shows "well_typed_policy p \<and> callable fs p"
  using assms by (auto simp: get_mdrange_policy_def split: if_splits)

lemma team_well_typed:
  "well_typed_policy (get_team_policy sp sc t ts ls vl t0 t1 h0 h1 ch)"
  "callable fs (get_team_policy sp sc t ts ls vl t0 t1 h0 h1 ch) \<longleftrightarrow> is_team_functor fs sp sc t"
  by (simp_all add: get_team_policy_def new_team_policy_def Let_def)



end
