(* ===== verification/Policy_Roundtrip.thy ===== *)
theory Policy_Roundtrip
  imports Replay_Policy Dump_Roundtrip
begin

text \<open>
  An execution policy from the application to the replay: what \<open>register_bounds\<close> tells the
  tool is stored in the dump, read back by the replayer and visited by \<open>parallel_for\<close>,
  which launches the kernel with the policy the application used.
\<close>

section \<open>Policies a replayer can launch\<close>

text \<open>
  The replayer's build has the execution space, the functor can be called, and the policy
  says nothing the description leaves out: a scratch size that cannot be queried is lost.
\<close>

definition launchable_space :: "replay_build \<Rightarrow> string \<Rightarrow> bool" where
  "launchable_space rb space \<longleftrightarrow> space \<in> set exec_space_names \<and> space \<in> set (rb_exec_spaces rb)"

definition plain_extent :: "i32 option \<Rightarrow> bool" where
  "plain_extent e = (case e of None \<Rightarrow> True | Some n \<Rightarrow> \<not> n <s 0)"

fun launchable ::
  "extractor_build \<Rightarrow> replay_build \<Rightarrow> functor_signature \<Rightarrow> kokkos_policy \<Rightarrow> bool" where
  "launchable eb rb fs (Kokkos_Scalar n) \<longleftrightarrow> supports_n_args fs 1"
| "launchable eb rb fs (Kokkos_Range p) \<longleftrightarrow>
     supports_n_args fs 1 \<and> launchable_space rb (kr_space p) \<and>
     of_index_type (kr_index_type p) (kr_begin p) \<and> of_index_type (kr_index_type p) (kr_end p) \<and>
     - (2 ^ 31) \<le> kr_chunk_size p \<and> kr_chunk_size p < 2 ^ 31"
| "launchable eb rb fs (Kokkos_Mdrange p) \<longleftrightarrow>
     supports_n_args fs (km_rank p) \<and> launchable_space rb (km_space p) \<and>
     (2 \<le> km_rank p \<and> km_rank p \<le> 6 \<or> km_rank p = 1 \<and> rb_kokkos_5_2 rb) \<and>
     km_outer_direction p \<noteq> Kokkos_Default \<and> km_inner_direction p \<noteq> Kokkos_Default \<and>
     length (km_lower p) = km_rank p \<and> length (km_upper p) = km_rank p \<and> length (km_tile p) = km_rank p"
| "launchable eb rb fs (Kokkos_Team p) \<longleftrightarrow>
     is_team_functor fs (kt_space p) (kt_schedule p) (kt_index_type p) \<and> launchable_space rb (kt_space p) \<and>
     plain_extent (kt_team_size p) \<and> plain_extent (kt_vector_length p) \<and>
     (if supports_querying_scratch_size eb (kt_space p) then kt_team_scratch_0 p \<noteq> -1
      else kt_team_scratch_0 p = 0 \<and> kt_team_scratch_1 p = 0 \<and>
           kt_thread_scratch_0 p = 0 \<and> kt_thread_scratch_1 p = 0)"

lemma index_type_props_back:
  "get_policy_index_type_from_props (index_type_is_signed t) (of_nat (index_type_bytes t)) = Inr t"
  by (cases t) (simp_all add: get_policy_index_type_from_props_def)

lemma schedule_back: "get_policy_schedule_from_name (schedule_to_string s) = Inr s"
  by (cases s) (simp_all add: get_policy_schedule_from_name_def schedule_to_string_def)

lemma direction_back:
  assumes "d \<noteq> Kokkos_Default"
  obtains name dir where "iteration_pattern_to_string d = Inr name" and "iterate_dir_of_name name = Inr dir"
    and "kokkos_dir dir = d"
  using assms by (cases d) (auto simp: iteration_pattern_to_string_def iterate_dir_of_name_def)

lemma expected_traits_back:
  assumes "launchable_space rb space"
  shows "expected_traits rb \<lparr>it_size = of_nat (index_type_bytes t), it_signed = index_type_is_signed t\<rparr>
    space (schedule_to_string s) = Some (t, s, space)"
  using assms index_type_props_back [of t] schedule_back [of s]
  by (simp add: expected_traits_def launchable_space_def get_policy_exec_space_from_name_def right_def)

section \<open>The trip of each kind of policy\<close>

text \<open>
  \<open>policy\<close>, told to the tool by \<open>c\<close>, comes back as what \<open>parallel_for\<close> launches.
\<close>

definition comes_back ::
  "replay_build \<Rightarrow> functor_signature \<Rightarrow> kokkos_policy \<Rightarrow> policy_desc \<Rightarrow> bool" where
  "comes_back rb fs policy desc \<longleftrightarrow>
     (\<exists>pv. expected_policy rb desc = Some pv \<and>
        (\<forall>label (functor :: addr).
           parallel_for_visitor fs label functor pv = Inr (Some (Launch label policy functor))))"

lemma range_comes_back:
  assumes "launchable eb rb fs (Kokkos_Range p)" and "policy_call eb (Kokkos_Range p) = Some c"
  shows "comes_back rb fs (Kokkos_Range p) (policy_of (hooks_act c h))"
proof -
  have "sint (word_of_int (kr_chunk_size p) :: i32) = kr_chunk_size p"
    using assms(1) by (simp add: signed_of_int signed_take_bit_int_eq_self)
  then show ?thesis
    using assms by (auto simp: comes_back_def hook_defs expected_traits_back visit_range_def
      get_range_policy_def to_index_type_of)
qed

lemma rank_back:
  assumes "2 \<le> k \<and> k \<le> 6 \<or> k = 1 \<and> rb_kokkos_5_2 rb"
  shows "expected_rank rb (of_nat k) = Some k" and "unat (of_nat k :: u64) = k"
proof -
  have "k = 1 \<and> rb_kokkos_5_2 rb \<or> k = 2 \<or> k = 3 \<or> k = 4 \<or> k = 5 \<or> k = 6" using assms by auto
  then show "expected_rank rb (of_nat k) = Some k" "unat (of_nat k :: u64) = k"
    by (auto simp: expected_rank_def)
qed

lemma mdrange_comes_back:
  assumes ok: "launchable eb rb fs (Kokkos_Mdrange p)" and c: "policy_call eb (Kokkos_Mdrange p) = Some c"
  shows "comes_back rb fs (Kokkos_Mdrange p) (policy_of (hooks_act c h))"
proof -
  have rank: "2 \<le> km_rank p \<and> km_rank p \<le> 6 \<or> km_rank p = 1 \<and> rb_kokkos_5_2 rb"
    and dirs: "km_outer_direction p \<noteq> Kokkos_Default" "km_inner_direction p \<noteq> Kokkos_Default"
    using ok by simp_all
  obtain outer od where outer: "iteration_pattern_to_string (km_outer_direction p) = Inr outer"
    "iterate_dir_of_name outer = Inr od" "kokkos_dir od = km_outer_direction p"
    using direction_back [OF dirs(1)] .
  obtain inner id where inner: "iteration_pattern_to_string (km_inner_direction p) = Inr inner"
    "iterate_dir_of_name inner = Inr id" "kokkos_dir id = km_inner_direction p"
    using direction_back [OF dirs(2)] .
  have arrays: "List.map ((!) (km_lower p)) [0..<km_rank p] = km_lower p"
    "List.map ((!) (km_upper p)) [0..<km_rank p] = km_upper p"
    "List.map ((!) (km_tile p)) [0..<km_rank p] = km_tile p"
    using ok map_nth [of "km_lower p"] map_nth [of "km_upper p"] map_nth [of "km_tile p"] by auto
  have "expected_policy rb (policy_of (hooks_act c h)) = Some (Replay_Mdrange
      \<lparr>rm_begin = km_lower p, rm_end = km_upper p, rm_tile = km_tile p, rm_index_type = km_index_type p,
       rm_schedule = km_schedule p, rm_exec_space = km_space p, rm_rank = km_rank p,
       rm_outer_dir = od, rm_inner_dir = id\<rparr>)"
  proof -
    have "launchable_space rb (km_space p)" "length (km_lower p) = km_rank p"
      "length (km_upper p) = km_rank p" "length (km_tile p) = km_rank p" using ok by simp_all
    moreover have "c = E_Mdrange_Policy (km_space p) (schedule_to_string (km_schedule p)) (of_nat (km_rank p))
        outer inner (of_nat (index_type_bytes (km_index_type p))) (index_type_is_signed (km_index_type p))
        (km_lower p) (km_upper p) (km_tile p)"
      using c outer inner arrays by simp
    ultimately show ?thesis
      using outer inner rank_back [OF rank] by (simp add: hook_defs expected_traits_back right_def)
  qed
  moreover have "visit_mdrange fs label fn
      \<lparr>rm_begin = km_lower p, rm_end = km_upper p, rm_tile = km_tile p, rm_index_type = km_index_type p,
       rm_schedule = km_schedule p, rm_exec_space = km_space p, rm_rank = km_rank p,
       rm_outer_dir = od, rm_inner_dir = id\<rparr> = Inr (Some (Launch label (Kokkos_Mdrange p) fn))" for label fn
    using ok outer(3) inner(3)
    by (cases od; cases id) (simp_all add: visit_mdrange_def get_mdrange_policy_def arrays)
  ultimately show ?thesis by (auto simp: comes_back_def)
qed

lemma team_comes_back:
  assumes "launchable eb rb fs (Kokkos_Team p)" and "policy_call eb (Kokkos_Team p) = Some c"
  shows "comes_back rb fs (Kokkos_Team p) (policy_of (hooks_act c h))"
  using assms
  by (auto simp: comes_back_def hook_defs expected_traits_back visit_team_def get_team_policy_def
    new_team_policy_def plain_extent_def Let_def split: option.splits if_splits)

lemma policy_comes_back:
  assumes "launchable eb rb fs policy" and "policy_call eb policy = Some c"
  shows "comes_back rb fs policy (policy_of (hooks_act c h))"
proof (cases policy)
  case (Kokkos_Scalar n)
  then show ?thesis using assms by (auto simp: comes_back_def hook_defs)
qed (use assms range_comes_back mdrange_comes_back team_comes_back in blast)+

lemma launchable_call: "launchable eb rb fs policy \<Longrightarrow> \<exists>c. policy_call eb policy = Some c"
proof (cases policy)
  case (Kokkos_Mdrange p)
  assume "launchable eb rb fs policy"
  with Kokkos_Mdrange have "km_outer_direction p \<noteq> Kokkos_Default" "km_inner_direction p \<noteq> Kokkos_Default"
    by simp_all
  with Kokkos_Mdrange show ?thesis by (elim direction_back) simp
qed (simp_all add: Let_def)

end
