(* ===== verification/Functor_Replay.thy ===== *)
theory Functor_Replay
  imports Extractor_Contract Replayer
begin

text \<open>
  Reviving a functor (\<open>FunctorRestoreGuard\<close> and \<open>replay_functor\<close> in
  \<open>src/krepe/replay/kernel_replayer.hpp\<close>, \<open>init_functor\<close> and
  \<open>init_extended_lambda_host_closure\<close> in \<open>kernel_replayer.cpp\<close>): the bytes of a temporary
  functor are replaced by the captured ones while it is copied, and put back before it is
  destroyed.  With NVCC's extended lambdas the host closures are replaced as well, and the
  pointers to them keep their values.
\<close>

section \<open>Overwriting memory of the process\<close>

type_synonym ('o, 'a) functor_prog = "('o replayer, 'a) prog"

definition host_memory_of :: "'o replayer \<Rightarrow> memory" where
  "host_memory_of s = mc_host (rp_machine s)"

definition host_memcpy :: "addr \<Rightarrow> byte list \<Rightarrow> ('o, unit) functor_prog" where
  "host_memcpy p bytes s =
     (Inr (), s\<lparr>rp_machine := (rp_machine s)\<lparr>mc_host := write_bytes p bytes (host_memory_of s)\<rparr>\<rparr>)"

definition init_functor :: "addr \<Rightarrow> nat \<Rightarrow> ('o, unit) functor_prog" where
  "init_functor buffer sz s =
     (if length (rp_functor_data s) < sz
      then throw (Std_Exception
        (''The stored functor is smaller than the requested functor, expected at most '' @
         to_string (length (rp_functor_data s)) @ ''B, got '' @ to_string sz @ ''B'')) s
      else host_memcpy buffer (take sz (rp_functor_data s)) s)"

definition init_extended_lambda_host_closure ::
  "addr \<Rightarrow> nat \<Rightarrow> nat \<Rightarrow> nat \<Rightarrow> ('o, unit) functor_prog" where
  "init_extended_lambda_host_closure buffer sz offset total_size s =
     (if total_size \<noteq> length (rp_nvcc_data s)
      then throw (Std_Exception
        (''The stored NVCC host closures have a different total size, expected '' @
         to_string total_size @ ''B, got '' @ to_string (length (rp_nvcc_data s)) @
         ''B. Recapture the kernel with the current extractor.'')) s
      else if offset > total_size \<or> sz > total_size - offset
      then throw (Std_Exception
        (''The NVCC host closure exceeds the stored data: offset='' @ to_string offset @
         ''B, size='' @ to_string sz @ ''B, total_size='' @ to_string total_size @ ''B'')) s
      else host_memcpy buffer (take sz (drop offset (rp_nvcc_data s))) s)"

section \<open>The guard\<close>

record host_closure =
  hc_buffer_ptr :: addr
  hc_buffer :: addr
  hc_original :: "byte list"

record functor_guard =
  fg_storage :: addr
  fg_original :: "byte list"
  fg_host_closures :: "host_closure list"

definition save_closure :: "memory \<Rightarrow> hdl_visit \<Rightarrow> (host_closure list, unit) prog" where
  "save_closure mem v closures =
     (Inr (), closures @ [\<lparr>hc_buffer_ptr = hv_slot v, hc_buffer = hv_buffer v,
                           hc_original = read_bytes mem (hv_buffer v) (hv_size v)\<rparr>])"

text \<open>The constructor, the member \<open>execute\<close> and the destructor, for a functor of type \<open>t\<close>.\<close>

definition construct_FunctorRestoreGuard ::
  "bool \<Rightarrow> captured_type \<Rightarrow> addr \<Rightarrow> ('o, functor_guard) functor_prog" where
  "construct_FunctorRestoreGuard nvcc_hdl_workaround t functor s =
     (let mem = host_memory_of s;
          original = read_bytes mem functor (size_of t);
          (r, closures) =
            (if nvcc_hdl_workaround \<and> is_hdl t
             then visit_hdl_host_lambdas mem (save_closure mem) t functor []
             else (Inr (), []))
      in case r of
           Inl e \<Rightarrow> (Inl e, s)
         | Inr _ \<Rightarrow> (Inr \<lparr>fg_storage = functor, fg_original = original, fg_host_closures = closures\<rparr>, s))"

definition restore_closure :: "nat \<Rightarrow> host_closure \<Rightarrow> nat \<Rightarrow> ('o, nat) functor_prog" where
  "restore_closure total_size closure offset =
     and_then (host_memcpy (hc_buffer_ptr closure) (pointer_bytes (hc_buffer closure))) (\<lambda>_.
     and_then (init_extended_lambda_host_closure (hc_buffer closure) (length (hc_original closure))
       offset total_size) (\<lambda>_.
     done_with (offset + length (hc_original closure))))"

definition execute_guard :: "bool \<Rightarrow> functor_guard \<Rightarrow> ('o, unit) functor_prog" where
  "execute_guard nvcc_hdl_workaround g =
     and_then (init_functor (fg_storage g) (length (fg_original g))) (\<lambda>_.
     if \<not> nvcc_hdl_workaround then done_with ()
     else
       let total_size = sum_list (List.map (\<lambda>c. length (hc_original c)) (fg_host_closures g)) in
       and_then (fold_each (restore_closure total_size) (fg_host_closures g) 0) (\<lambda>_. done_with ()))"

definition destroy_FunctorRestoreGuard :: "functor_guard \<Rightarrow> ('o, unit) functor_prog" where
  "destroy_FunctorRestoreGuard g =
     and_then (for_each (\<lambda>c. host_memcpy (hc_buffer c) (hc_original c)) (rev (fg_host_closures g))) (\<lambda>_.
     host_memcpy (fg_storage g) (fg_original g))"

section \<open>Reviving\<close>

text \<open>
  The class of the functor: its copy constructor (from, to; the argument says whether
  Kokkos tracks shared allocations) and its destructor, which does not throw.
\<close>

record 'o functor_class =
  fc_type :: captured_type
  fc_copy :: "bool \<Rightarrow> addr \<Rightarrow> addr \<Rightarrow> ('o, unit) functor_prog"
  fc_destroy :: "bool \<Rightarrow> addr \<Rightarrow> 'o replayer \<Rightarrow> 'o replayer"

text \<open>A block with an object in scope: its destructor runs on the way out, not after an abort.\<close>

definition in_scope :: "('w, 'a) prog \<Rightarrow> ('w, unit) prog \<Rightarrow> ('w, 'a) prog" where
  "in_scope body destructor s =
     (case body s of
        (Inl Abort, s1) \<Rightarrow> (Inl Abort, s1)
      | (r, s1) \<Rightarrow> (case destructor s1 of
            (Inl _, s2) \<Rightarrow> (Inl Abort, s2)
          | (Inr _, s2) \<Rightarrow> (r, s2)))"

text \<open>
  \<open>replay_functor\<close>.  The state is Kokkos's tracking flag and the replayer.  The guard that
  disables tracking exists only if it was enabled; it enables it again.
\<close>

definition with_tracking :: "('o, 'a) functor_prog \<Rightarrow> (bool \<times> 'o replayer, 'a) prog" where
  "with_tracking m bs = (let (r, s) = m (snd bs) in (r, (fst bs, s)))"

definition replay_functor ::
  "bool \<Rightarrow> 'o functor_class \<Rightarrow> addr \<Rightarrow> addr \<Rightarrow> addr \<Rightarrow> (bool \<times> 'o replayer, unit) prog" where
  "replay_functor nvcc_hdl_workaround fc functor working_copy returned_functor bs =
     (let enabled = fst bs in
      in_scope
        (and_then (with_tracking (fc_copy fc False functor working_copy)) (\<lambda>_.
         in_scope
           (and_then (with_tracking (construct_FunctorRestoreGuard nvcc_hdl_workaround (fc_type fc) working_copy)) (\<lambda>g.
            in_scope
              (and_then (with_tracking (execute_guard nvcc_hdl_workaround g)) (\<lambda>_.
               with_tracking (fc_copy fc False working_copy returned_functor)))
              (with_tracking (destroy_FunctorRestoreGuard g))))
           (\<lambda>bs. (Inr (), (fst bs, fc_destroy fc False working_copy (snd bs))))))
        (\<lambda>bs. (Inr (), (enabled, snd bs)))
        (False, snd bs))"

section \<open>What the guard changes\<close>

definition with_host :: "memory \<Rightarrow> 'o replayer \<Rightarrow> 'o replayer" where
  "with_host m s = s\<lparr>rp_machine := (rp_machine s)\<lparr>mc_host := m\<rparr>\<rparr>"

lemma with_host_simps [simp]:
  "host_memory_of (with_host m s) = m" "with_host m (with_host m' s) = with_host m s"
  "with_host (host_memory_of s) s = s"
  "rp_functor_data (with_host m s) = rp_functor_data s" "rp_nvcc_data (with_host m s) = rp_nvcc_data s"
  by (simp_all add: with_host_def host_memory_of_def)

lemma host_memcpy_run [simp]:
  "host_memcpy p bytes s = (Inr (), with_host (write_bytes p bytes (host_memory_of s)) s)"
  by (simp add: host_memcpy_def with_host_def)

text \<open>A step that writes only to the cells of \<open>A\<close>, and does not abort.\<close>

definition writes_within :: "addr set \<Rightarrow> ('o, 'a) functor_prog \<Rightarrow> bool" where
  "writes_within A prog \<longleftrightarrow>
     (\<forall>s. fst (prog s) \<noteq> Inl Abort \<and>
        (\<exists>m. snd (prog s) = with_host m s \<and> (\<forall>x. x \<notin> A \<longrightarrow> m x = host_memory_of s x)))"

lemma writes_within_step:
  assumes "\<And>s. fst (prog s) \<noteq> Inl Abort" and "\<And>s. snd (prog s) = s \<or>
    (\<exists>bytes. cells p (length bytes) \<subseteq> A \<and> snd (prog s) = with_host (write_bytes p bytes (host_memory_of s)) s)"
  shows "writes_within A prog"
  unfolding writes_within_def
proof (intro allI conjI assms(1))
  fix s
  consider "snd (prog s) = s" | bytes where "cells p (length bytes) \<subseteq> A"
      "snd (prog s) = with_host (write_bytes p bytes (host_memory_of s)) s"
    using assms(2) by blast
  then show "\<exists>m. snd (prog s) = with_host m s \<and> (\<forall>x. x \<notin> A \<longrightarrow> m x = host_memory_of s x)"
  proof cases
    case 1
    then show ?thesis by (intro exI [of _ "host_memory_of s"]) simp
  next
    case 2
    then show ?thesis
      by (intro exI [of _ "write_bytes p bytes (host_memory_of s)"]) (meson subsetD write_bytes_outside)
  qed
qed

lemma writes_within_done [intro]: "writes_within A (done_with x)"
  by (rule writes_within_step) (simp_all add: done_with_def)

lemma writes_within_memcpy: "cells p (length bytes) \<subseteq> A \<Longrightarrow> writes_within A (host_memcpy p bytes)"
  by (rule writes_within_step [where p = p]) auto

lemma writes_within_and_then:
  assumes "writes_within A m" and "\<And>x. writes_within A (f x)"
  shows "writes_within A (and_then m f)"
  unfolding writes_within_def
proof (intro allI conjI)
  fix s
  obtain r s1 where run: "m s = (r, s1)" by fastforce
  obtain h1 where h1: "s1 = with_host h1 s" "\<forall>x. x \<notin> A \<longrightarrow> h1 x = host_memory_of s x" and r: "r \<noteq> Inl Abort"
    using assms(1) run by (metis fst_conv snd_conv writes_within_def)
  show "fst (and_then m f s) \<noteq> Inl Abort"
    using run r assms(2) by (auto simp: and_then_def writes_within_def split: sum.split)
  show "\<exists>h. snd (and_then m f s) = with_host h s \<and> (\<forall>x. x \<notin> A \<longrightarrow> h x = host_memory_of s x)"
  proof (cases r)
    case (Inl e)
    then show ?thesis using run h1 by (auto simp: and_then_def)
  next
    case (Inr y)
    obtain h2 where "snd (f y s1) = with_host h2 s1" "\<forall>x. x \<notin> A \<longrightarrow> h2 x = host_memory_of s1 x"
      using assms(2) [of y] by (auto simp: writes_within_def)
    then show ?thesis using run h1 Inr by (auto simp: and_then_def)
  qed
qed

lemma writes_within_if:
  "(P \<Longrightarrow> writes_within A m) \<Longrightarrow> (\<not> P \<Longrightarrow> writes_within A n) \<Longrightarrow> writes_within A (if P then m else n)"
  by simp

lemma writes_within_fold:
  "(\<And>x y. x \<in> set xs \<Longrightarrow> writes_within A (f x y)) \<Longrightarrow> writes_within A (fold_each f xs y)"
  by (induction xs arbitrary: y) (auto intro!: writes_within_and_then)

lemma writes_within_init_functor: "cells p n \<subseteq> A \<Longrightarrow> writes_within A (init_functor p n)"
  by (rule writes_within_step [where p = p])
    (auto simp: init_functor_def throw_def intro!: exI [of _ "take n (rp_functor_data _)"])

lemma writes_within_init_closure:
  "cells p n \<subseteq> A \<Longrightarrow> writes_within A (init_extended_lambda_host_closure p n k tot)"
  by (rule writes_within_step [where p = p])
    (auto simp: init_extended_lambda_host_closure_def throw_def not_less min_absorb2
      intro!: exI [of _ "take n (drop k (rp_nvcc_data _))"])

section \<open>What the guard holds\<close>

definition closure_of :: "memory \<Rightarrow> hdl_visit \<Rightarrow> host_closure" where
  "closure_of mem v = \<lparr>hc_buffer_ptr = hv_slot v, hc_buffer = hv_buffer v,
     hc_original = read_bytes mem (hv_buffer v) (hv_size v)\<rparr>"

lemma closure_of_simps [simp]:
  "hc_buffer_ptr (closure_of mem v) = hv_slot v" "hc_buffer (closure_of mem v) = hv_buffer v"
  "hc_original (closure_of mem v) = read_bytes mem (hv_buffer v) (hv_size v)"
  by (simp_all add: closure_of_def)

lemma save_closures: "for_each (save_closure mem) vs cs = (Inr (), cs @ List.map (closure_of mem) vs)"
  by (induction vs arbitrary: cs) (simp_all add: and_then_def done_with_def save_closure_def closure_of_def)

text \<open>The closures the guard of a functor saves.\<close>

definition saved_visits :: "bool \<Rightarrow> memory \<Rightarrow> captured_type \<Rightarrow> addr \<Rightarrow> hdl_visit list" where
  "saved_visits nvcc_hdl_workaround mem t f = (if nvcc_hdl_workaround then hdl_visits mem t f else [])"

definition guard_for :: "bool \<Rightarrow> memory \<Rightarrow> captured_type \<Rightarrow> addr \<Rightarrow> functor_guard" where
  "guard_for wk mem t f =
     \<lparr>fg_storage = f, fg_original = read_bytes mem f (size_of t),
      fg_host_closures = List.map (closure_of mem) (saved_visits wk mem t f)\<rparr>"

lemma construct_guard:
  "construct_FunctorRestoreGuard wk t f s = (Inr (guard_for wk (host_memory_of s) t f), s)"
  by (cases "is_hdl t")
    (simp_all add: construct_FunctorRestoreGuard_def guard_for_def saved_visits_def visit_visits(1)
      save_closures Let_def)

lemma execute_within:
  assumes "layout_ok t"
  shows "writes_within (cells f (size_of t) \<union> closure_cells (saved_visits wk mem t f))
    (execute_guard wk (guard_for wk mem t f))"
proof -
  let ?vs = "saved_visits wk mem t f"
  let ?A = "cells f (size_of t) \<union> closure_cells ?vs"
  have "slots_seen (cells f (size_of t)) ?vs"
    using visits_seen(1) [OF assms, of f] by (simp add: saved_visits_def)
  from slots_seen_within [OF this] have slots: "slot_cells ?vs \<subseteq> ?A" .
  have "writes_within ?A (restore_closure tot (closure_of mem v) k)" if "v \<in> set ?vs" for v k tot
  proof -
    have "cells (hv_slot v) 8 \<subseteq> ?A" "cells (hv_buffer v) (hv_size v) \<subseteq> ?A"
      using that slots by (auto simp: slot_cells_def closure_cells_def)
    then show ?thesis
      unfolding restore_closure_def
      by (intro writes_within_and_then writes_within_memcpy writes_within_init_closure writes_within_done)
        simp_all
  qed
  then show ?thesis
    unfolding execute_guard_def Let_def guard_for_def
    by (intro writes_within_and_then writes_within_if writes_within_done writes_within_init_functor
      writes_within_fold) auto
qed

text \<open>The destructor puts the saved bytes back.\<close>

definition put_back :: "memory \<Rightarrow> addr set \<Rightarrow> memory \<Rightarrow> memory" where
  "put_back saved A m = (\<lambda>x. if x \<in> A then saved x else m x)"

lemma put_back_write:
  "write_bytes p (read_bytes saved p n) (put_back saved A m) = put_back saved (A \<union> cells p n) m"
  by (rule ext) (auto simp: put_back_def write_bytes_inside [unfolded cells_def] write_bytes_def cells_def
    read_bytes_def)

lemma destroy_puts_back:
  "destroy_FunctorRestoreGuard (guard_for wk mem t f) s =
     (Inr (), with_host (put_back mem (cells f (size_of t) \<union> closure_cells (saved_visits wk mem t f))
        (host_memory_of s)) s)"
proof -
  have "for_each (\<lambda>c. host_memcpy (hc_buffer c) (hc_original c)) (List.map (closure_of mem) vs)
      (with_host (put_back mem A m) s) = (Inr (), with_host (put_back mem (A \<union> closure_cells vs) m) s)"
    for vs A and m :: memory
    by (induction vs arbitrary: A) (simp_all add: done_with_def and_then_def put_back_write Un_assoc)
  from this [of "rev (saved_visits wk mem t f)" "{}" "host_memory_of s"]
  have "for_each (\<lambda>c. host_memcpy (hc_buffer c) (hc_original c))
      (rev (List.map (closure_of mem) (saved_visits wk mem t f))) s =
      (Inr (), with_host (put_back mem (closure_cells (saved_visits wk mem t f)) (host_memory_of s)) s)"
    by (simp add: rev_map put_back_def closure_cells_def)
  then show ?thesis
    by (simp add: destroy_FunctorRestoreGuard_def guard_for_def and_then_def put_back_write Un_commute)
qed

text \<open>
  Property C12.  \<open>FunctorRestoreGuard\<close> is transparent: whatever \<open>execute\<close> does (it may throw
  in the middle, when the dump's functor or closures do not fit), after the destructor the
  state of the program is the one from before, down to every byte of the functor, of its
  host closures and of the pointers to them.
\<close>

theorem guard_undoes:
  assumes "layout_ok t"
  shows "\<exists>g. construct_FunctorRestoreGuard wk t f s = (Inr g, s) \<and>
    in_scope (execute_guard wk g) (destroy_FunctorRestoreGuard g) s = (fst (execute_guard wk g s), s)"
proof (intro exI conjI)
  let ?g = "guard_for wk (host_memory_of s) t f"
  show "construct_FunctorRestoreGuard wk t f s = (Inr ?g, s)" by (rule construct_guard)
  obtain r m where run: "execute_guard wk ?g s = (r, with_host m s)" and r: "r \<noteq> Inl Abort"
    and out: "\<forall>x. x \<notin> cells f (size_of t) \<union> closure_cells (saved_visits wk (host_memory_of s) t f) \<longrightarrow>
      m x = host_memory_of s x"
    using execute_within [OF assms, of f wk "host_memory_of s"]
    unfolding writes_within_def by (metis prod.collapse)
  have "put_back (host_memory_of s) (cells f (size_of t) \<union>
      closure_cells (saved_visits wk (host_memory_of s) t f)) m = host_memory_of s"
    using out by (auto simp: put_back_def)
  then have "destroy_FunctorRestoreGuard ?g (with_host m s) = (Inr (), s)"
    by (simp add: destroy_puts_back)
  then show "in_scope (execute_guard wk ?g) (destroy_FunctorRestoreGuard ?g) s =
      (fst (execute_guard wk ?g s), s)"
    using run r by (auto simp: in_scope_def split: sum.split exn.split)
qed

section \<open>What the functor holds while it is copied\<close>

text \<open>
  Memory with the closures \<open>vs\<close> replaced by the bytes \<open>data\<close>, one after the other, and the
  slots pointing to them.
\<close>

fun patched :: "hdl_visit list \<Rightarrow> byte list \<Rightarrow> memory \<Rightarrow> memory" where
  "patched [] data m = m"
| "patched (v # vs) data m =
     patched vs (drop (hv_size v) data)
       (write_bytes (hv_buffer v) (take (hv_size v) data)
         (write_bytes (hv_slot v) (pointer_bytes (hv_buffer v)) m))"

lemma restore_closure_run:
  assumes "tot = length (rp_nvcc_data s)" and "k + hv_size v \<le> tot"
  shows "restore_closure tot (closure_of mem v) k (with_host m s) =
    (Inr (k + hv_size v), with_host (write_bytes (hv_buffer v) (take (hv_size v) (drop k (rp_nvcc_data s)))
       (write_bytes (hv_slot v) (pointer_bytes (hv_buffer v)) m)) s)"
proof -
  have "\<not> (k > tot \<or> hv_size v > tot - k)" using assms(2) by arith
  then show ?thesis
    using assms(1) by (simp add: restore_closure_def and_then_def done_with_def
      init_extended_lambda_host_closure_def)
qed

lemma restore_closures_run:
  assumes "tot = length (rp_nvcc_data s)" and "k + sum_list (List.map hv_size vs) \<le> tot"
  shows "fold_each (restore_closure tot) (List.map (closure_of mem) vs) k (with_host m s) =
    (Inr (k + sum_list (List.map hv_size vs)), with_host (patched vs (drop k (rp_nvcc_data s)) m) s)"
  using assms(2)
proof (induction vs arbitrary: k m)
  case (Cons v vs)
  then have "k + hv_size v \<le> tot" by simp
  with Cons restore_closure_run [OF assms(1) this] show ?case
    by (simp add: and_then_def drop_drop add.commute add.left_commute)
qed (simp add: done_with_def)

text \<open>
  Closures are heap objects apart from each other and from the functor (\<open>A\<close>), and a slot
  overlaps no other slot.
\<close>

fun closures_apart :: "addr set \<Rightarrow> hdl_visit list \<Rightarrow> bool" where
  "closures_apart A [] = True"
| "closures_apart A (v # vs) \<longleftrightarrow>
     cells (hv_buffer v) (hv_size v) \<inter> A = {} \<and> cells (hv_slot v) 8 \<inter> slot_cells vs = {} \<and>
     closures_apart (A \<union> cells (hv_buffer v) (hv_size v)) vs"

lemma patched_outside:
  assumes "closures_apart A vs" and "x \<in> A" and "x \<notin> slot_cells vs"
    and "sum_list (List.map hv_size vs) \<le> length data"
  shows "patched vs data m x = m x"
  using assms
proof (induction vs arbitrary: A data m)
  case (Cons v vs)
  have out: "x \<notin> cells (hv_buffer v) (hv_size v)" "x \<notin> cells (hv_slot v) 8"
    using Cons.prems by auto
  have "patched (v # vs) data m x = write_bytes (hv_buffer v) (take (hv_size v) data)
      (write_bytes (hv_slot v) (pointer_bytes (hv_buffer v)) m) x"
    using Cons.prems by (simp add: Cons.IH [of "A \<union> cells (hv_buffer v) (hv_size v)"])
  also have "\<dots> = m x"
    using out Cons.prems(4) by (simp add: write_bytes_outside min_absorb2)
  finally show ?case .
qed simp

lemma read_pointer_cong:
  assumes "\<forall>x \<in> cells a 8. m x = m' x"
  shows "read_pointer m a = read_pointer m' a"
proof -
  have "read_bytes m a 8 = read_bytes m' a 8"
    using assms by (auto simp: read_bytes_def cells_def unat_of_nat)
  then show ?thesis by (simp add: read_pointer_def)
qed

lemma patched_slots:
  assumes "closures_apart A vs" and "slots_seen A vs" and "v \<in> set vs"
    and "sum_list (List.map hv_size vs) \<le> length data"
  shows "read_pointer (patched vs data m) (hv_slot v) = hv_buffer v"
  using assms
proof (induction vs arbitrary: A data m)
  case (Cons u us)
  let ?B = "A \<union> cells (hv_buffer u) (hv_size u)"
  let ?m = "write_bytes (hv_buffer u) (take (hv_size u) data)
    (write_bytes (hv_slot u) (pointer_bytes (hv_buffer u)) m)"
  show ?case
  proof (cases "v \<in> set us")
    case True
    then show ?thesis using Cons.prems Cons.IH [of ?B] by simp
  next
    case False
    then have v: "v = u" using Cons.prems(3) by simp
    have "patched us (drop (hv_size u) data) ?m x = write_bytes (hv_slot u) (pointer_bytes (hv_buffer u)) m x"
      if x: "x \<in> cells (hv_slot u) 8" for x
    proof -
      have "x \<in> A" "x \<notin> slot_cells us" "x \<notin> cells (hv_buffer u) (hv_size u)"
        using x Cons.prems(1,2) by auto
      then show ?thesis
        using Cons.prems(1,4) by (simp add: patched_outside [of ?B] write_bytes_outside min_absorb2)
    qed
    then have "read_pointer (patched (u # us) data m) (hv_slot u) =
        read_pointer (write_bytes (hv_slot u) (pointer_bytes (hv_buffer u)) m) (hv_slot u)"
      by (intro read_pointer_cong) simp
    then show ?thesis by (simp add: v)
  qed
qed simp

text \<open>Each closure gets its chunk of the data.\<close>

lemma patched_closures:
  assumes "closures_apart A vs" and "list_all2 (\<lambda>v bytes. length bytes = hv_size v) vs chunks"
  shows "list_all2 (\<lambda>v bytes. \<forall>x \<in> cells (hv_buffer v) (hv_size v) - slot_cells vs.
    patched vs (concat chunks) m x = bytes ! unat (x - hv_buffer v)) vs chunks"
  using assms
proof (induction vs arbitrary: A m chunks)
  case (Cons v vs)
  obtain bytes rest where chunks: "chunks = bytes # rest" and len: "length bytes = hv_size v"
    and more: "list_all2 (\<lambda>v bytes. length bytes = hv_size v) vs rest"
    using Cons.prems(2) by (auto simp: list_all2_Cons1)
  let ?B = "A \<union> cells (hv_buffer v) (hv_size v)"
  let ?m = "write_bytes (hv_buffer v) bytes (write_bytes (hv_slot v) (pointer_bytes (hv_buffer v)) m)"
  have apart: "closures_apart ?B vs" using Cons.prems(1) by simp
  have step: "patched (v # vs) (concat chunks) m = patched vs (concat rest) ?m"
    using len by (simp add: chunks)
  have total: "sum_list (List.map hv_size vs) \<le> length (concat rest)"
    using more by (induction rule: list_all2_induct) simp_all
  have first: "patched vs (concat rest) ?m x = bytes ! unat (x - hv_buffer v)"
    if "x \<in> cells (hv_buffer v) (hv_size v)" "x \<notin> slot_cells vs" for x
    using that len patched_outside [OF apart _ _ total] by (simp add: write_bytes_def cells_def)
  have later: "list_all2 (\<lambda>u bytes. \<forall>x \<in> cells (hv_buffer u) (hv_size u) - slot_cells vs.
      patched vs (concat rest) ?m x = bytes ! unat (x - hv_buffer u)) vs rest"
    by (rule Cons.IH [OF apart more])
  show ?case
    unfolding chunks step [unfolded chunks]
    using first by (auto intro: list_all2_mono [OF later])
qed simp

section \<open>The captured functor\<close>

text \<open>
  What the extractor gives to the capture tool: the bytes of the functor and, when the
  workaround for NVCC's lambdas is compiled in, those of the host closures.
\<close>

definition captured_closures :: "bool \<Rightarrow> memory \<Rightarrow> captured_type \<Rightarrow> addr \<Rightarrow> byte list" where
  "captured_closures wk mem t f = (if wk \<and> is_hdl t then closure_bytes mem t f else [])"

definition functor_call :: "bool \<Rightarrow> memory \<Rightarrow> captured_type \<Rightarrow> addr \<Rightarrow> extractor_call" where
  "functor_call wk mem t f =
     (if wk \<and> is_hdl t then E_Copy_Nvcc_Lambda (read_bytes mem f (size_of t)) (closure_bytes mem t f)
      else E_Copy_Functor (read_bytes mem f (size_of t)))"

lemma extract_functor_call:
  "extract_functor lk wk (done_with ()) mem t f =
     and_then (make_call lk (functor_call wk mem t f)) (\<lambda>_. done_with ())"
  by (simp add: extract_functor_def functor_call_def copy_nvcc_functor_bytes and_then_assoc)

lemma as_passed_functor [simp]: "as_passed (functor_call wk mem t f) = functor_call wk mem t f"
  by (simp add: functor_call_def)

lemma functor_stored:
  "functor_data (hooks_act (functor_call wk mem t f) h) = read_bytes mem f (size_of t)"
  "nvcc_inner_lambda_data (hooks_act (functor_call wk mem t f) h) = captured_closures wk mem t f"
  by (simp_all add: functor_call_def captured_closures_def hook_defs)

lemma extracted_functor:
  assumes "extract_functor capture_linkage wk (done_with ()) mem t f (h, initial_extractor) = (Inr (), (h', e))"
  shows "functor_data h' = read_bytes mem f (size_of t)"
    and "nvcc_inner_lambda_data h' = captured_closures wk mem t f"
proof -
  have "h' = hooks_act (functor_call wk mem t f) h"
    using assms by (simp add: extract_functor_call and_then_def first_call done_with_def del: make_call.simps)
  then show "functor_data h' = read_bytes mem f (size_of t)"
    "nvcc_inner_lambda_data h' = captured_closures wk mem t f" by (simp_all add: functor_stored)
qed

lemma same_sizes:
  "List.map hv_size (saved_visits wk mem t f) = List.map hv_size (saved_visits wk mem' t f')"
  by (simp add: saved_visits_def visited_sizes)

lemma captured_chunks:
  assumes "wk"
  shows "captured_closures wk mem t f =
      concat (List.map (\<lambda>u. read_bytes mem (hv_buffer u) (hv_size u)) (saved_visits wk mem t f))"
    and "length (captured_closures wk mem t f) = sum_list (List.map hv_size (saved_visits wk mem t f))"
  using assms by (simp_all add: captured_closures_def saved_visits_def closure_bytes_def length_concat comp_def)

lemma read_bytes_nth: "x \<in> cells a n \<Longrightarrow> read_bytes m b n ! unat (x - a) = m (b + (x - a))"
  by (simp add: cells_def read_bytes_def)

lemma execute_revives:
  fixes s :: "'o replayer"
  assumes "layout_ok t" and "closures_apart (cells f (size_of t)) (saved_visits wk (host_memory_of s) t f)"
    and fd: "rp_functor_data s = read_bytes captured f0 (size_of t)"
    and nd: "wk \<longrightarrow> rp_nvcc_data s = captured_closures wk captured t f0"
  defines "vs \<equiv> saved_visits wk (host_memory_of s) t f"
  shows "\<exists>m. execute_guard wk (guard_for wk (host_memory_of s) t f) s = (Inr (), with_host m s) \<and>
    saved_visits wk m t f = vs \<and>
    (\<forall>x \<in> cells f (size_of t) - slot_cells vs. m x = captured (f0 + (x - f))) \<and>
    list_all2 (\<lambda>v u. \<forall>x \<in> cells (hv_buffer v) (hv_size v) - slot_cells vs.
      m x = captured (hv_buffer u + (x - hv_buffer v))) vs (saved_visits wk captured t f0)"
proof -
  let ?us = "saved_visits wk captured t f0" and ?A = "cells f (size_of t)"
  let ?copied = "write_bytes f (read_bytes captured f0 (size_of t)) (host_memory_of s)"
  let ?m = "if wk then patched vs (rp_nvcc_data s) ?copied else ?copied"
  have total: "wk \<Longrightarrow> sum_list (List.map hv_size vs) = length (rp_nvcc_data s)"
    using nd captured_chunks(2) [of wk captured t f0] same_sizes [of wk "host_memory_of s" t f captured f0]
    by (simp add: vs_def)
  have inside: "?copied x = captured (f0 + (x - f))" if "x \<in> ?A" for x
    using that by (simp add: write_bytes_def read_bytes_nth) (simp add: cells_def)
  have exec: "execute_guard wk (guard_for wk (host_memory_of s) t f) s = (Inr (), with_host ?m s)"
    using fd total restore_closures_run [where k = 0 and vs = vs and m = ?copied and s = s and mem = "host_memory_of s", OF refl]
    by (simp add: execute_guard_def guard_for_def init_functor_def and_then_def done_with_def
      vs_def [symmetric] comp_def)
  moreover have "saved_visits wk ?m t f = vs"
  proof (cases wk)
    case True
    have vs: "vs = hdl_visits (host_memory_of s) t f" using True by (simp add: vs_def saved_visits_def)
    have seen: "slots_seen ?A vs" unfolding vs by (rule visits_seen(1) [OF assms(1) order_refl])
    have "read_pointer (patched vs (rp_nvcc_data s) ?copied) (hv_slot v) = hv_buffer v" if "v \<in> set vs" for v
      by (rule patched_slots [OF assms(2) [folded vs_def] seen that]) (simp add: total [OF True])
    then have "hdl_visits (patched vs (rp_nvcc_data s) ?copied) t f = vs"
      unfolding vs by (intro visits_cong(1) ballI)
    then show ?thesis using True by (simp add: saved_visits_def)
  qed (simp add: vs_def saved_visits_def)
  moreover have "?m x = captured (f0 + (x - f))" if "x \<in> ?A - slot_cells vs" for x
  proof (cases wk)
    case True
    have "patched vs (rp_nvcc_data s) ?copied x = ?copied x"
      using that by (intro patched_outside [OF assms(2) [folded vs_def]]) (simp_all add: total [OF True])
    then show ?thesis using True inside [of x] that by simp
  qed (use inside [of x] that in simp)
  moreover have "list_all2 (\<lambda>v u. \<forall>x \<in> cells (hv_buffer v) (hv_size v) - slot_cells vs.
      ?m x = captured (hv_buffer u + (x - hv_buffer v))) vs ?us"
  proof (cases wk)
    case True
    let ?chunks = "List.map (\<lambda>u. read_bytes captured (hv_buffer u) (hv_size u)) ?us"
    have sizes: "list_all2 (\<lambda>v u. hv_size v = hv_size u) vs ?us"
      using same_sizes [of wk "host_memory_of s" t f captured f0]
      by (simp add: vs_def list_all2_conv_all_nth list_eq_iff_nth_eq)
    then have "list_all2 (\<lambda>v bytes. length bytes = hv_size v) vs ?chunks"
      by (simp add: list_all2_map2) (erule list_all2_mono, simp)
    from patched_closures [OF assms(2) [folded vs_def] this, of ?copied]
    have "list_all2 (\<lambda>v u. \<forall>x \<in> cells (hv_buffer v) (hv_size v) - slot_cells vs.
        ?m x = read_bytes captured (hv_buffer u) (hv_size u) ! unat (x - hv_buffer v)) vs ?us"
      using True nd captured_chunks(1) [OF True, of captured t f0] by (simp add: list_all2_map2)
    with sizes show ?thesis
      by (auto simp: list_all2_conv_all_nth read_bytes_nth)
  qed (simp add: vs_def saved_visits_def)
  ultimately show ?thesis by blast
qed

text \<open>
  Property C11.  A functor survives the capture.  When the extractor has copied a functor of
  some type into the capture tool and the replayer holds those bytes, \<open>execute\<close> on a
  temporary functor of the same type succeeds and leaves every byte of the temporary and of
  its host closures equal to the captured one, closure by closure, except for the pointers
  to the closures, which keep pointing to the replaying process's own.
\<close>

theorem functor_revived:
  fixes s :: "'o replayer"
  assumes "layout_ok t" and "closures_apart (cells f (size_of t)) (saved_visits wk (host_memory_of s) t f)"
    and "extract_functor capture_linkage wk (done_with ()) captured t f0 (h, initial_extractor) = (Inr (), (h', e))"
    and "rp_functor_data s = functor_data h'" and "rp_nvcc_data s = nvcc_inner_lambda_data h'"
  shows "\<exists>g m. construct_FunctorRestoreGuard wk t f s = (Inr g, s) \<and> execute_guard wk g s = (Inr (), with_host m s) \<and>
    saved_visits wk m t f = saved_visits wk (host_memory_of s) t f \<and>
    (\<forall>x \<in> cells f (size_of t) - slot_cells (saved_visits wk m t f). m x = captured (f0 + (x - f))) \<and>
    list_all2 (\<lambda>v u. \<forall>x \<in> cells (hv_buffer v) (hv_size v) - slot_cells (saved_visits wk m t f).
      m x = captured (hv_buffer u + (x - hv_buffer v))) (saved_visits wk m t f) (saved_visits wk captured t f0)"
  using execute_revives [OF assms(1,2), of captured f0] extracted_functor [OF assms(3)] assms(4,5)
    construct_guard [of wk t f s] by auto

text \<open>
  A lambda of 24 bytes that captures another of 16 bytes: their closures are at 0x2000 and,
  for the copy in the captures and the one in the host closure, at 0x3000 and 0x4000.
\<close>

definition example_lambda :: captured_type where
  "example_lambda = Hdl \<lparr>hl_size = 24, hl_align = 8, hl_data = 16, hl_host_size = 16\<rparr>
     [Hdl \<lparr>hl_size = 16, hl_align = 8, hl_data = 8, hl_host_size = 4\<rparr> [Plain 4 4]]"

definition example_lambda_memory :: memory where
  "example_lambda_memory =
     (\<lambda>x. if x = 0x1011 then 0x20 else if x = 0x1009 then 0x30 else if x = 0x2009 then 0x40 else 0)"

definition example_functor_replayer :: "unit replayer" where
  "example_functor_replayer = (initial_replayer \<lparr>mc_os = (), mc_host = example_lambda_memory, mc_device = \<lambda>_. 0\<rparr>)
     \<lparr>rp_functor_data := read_bytes (\<lambda>_. 7) 0 24, rp_nvcc_data := []\<rparr>"

theorem guard_undoes_witness:
  "\<exists>g. construct_FunctorRestoreGuard True example_lambda 0x1000 example_functor_replayer = (Inr g, example_functor_replayer) \<and>
     in_scope (execute_guard True g) (destroy_FunctorRestoreGuard g) example_functor_replayer =
       (fst (execute_guard True g example_functor_replayer), example_functor_replayer)"
  by (rule guard_undoes) (simp add: example_lambda_def align_offset_def)

text \<open>The captured process: the same pointers, and 9 everywhere else.\<close>

definition example_captured :: memory where
  "example_captured =
     (\<lambda>x. if x \<in> {0x1010..<0x1018} \<union> {0x1008..<0x1010} \<union> {0x2008..<0x2010} then example_lambda_memory x else 9)"

definition example_visits :: "hdl_visit list" where
  "example_visits =
     [\<lparr>hv_functor = 0x1000, hv_slot = 0x1010, hv_buffer = 0x2000, hv_size = 16\<rparr>,
      \<lparr>hv_functor = 0x1000, hv_slot = 0x1008, hv_buffer = 0x3000, hv_size = 4\<rparr>,
      \<lparr>hv_functor = 0x2000, hv_slot = 0x2008, hv_buffer = 0x4000, hv_size = 4\<rparr>]"

lemma example_pointers:
  "read_pointer example_lambda_memory 0x1010 = 0x2000" "read_pointer example_lambda_memory 0x1008 = 0x3000"
  "read_pointer example_lambda_memory 0x2008 = 0x4000"
  by (simp_all add: read_pointer_def read_bytes_def example_lambda_memory_def upt_rec)

lemma example_lambda_visits: "hdl_visits example_lambda_memory example_lambda 0x1000 = example_visits"
  by (simp add: example_lambda_def example_visits_def align_offset_def example_pointers)

lemma example_apart: "closures_apart (cells 0x1000 24) example_visits"
  by (simp add: example_visits_def Int_Un_distrib cells_disjoint)

theorem functor_revived_witness:
  "\<exists>g m. let h = hooks_act (functor_call True example_captured example_lambda 0x1000) (initial_hooks ());
       s = example_functor_replayer\<lparr>rp_functor_data := functor_data h, rp_nvcc_data := nvcc_inner_lambda_data h\<rparr>
     in construct_FunctorRestoreGuard True example_lambda 0x1000 s = (Inr g, s) \<and>
        execute_guard True g s = (Inr (), with_host m s) \<and> m 0x1000 = 9"
proof -
  let ?h = "hooks_act (functor_call True example_captured example_lambda 0x1000) (initial_hooks ())"
  let ?s = "example_functor_replayer\<lparr>rp_functor_data := functor_data ?h, rp_nvcc_data := nvcc_inner_lambda_data ?h\<rparr>"
  have mem: "host_memory_of ?s = example_lambda_memory"
    by (simp add: host_memory_of_def example_functor_replayer_def initial_replayer_def)
  have vs: "saved_visits True example_lambda_memory example_lambda 0x1000 = example_visits"
    by (simp add: saved_visits_def example_lambda_visits)
  have size: "size_of example_lambda = 24" by (simp add: example_lambda_def)
  have "extract_functor capture_linkage True (done_with ()) example_captured example_lambda 0x1000
      (initial_hooks (), initial_extractor) = (Inr (), (?h, hooks_tool.loaded))"
    by (simp add: extract_functor_call and_then_def first_call done_with_def del: make_call.simps)
  from functor_revived [OF _ _ this, where s = ?s and f = "0x1000"] obtain g m where
    run: "construct_FunctorRestoreGuard True example_lambda 0x1000 ?s = (Inr g, ?s)"
      "execute_guard True g ?s = (Inr (), with_host m ?s)"
    and kept: "saved_visits True m example_lambda 0x1000 = example_visits"
    and bytes: "\<forall>x \<in> cells 0x1000 24 - slot_cells (saved_visits True m example_lambda 0x1000).
      m x = example_captured (0x1000 + (x - 0x1000))"
    unfolding mem vs size using example_apart by (auto simp: example_lambda_def align_offset_def)
  have "(0x1000 :: addr) \<in> cells 0x1000 24 - slot_cells example_visits"
    by (simp add: cells_def example_visits_def)
  with bytes kept have "m 0x1000 = example_captured 0x1000" by auto
  then have "m 0x1000 = 9" by (simp add: example_captured_def)
  with run show ?thesis unfolding Let_def by blast
qed

section \<open>The returned functor\<close>

lemma with_tracking_run: "m s = (r, s') \<Longrightarrow> with_tracking m (b, s) = (r, (b, s'))"
  by (simp add: with_tracking_def)

text \<open>
  Property C18.  \<open>replay_functor\<close>, once the temporary functor has been copied: if the dump's
  bytes do not fit, the exception leaves after the temporary has been destroyed in exactly
  the state its constructor left; otherwise the returned functor is copied from the revived
  temporary, and the temporary and its closures hold their own bytes again when it is
  destroyed.  Kokkos's tracking is off during the copies and as before afterwards.
\<close>

theorem replay_functor_outcome:
  assumes "layout_ok (fc_type fc)" and copy: "fc_copy fc False fn working s = (Inr (), s0)"
  shows "\<exists>g. construct_FunctorRestoreGuard wk (fc_type fc) working s0 = (Inr g, s0) \<and>
    (case execute_guard wk g s0 of
       (Inl e, _) \<Rightarrow>
         replay_functor wk fc fn working returned_fn (b, s) = (Inl e, (b, fc_destroy fc False working s0))
     | (Inr _, s1) \<Rightarrow>
         (\<forall>s2. fc_copy fc False working returned_fn s1 = (Inr (), s2) \<longrightarrow>
            (\<exists>s3. replay_functor wk fc fn working returned_fn (b, s) =
                (Inr (), (b, fc_destroy fc False working s3)) \<and>
              s3 = with_host (put_back (host_memory_of s0)
                (cells working (size_of (fc_type fc)) \<union>
                 closure_cells (saved_visits wk (host_memory_of s0) (fc_type fc) working))
                (host_memory_of s2)) s2)))"
proof (intro exI conjI)
  let ?t = "fc_type fc" and ?m = "host_memory_of s0"
  let ?g = "guard_for wk ?m ?t working"
  let ?A = "cells working (size_of ?t) \<union> closure_cells (saved_visits wk ?m ?t working)"
  show "construct_FunctorRestoreGuard wk ?t working s0 = (Inr ?g, s0)" by (rule construct_guard)
  obtain r m where run: "execute_guard wk ?g s0 = (r, with_host m s0)" and r: "r \<noteq> Inl Abort"
    and out: "\<forall>x. x \<notin> ?A \<longrightarrow> m x = ?m x"
    using execute_within [OF assms(1), of working wk ?m] unfolding writes_within_def by (metis prod.collapse)
  have undone: "put_back ?m ?A m = ?m" using out by (auto simp: put_back_def)
  note steps = replay_functor_def and_then_def with_tracking_def copy construct_guard run destroy_puts_back
  show "case execute_guard wk ?g s0 of
       (Inl e, _) \<Rightarrow>
         replay_functor wk fc fn working returned_fn (b, s) = (Inl e, (b, fc_destroy fc False working s0))
     | (Inr _, s1) \<Rightarrow>
         (\<forall>s2. fc_copy fc False working returned_fn s1 = (Inr (), s2) \<longrightarrow>
            (\<exists>s3. replay_functor wk fc fn working returned_fn (b, s) =
                (Inr (), (b, fc_destroy fc False working s3)) \<and>
              s3 = with_host (put_back ?m ?A (host_memory_of s2)) s2))"
  proof (cases r)
    case (Inl e)
    then show ?thesis
      using r undone by (cases e) (simp_all add: steps in_scope_def)
  next
    case (Inr u)
    then show ?thesis by (auto simp: steps in_scope_def)
  qed
qed

text \<open>A functor of four bytes that is copied byte by byte.\<close>

definition example_class_of_functor :: "unit functor_class" where
  "example_class_of_functor =
     \<lparr>fc_type = Plain 4 4, fc_copy = (\<lambda>_ p q s. host_memcpy q (read_bytes (host_memory_of s) p 4) s),
      fc_destroy = (\<lambda>_ _ s. s)\<rparr>"

theorem replay_functor_outcome_witness:
  "\<exists>s3. replay_functor False example_class_of_functor 0x5000 0x6000 0x7000 (True, example_functor_replayer) =
     (Inr (), (True, s3)) \<and> host_memory_of s3 0x7000 = 7 \<and> host_memory_of s3 0x6000 = 0"
proof -
  let ?fc = example_class_of_functor and ?start = example_functor_replayer
  let ?made = "with_host (write_bytes 0x6000 (read_bytes (host_memory_of ?start) 0x5000 4) (host_memory_of ?start)) ?start"
  have copy: "fc_copy ?fc False 0x5000 0x6000 ?start = (Inr (), ?made)"
    by (simp add: example_class_of_functor_def)
  have data: "rp_functor_data ?start = replicate 24 7"
    by (simp add: example_functor_replayer_def read_bytes_def upt_rec eval_nat_numeral)
  obtain g where g: "construct_FunctorRestoreGuard False (fc_type ?fc) 0x6000 ?made = (Inr g, ?made)"
    and outcome: "case execute_guard False g ?made of
       (Inl e, _) \<Rightarrow> replay_functor False ?fc 0x5000 0x6000 0x7000 (True, ?start) =
           (Inl e, (True, fc_destroy ?fc False 0x6000 ?made))
     | (Inr _, s1) \<Rightarrow>
         (\<forall>s2. fc_copy ?fc False 0x6000 0x7000 s1 = (Inr (), s2) \<longrightarrow>
            (\<exists>s3. replay_functor False ?fc 0x5000 0x6000 0x7000 (True, ?start) =
                (Inr (), (True, fc_destroy ?fc False 0x6000 s3)) \<and>
              s3 = with_host (put_back (host_memory_of ?made)
                (cells 0x6000 (size_of (fc_type ?fc)) \<union>
                 closure_cells (saved_visits False (host_memory_of ?made) (fc_type ?fc) 0x6000))
                (host_memory_of s2)) s2))"
    using replay_functor_outcome [OF _ copy, of False "0x7000" True] by (auto simp: example_class_of_functor_def)
  let ?revived = "with_host (write_bytes 0x6000 (replicate 4 7) (host_memory_of ?made)) ?made"
  have "g = guard_for False (host_memory_of ?made) (fc_type ?fc) 0x6000" using g by (simp add: construct_guard)
  then have "execute_guard False g ?made = (Inr (), ?revived)"
    by (simp add: execute_guard_def guard_for_def init_functor_def and_then_def done_with_def data
      example_class_of_functor_def)
  moreover let ?m1 = "write_bytes 0x6000 (replicate 4 7) (host_memory_of ?made)"
  let ?m2 = "write_bytes 0x7000 (read_bytes ?m1 0x6000 4) ?m1"
  have "fc_copy ?fc False 0x6000 0x7000 ?revived = (Inr (), with_host ?m2 ?revived)"
    by (simp add: example_class_of_functor_def)
  ultimately obtain s3 where s3: "replay_functor False ?fc 0x5000 0x6000 0x7000 (True, ?start) =
      (Inr (), (True, fc_destroy ?fc False 0x6000 s3))"
    "host_memory_of s3 = put_back (host_memory_of ?made) (cells 0x6000 4) ?m2"
    using outcome by (simp add: example_class_of_functor_def saved_visits_def closure_cells_def)
  have start: "host_memory_of ?start 0x5000 = 0"
    by (simp add: host_memory_of_def example_functor_replayer_def initial_replayer_def example_lambda_memory_def)
  have "host_memory_of s3 0x7000 = ?m2 0x7000" "host_memory_of s3 0x6000 = host_memory_of ?made 0x6000"
    unfolding s3(2) by (simp_all add: put_back_def cells_def)
  moreover have "?m2 0x7000 = ?m1 0x6000" by (simp add: write_bytes_def [of "0x7000"] read_bytes_def)
  moreover have "?m1 0x6000 = 7" by (simp add: write_bytes_def)
  moreover have "host_memory_of ?made 0x6000 = 0"
    using start by (simp add: write_bytes_def read_bytes_def)
  ultimately show ?thesis using s3(1) by (simp add: example_class_of_functor_def)
qed

end
