(* ===== verification/Replay_Launch.thy ===== *)
theory Replay_Launch
  imports Functor_Replay Replay_Policy
begin

text \<open>
  The replayer's \<open>parallel_for\<close> (\<open>src/krepe/replay/kernel_replayer.hpp\<close>): revive the
  functor and launch it, with the policy of the dump or with the one the caller forces.
\<close>

section \<open>The launch\<close>

text \<open>The second argument: anything, which is ignored, or the result of \<open>force_policy\<close>.\<close>

datatype policy_argument = Ignored_Policy | Force_Policy kokkos_policy

definition force_policy :: "kokkos_policy \<Rightarrow> policy_argument" where
  "force_policy policy = Force_Policy policy"

text \<open>
  What \<open>Kokkos::parallel_for\<close> is called with, the functor by its address.  Reading the
  policy before a dump has been loaded dereferences an empty optional, here an abort.
\<close>

definition replay_parallel_for ::
  "functor_signature \<Rightarrow> bool \<Rightarrow> 'o functor_class \<Rightarrow> string \<Rightarrow> policy_argument \<Rightarrow> addr \<Rightarrow> addr \<Rightarrow> addr \<Rightarrow>
   (bool \<times> 'o replayer, addr launch option) prog" where
  "replay_parallel_for fs nvcc_hdl_workaround fc label p fn working returned_fn =
     and_then (replay_functor nvcc_hdl_workaround fc fn working returned_fn) (\<lambda>_ bs.
       case p of
         Force_Policy policy \<Rightarrow> done_with (Some (Launch label policy returned_fn)) bs
       | Ignored_Policy \<Rightarrow>
           (case rp_policy (snd bs) of
              None \<Rightarrow> throw Abort bs
            | Some policy \<Rightarrow> (parallel_for_visitor fs label returned_fn policy, bs)))"

section \<open>The functor that is launched\<close>

text \<open>The copies and the destructor of a class that act on host memory alone.\<close>

definition acts_on_memory :: "'o functor_class \<Rightarrow> bool" where
  "acts_on_memory fc \<longleftrightarrow>
     (\<forall>tracking p q s. \<exists>m. fc_copy fc tracking p q s = (Inr (), with_host m s)) \<and>
     (\<forall>tracking p s. \<exists>m. fc_destroy fc tracking p s = with_host m s)"

text \<open>
  The functor at \<open>working\<close> in \<open>m\<close> has the bytes of the captured one at \<open>f\<close>, and so have
  its host closures, except for the pointers between them.
\<close>

definition revived :: "bool \<Rightarrow> captured_type \<Rightarrow> memory \<Rightarrow> addr \<Rightarrow> memory \<Rightarrow> addr \<Rightarrow> bool" where
  "revived wk t captured f m working \<longleftrightarrow>
     (let vs = saved_visits wk m t working in
      (\<forall>x \<in> cells working (size_of t) - slot_cells vs. m x = captured (f + (x - working))) \<and>
      list_all2 (\<lambda>v u. \<forall>x \<in> cells (hv_buffer v) (hv_size v) - slot_cells vs.
        m x = captured (hv_buffer u + (x - hv_buffer v))) vs (saved_visits wk captured t f))"

lemma replay_functor_revives:
  fixes s :: "'o replayer"
  assumes "layout_ok (fc_type fc)" and fc: "acts_on_memory fc"
    and copy: "fc_copy fc False fn working s = (Inr (), with_host m0 s)"
    and apart: "closures_apart (cells working (size_of (fc_type fc))) (saved_visits wk m0 (fc_type fc) working)"
    and "rp_functor_data s = read_bytes captured f (size_of (fc_type fc))"
    and "wk \<longrightarrow> rp_nvcc_data s = captured_closures wk captured (fc_type fc) f"
  obtains m1 m2 m3 where "revived wk (fc_type fc) captured f m1 working"
    and "fc_copy fc False working returned_fn (with_host m1 s) = (Inr (), with_host m2 s)"
    and "replay_functor wk fc fn working returned_fn (b, s) = (Inr (), (b, with_host m3 s))"
proof -
  let ?t = "fc_type fc" and ?s = "with_host m0 s"
  let ?A = "cells working (size_of ?t) \<union> closure_cells (saved_visits wk m0 ?t working)"
  from execute_revives [of ?t working wk ?s captured f] assms
  obtain m1 where run: "execute_guard wk (guard_for wk m0 ?t working) ?s = (Inr (), with_host m1 s)"
    and kept: "saved_visits wk m1 ?t working = saved_visits wk m0 ?t working"
    and bytes: "revived wk ?t captured f m1 working"
    by (auto simp: revived_def)
  obtain m2 where copied: "fc_copy fc False working returned_fn (with_host m1 s) = (Inr (), with_host m2 s)"
    using fc unfolding acts_on_memory_def by (metis with_host_simps(2))
  obtain m3 where destroyed: "fc_destroy fc False working (with_host (put_back m0 ?A m2) s) = with_host m3 s"
    using fc unfolding acts_on_memory_def by (metis with_host_simps(2))
  have "replay_functor wk fc fn working returned_fn (b, s) = (Inr (), (b, with_host m3 s))"
    by (simp add: replay_functor_def and_then_def with_tracking_def copy construct_guard run copied
      destroy_puts_back in_scope_def destroyed)
  with bytes copied show thesis by (rule that)
qed

lemma replay_parallel_for_run:
  assumes "replay_functor wk fc fn working returned_fn (b, s) = (Inr (), (b, with_host m s))"
    and "rp_policy s = Some pv"
  shows "replay_parallel_for fs wk fc label p fn working returned_fn (b, s) =
    ((case p of Ignored_Policy \<Rightarrow> parallel_for_visitor fs label returned_fn pv
        | Force_Policy policy \<Rightarrow> Inr (Some (Launch label policy returned_fn))), (b, with_host m s))"
  using assms by (cases p) (simp_all add: replay_parallel_for_def and_then_def done_with_def with_host_def)



end
