(* ===== verification/Kernel_Roundtrip.thy ===== *)
theory Kernel_Roundtrip
  imports View_Registration Policy_Roundtrip Replay_Launch Capture_Replay Capture_History
begin

text \<open>
  A kernel from the application to the replay: the extractor's \<open>parallel_for\<close> tells the
  capture tool the policy, the views and the functor; the tool's handlers dump them with the
  memory; the replayer reads the dump back and its \<open>parallel_for\<close> launches the kernel.
\<close>

section \<open>What the tool knows when the kernel begins\<close>

text \<open>The statements a compiler plugin inserts, if one is used.\<close>

definition plugin_prologue ::
  "'h linkage \<Rightarrow> (cxx_expr \<Rightarrow> addr) \<Rightarrow> view_info list option \<Rightarrow> ('h, unit) extractor_prog" where
  "plugin_prologue lk data_of views =
     (case views of
        None \<Rightarrow> done_with ()
      | Some vs \<Rightarrow> run_body lk data_of (\<lambda>_. done_with ()) (register_stmts vs))"

definition plugin_calls :: "(cxx_expr \<Rightarrow> addr) \<Rightarrow> view_info list option \<Rightarrow> extractor_call list" where
  "plugin_calls data_of views =
     (case views of
        None \<Rightarrow> []
      | Some vs \<Rightarrow> E_Clear_Views # List.map (\<lambda>v. E_Register_View (data_of (vi_expr v)) (vi_space v)) vs)"

lemma loaded_call:
  "and_then (make_call lk c) (\<lambda>_. done_with ()) (h, hooks_tool.loaded) =
     (Inr (), (hooks_act (as_passed c) h, hooks_tool.loaded))"
  by (simp add: and_then_def hooks_tool.make_call_loaded done_with_def del: make_call.simps)

lemma prologue_calls:
  "plugin_prologue lk data_of views (h, hooks_tool.loaded) =
     (Inr (), (fold hooks_act (plugin_calls data_of views) h, hooks_tool.loaded))"
proof -
  have step: "run_stmt lk data_of src Clear_Registered_Views (h, hooks_tool.loaded) =
      (Inr (), (hooks_act E_Clear_Views h, hooks_tool.loaded))"
    "run_stmt lk data_of src (Register_View_Of e space) (h, hooks_tool.loaded) =
      (Inr (), (hooks_act (E_Register_View (data_of e) space) h, hooks_tool.loaded))" for src e space h
    using loaded_call [of lk E_Clear_Views h] loaded_call [of lk "E_Register_View (data_of e) space" h]
    by (simp_all add: and_then_assoc)
  have "for_each (run_stmt lk data_of src) (List.map (\<lambda>v. Register_View_Of (vi_expr v) (vi_space v)) vs)
      (h, hooks_tool.loaded) =
      (Inr (), (fold hooks_act (List.map (\<lambda>v. E_Register_View (data_of (vi_expr v)) (vi_space v)) vs) h,
        hooks_tool.loaded))" for src vs h
    by (induction vs arbitrary: h) (simp_all add: done_with_def and_then_def step del: run_stmt.simps)
  then show ?thesis
    by (cases views) (simp_all add: plugin_prologue_def plugin_calls_def done_with_def run_body_def
      register_stmts_def and_then_def step del: run_stmt.simps)
qed

text \<open>Asking whether the next invocation will be dumped counts nothing.\<close>

definition asked :: "string \<Rightarrow> 'w hooks \<Rightarrow> 'w hooks" where
  "asked label h = hooks_act (E_Will_Dump label) h"

text \<open>The state of the tool when the extractor launches the kernel.\<close>

definition told ::
  "extractor_call \<Rightarrow> bool \<Rightarrow> (cxx_expr \<Rightarrow> addr) \<Rightarrow> view_info list option \<Rightarrow> memory \<Rightarrow> captured_type \<Rightarrow>
   addr \<Rightarrow> string \<Rightarrow> 'w hooks \<Rightarrow> 'w hooks" where
  "told c wk data_of views mem t f label h =
     hooks_act (functor_call wk mem t f) (fold hooks_act (plugin_calls data_of views)
       (hooks_act c (asked (c_string label) h)))"

lemma extract_tells:
  assumes "hooks_answer (c_string label) h" and c: "policy_call eb policy = Some c"
  shows "extract_parallel_for capture_linkage eb wk (plugin_prologue capture_linkage data_of views) mem run
      label policy t f (h, initial_extractor) =
    run label policy (told c wk data_of views mem t f label h, hooks_tool.loaded)"
proof -
  have will: "next_invocation_will_dump capture_linkage (c_string label) (h, initial_extractor) =
      (Inr True, (hooks_act (E_Will_Dump (c_string label)) h, hooks_tool.loaded))"
    using first_call [of "E_Will_Dump (c_string label)" h] assms(1)
    by (auto simp: and_then_def done_with_def split: prod.splits sum.splits)
  have functor_told: "extract_functor lk wk (plugin_prologue lk data_of views) mem t f (h', hooks_tool.loaded) =
      (Inr (), (hooks_act (functor_call wk mem t f) (fold hooks_act (plugin_calls data_of views) h'),
        hooks_tool.loaded))" for lk h'
  proof -
    have "extract_functor lk wk (plugin_prologue lk data_of views) mem t f =
        and_then (plugin_prologue lk data_of views) (\<lambda>_. extract_functor lk wk (done_with ()) mem t f)"
      by (simp add: extract_functor_def)
    then show ?thesis
      using loaded_call [of lk "functor_call wk mem t f"]
      by (simp add: and_then_def prologue_calls extract_functor_call)
  qed
  have bounds: "register_bounds capture_linkage eb policy (h', hooks_tool.loaded) =
      (Inr (), (hooks_act c h', hooks_tool.loaded))" for h'
    using loaded_call [of capture_linkage c h'] no_policy_call_prog [OF c]
    by (simp add: register_bounds_call [OF c])
  show ?thesis
    by (simp add: extract_parallel_for_def and_then_def will bounds functor_told told_def asked_def)
qed

text \<open>The views and the functor do not touch the policy, nor the others each other's.\<close>

lemma plugin_calls_keep:
  "policy_of (fold hooks_act (plugin_calls data_of views) h) = policy_of h"
  "metadata_of (fold hooks_act (plugin_calls data_of views) h) = metadata_of h"
  "books (fold hooks_act (plugin_calls data_of views) h) = books h"
  "world (fold hooks_act (plugin_calls data_of views) h) = world h"
  "tool_fence (fold hooks_act (plugin_calls data_of views) h) = tool_fence h"
proof -
  have all: "policy_of (fold hooks_act cs g) = policy_of g \<and> metadata_of (fold hooks_act cs g) = metadata_of g \<and>
      books (fold hooks_act cs g) = books g \<and> world (fold hooks_act cs g) = world g \<and>
      tool_fence (fold hooks_act cs g) = tool_fence g"
    if "\<forall>c \<in> set cs. \<exists>p space. c = E_Clear_Views \<or> c = E_Register_View p space" for cs and g :: "'w hooks"
    using that by (induction cs arbitrary: g) (auto simp: hook_defs books_def)
  have "\<forall>c \<in> set (plugin_calls data_of views). \<exists>p space. c = E_Clear_Views \<or> c = E_Register_View p space"
    by (cases views) (auto simp: plugin_calls_def)
  from all [OF this, of h] show "policy_of (fold hooks_act (plugin_calls data_of views) h) = policy_of h"
    "metadata_of (fold hooks_act (plugin_calls data_of views) h) = metadata_of h"
    "books (fold hooks_act (plugin_calls data_of views) h) = books h"
    "world (fold hooks_act (plugin_calls data_of views) h) = world h"
    "tool_fence (fold hooks_act (plugin_calls data_of views) h) = tool_fence h"
    by simp_all
qed

lemma functor_keeps:
  "policy_of (hooks_act (functor_call wk mem t f) h) = policy_of h"
  "metadata_of (hooks_act (functor_call wk mem t f) h) = metadata_of h"
  "books (hooks_act (functor_call wk mem t f) h) = books h"
  "world (hooks_act (functor_call wk mem t f) h) = world h"
  "tool_fence (hooks_act (functor_call wk mem t f) h) = tool_fence h"
  "tracker_of (hooks_act (functor_call wk mem t f) h) = tracker_of h"
  by (simp_all add: functor_call_def hook_defs books_def)

lemma policy_call_keeps:
  assumes "policy_call eb policy = Some c"
  shows "metadata_of (hooks_act c h) = metadata_of h" and "books (hooks_act c h) = books h"
    and "world (hooks_act c h) = world h" and "tool_fence (hooks_act c h) = tool_fence h"
    and "tracker_of (hooks_act c h) = tracker_of h"
  using assms by (cases policy; auto simp: hook_defs books_def Let_def split: sum.splits)+

lemma asked_keeps:
  "metadata_of (asked label h) = metadata_of h" "world (asked label h) = world h"
  "tool_fence (asked label h) = tool_fence h" "tracker_of (asked label h) = tracker_of h"
  "next_kernel_id (asked label h) = next_kernel_id h" "invocations (asked label h) l = invocations h l"
  "dump_kernel_label (asked label h) = dump_kernel_label h"
  "dump_kernel_invocation (asked label h) = dump_kernel_invocation h"
  by (simp_all add: asked_def hook_defs invocations_def Let_def)

text \<open>The tracker after the plugin's statements.\<close>

definition registered ::
  "(cxx_expr \<Rightarrow> addr) \<Rightarrow> view_info list option \<Rightarrow> allocation_tracker \<Rightarrow> allocation_tracker" where
  "registered data_of views tr =
     (case views of
        None \<Rightarrow> tr
      | Some vs \<Rightarrow> fold (\<lambda>v. record_used_allocation (vi_space v) (data_of (vi_expr v))) vs
          (clear_used_allocations tr))"

lemma plugin_calls_registered:
  fixes h :: "'w hooks"
  shows "tracker_of (fold hooks_act (plugin_calls data_of views) h) = registered data_of views (tracker_of h)"
proof -
  have "tracker_of (fold hooks_act (List.map (\<lambda>v. E_Register_View (data_of (vi_expr v)) (vi_space v)) vs) g) =
      fold (\<lambda>v. record_used_allocation (vi_space v) (data_of (vi_expr v))) vs (tracker_of g)" for vs :: "view_info list" and g :: "'w hooks"
    by (induction vs arbitrary: g) (simp_all add: hook_defs)
  then show ?thesis by (cases views) (simp_all add: plugin_calls_def registered_def hook_defs)
qed

lemma told_facts:
  assumes c: "policy_call eb policy = Some c" and g: "g = told c wk data_of views mem t f label h"
  shows "functor_data g = read_bytes mem f (size_of t)"
    and "nvcc_inner_lambda_data g = captured_closures wk mem t f"
    and "policy_of g = policy_of (hooks_act c (asked (c_string label) h))"
    and "metadata_of g = metadata_of h" and "world g = world h" and "tool_fence g = tool_fence h"
    and "books g = books (asked (c_string label) h)"
    and "tracker_of g = registered data_of views (tracker_of h)"
  by (simp_all add: g told_def functor_stored functor_keeps plugin_calls_keep policy_call_keeps [OF c]
    asked_keeps plugin_calls_registered)

lemma told_selected:
  fixes label :: string
  assumes c: "policy_call eb policy = Some c" and "hooks_answer (c_string label) h"
  defines "l \<equiv> c_string label"
  shows "should_dump_views_for_invocation (told c wk data_of views mem t f label h) l (invocations h l + 1)"
    and "invocations (told c wk data_of views mem t f label h) l = invocations h l"
    and "next_kernel_id (told c wk data_of views mem t f label h) = next_kernel_id h"
proof -
  let ?g = "told c wk data_of views mem t f label h"
  have eqs: "next_kernel_id ?g = next_kernel_id h" "kernel_invocations ?g = kernel_invocations (asked l h)"
    "dump_kernel_label ?g = dump_kernel_label h" "dump_kernel_invocation ?g = dump_kernel_invocation h"
    using told_facts(7) [OF c refl, of wk data_of views mem t f label h]
    by (simp_all add: books_def asked_keeps l_def)
  then show "next_kernel_id ?g = next_kernel_id h" by simp
  have "invocations ?g l = invocations (asked l h) l" by (simp add: invocations_def eqs)
  then show "invocations ?g l = invocations h l" by (simp add: asked_keeps)
  show "should_dump_views_for_invocation ?g l (invocations h l + 1)"
    using assms(2) eqs by (simp add: hooks_answer_def krepe_kernel_dump_next_invocation_will_dump_def Let_def
      should_dump_views_for_invocation_def should_dump_views_for_label_def invocations_def l_def)
qed

section \<open>The dump\<close>

text \<open>\<open>Kokkos::parallel_for\<close> up to the kernel: the tool is told that the kernel begins.\<close>

definition begins ::
  "'w capture_context \<Rightarrow> 32 word \<Rightarrow> string \<Rightarrow> kokkos_policy \<Rightarrow> ('w hooks, unit) extractor_prog" where
  "begins cx device_id label policy he =
     (Inr (), (snd (kokkosp_begin_parallel_for cx (Some (c_string label)) device_id (fst he)), snd he))"

text \<open>What the kernel sees of the program when the dump is made.\<close>

definition launch_world :: "32 word \<Rightarrow> 'w hooks \<Rightarrow> 'w" where
  "launch_world device_id h = world (call_fence device_id h)"

definition launch_snapshot ::
  "'w capture_context \<Rightarrow> (cxx_expr \<Rightarrow> addr) \<Rightarrow> view_info list option \<Rightarrow> 'w hooks \<Rightarrow> allocation_snapshot" where
  "launch_snapshot cx data_of views h =
     fst (snapshot (has_compiler_plugins (cx_build cx)) (registered data_of views (tracker_of h)))"

lemma begin_kernel_dumps:
  fixes h :: "'w hooks" and cx :: "'w capture_context"
  assumes "should_dump_views_for_invocation h label (invocations h label + 1)"
    and env: "env = cx_machine cx (launch_world device_id h)" and n: "n = invocations h label + 1"
  obtains r w1 where
    "create_kernel_dump (cx_build cx) env (cx_api cx) (cx_absolute cx)
       (fst (snapshot (has_compiler_plugins (cx_build cx)) (tracker_of h))) (functor_data h)
       (nvcc_inner_lambda_data h) (metadata_of h) (policy_of h) label (next_kernel_id h) n
       (launch_world device_id h) = (r, w1)"
    and "world (snd (begin_kernel cx (Some label) device_id h)) = w1"
    and "kernel_states (snd (begin_kernel cx (Some label) device_id h)) (next_kernel_id h) =
       Some \<lparr>ks_device_id = device_id, ks_invocation = n, ks_dump_path = (if vr_ok r then vr_filename r else [])\<rparr>"
proof -
  obtain r w1 where run: "create_kernel_dump (cx_build cx) env (cx_api cx) (cx_absolute cx)
       (fst (snapshot (has_compiler_plugins (cx_build cx)) (tracker_of h))) (functor_data h)
       (nvcc_inner_lambda_data h) (metadata_of h) (policy_of h) label (next_kernel_id h) n
       (launch_world device_id h) = (r, w1)" by fastforce
  show thesis
  proof (rule that [OF run])
    show "world (snd (begin_kernel cx (Some label) device_id h)) = w1"
      "kernel_states (snd (begin_kernel cx (Some label) device_id h)) (next_kernel_id h) =
       Some \<lparr>ks_device_id = device_id, ks_invocation = n, ks_dump_path = (if vr_ok r then vr_filename r else [])\<rparr>"
      using assms(1) run
      by (auto simp: begin_kernel_def register_kernel_def label_or_unknown_def env n launch_world_def
        dump_input_views_def store_dump_path_def call_fence_def log_line_def log_dump_failure_def
        should_dump_views_for_invocation_def should_dump_views_for_label_def invocations_def Let_def
        split: prod.splits option.splits)
  qed
qed

section \<open>The round trip\<close>

lemma kernel_dumped:
  fixes h :: "'w hooks"
  assumes ext: "extract_parallel_for capture_linkage eb wk (plugin_prologue capture_linkage data_of views) mem
      (begins cx device_id) label policy t f (h, initial_extractor) = (Inr (), (h', e))"
    and c: "policy_call eb policy = Some c" and answer: "hooks_answer (c_string label) h"
    and k: "kernel_states h' (next_kernel_id h) = Some k" "ks_dump_path k \<noteq> []"
  obtains r kid n where
    "create_kernel_dump (cx_build cx) (cx_machine cx (launch_world device_id h)) (cx_api cx) (cx_absolute cx)
       (launch_snapshot cx data_of views h) (read_bytes mem f (size_of t)) (captured_closures wk mem t f)
       (metadata_of h) (policy_of (hooks_act c (asked (c_string label) h))) (c_string label) kid n
       (launch_world device_id h) = (r, world h')"
    and "vr_ok r" and "vr_filename r = ks_dump_path k"
proof -
  let ?l = "c_string label" and ?g = "told c wk data_of views mem t f label h"
  note facts = told_facts [OF c refl, of wk data_of views mem t f label h]
  note sel = told_selected [OF c answer, of wk data_of views mem t f]
  have world: "launch_world device_id ?g = launch_world device_id h"
    by (simp add: launch_world_def call_fence_def facts split: option.split)
  have h': "h' = snd (begin_kernel cx (Some ?l) device_id ?g)"
    using ext extract_tells [OF answer c, of wk data_of views mem "begins cx device_id" t f]
    by (simp add: begins_def kokkosp_begin_parallel_for_def)
  have "should_dump_views_for_invocation ?g ?l (invocations ?g ?l + 1)" using sel by simp
  from begin_kernel_dumps [OF this refl refl, of cx device_id] obtain r w1 where
    run: "create_kernel_dump (cx_build cx) (cx_machine cx (launch_world device_id ?g)) (cx_api cx)
       (cx_absolute cx) (fst (snapshot (has_compiler_plugins (cx_build cx)) (tracker_of ?g))) (functor_data ?g)
       (nvcc_inner_lambda_data ?g) (metadata_of ?g) (policy_of ?g) ?l (next_kernel_id ?g)
       (invocations ?g ?l + 1) (launch_world device_id ?g) = (r, w1)"
    and w1: "world h' = w1"
    and st: "kernel_states h' (next_kernel_id ?g) = Some \<lparr>ks_device_id = device_id,
       ks_invocation = invocations ?g ?l + 1, ks_dump_path = (if vr_ok r then vr_filename r else [])\<rparr>"
    unfolding h' by blast
  have "ks_dump_path k = (if vr_ok r then vr_filename r else [])" using st k(1) sel(3) by simp
  then have ok: "vr_ok r" "vr_filename r = ks_dump_path k" using k(2) by (auto split: if_splits)
  show thesis
    by (rule that [OF run [unfolded facts world w1 [symmetric], folded launch_snapshot_def] ok])
qed

text \<open>
  Any later \<open>parallel_for\<close> of the replayer in state \<open>s\<close>, with any functor of the class whose
  temporary copy does not overlap its host closures, launches the captured functor.
\<close>

definition replay_functor_launched ::
  "replay_build \<Rightarrow> functor_signature \<Rightarrow> 'o functor_class \<Rightarrow> string \<Rightarrow> kokkos_policy \<Rightarrow> memory \<Rightarrow> addr \<Rightarrow>
   'o replayer \<Rightarrow> bool" where
  "replay_functor_launched rb fs fc label policy mem f s \<longleftrightarrow>
     (\<forall>b fn working returned_fn m0. fc_copy fc False fn working s = (Inr (), with_host m0 s) \<longrightarrow>
        closures_apart (cells working (size_of (fc_type fc)))
          (saved_visits (rb_nvcc_hdl_workaround rb) m0 (fc_type fc) working) \<longrightarrow>
        (\<exists>m1 m2 m3. revived (rb_nvcc_hdl_workaround rb) (fc_type fc) mem f m1 working \<and>
           fc_copy fc False working returned_fn (with_host m1 s) = (Inr (), with_host m2 s) \<and>
           replay_parallel_for fs (rb_nvcc_hdl_workaround rb) fc label Ignored_Policy fn working returned_fn (b, s) =
             (Inr (Some (Launch label policy returned_fn)), (b, with_host m3 s))))"

lemma loaded_launches:
  assumes "layout_ok (fc_type fc)" and "acts_on_memory fc"
    and "rp_functor_data s = read_bytes mem f (size_of (fc_type fc))"
    and "rb_nvcc_hdl_workaround rb \<longrightarrow>
      rp_nvcc_data s = captured_closures (rb_nvcc_hdl_workaround rb) mem (fc_type fc) f"
    and pv: "rp_policy s = Some pv"
    and launch: "\<And>returned_fn :: addr.
      parallel_for_visitor fs label returned_fn pv = Inr (Some (Launch label policy returned_fn))"
  shows "replay_functor_launched rb fs fc label policy mem f s"
  unfolding replay_functor_launched_def
proof (intro allI impI)
  fix b fn working returned_fn m0
  assume copy: "fc_copy fc False fn working s = (Inr (), with_host m0 s)"
    and apart: "closures_apart (cells working (size_of (fc_type fc)))
      (saved_visits (rb_nvcc_hdl_workaround rb) m0 (fc_type fc) working)"
  obtain m1 m2 m3 where "revived (rb_nvcc_hdl_workaround rb) (fc_type fc) mem f m1 working"
    "fc_copy fc False working returned_fn (with_host m1 s) = (Inr (), with_host m2 s)"
    and fn: "replay_functor (rb_nvcc_hdl_workaround rb) fc fn working returned_fn (b, s) =
      (Inr (), (b, with_host m3 s))"
    by (rule replay_functor_revives [OF assms(1,2) copy apart assms(3,4)])
  with replay_parallel_for_run [OF fn pv, where fs = fs and label = label and p = Ignored_Policy] launch
  show "\<exists>m1 m2 m3. revived (rb_nvcc_hdl_workaround rb) (fc_type fc) mem f m1 working \<and>
      fc_copy fc False working returned_fn (with_host m1 s) = (Inr (), with_host m2 s) \<and>
      replay_parallel_for fs (rb_nvcc_hdl_workaround rb) fc label Ignored_Policy fn working returned_fn (b, s) =
        (Inr (Some (Launch label policy returned_fn)), (b, with_host m3 s))"
    by auto
qed


end
