(* ===== verification/Kernel_Example.thy ===== *)
theory Kernel_Example
  imports Kernel_Roundtrip Reference_Capture
begin

text \<open>
  A concrete application: it launches \<open>parallel_for(''l'', 4, functor)\<close> with a functor of
  one byte, with the capture tool loaded, on the reference library and platform.
\<close>

definition example_hooks :: "ref_world hooks" where
  "example_hooks = (initial_hooks ref_start)
     \<lparr>tracker_of := record_allocation ''x'' ''Host'' 0x500 0x10100 2 2 True empty_tracker,
      metadata_of := [(''k'', ''v'')], dump_kernel_label := ''l''\<rparr>"

definition example_context :: "ref_world capture_context" where
  "example_context =
     \<lparr>cx_build = example_build, cx_api = ref_api, cx_absolute = Inr, cx_machine = \<lambda>_. example_env,
      cx_malloc_usable_size = \<lambda>_ _. 130, cx_cuda_range = \<lambda>_ _. (None, None),
      cx_hip_range = \<lambda>_ _. (None, None)\<rparr>"

definition example_extractor_build :: extractor_build where
  "example_extractor_build = \<lparr>eb_kokkos_5_3 = False, eb_cuda = False, eb_hip = False, eb_sycl = False\<rparr>"

definition example_signature :: functor_signature where
  "example_signature = \<lparr>supports_n_args = (\<lambda>n. n = 1), is_team_functor = (\<lambda>_ _ _. False)\<rparr>"

definition byte_functor :: "'o functor_class" where
  "byte_functor =
     \<lparr>fc_type = Plain 1 1, fc_copy = (\<lambda>_ p q s. host_memcpy q (read_bytes (host_memory_of s) p 1) s),
      fc_destroy = (\<lambda>_ _ s. s)\<rparr>"

definition example_told :: "ref_world hooks" where
  "example_told = told (E_Scalar_Policy 4) False (\<lambda>_. 0) None (\<lambda>_. 7) (Plain 1 1) 0x900 ''l'' example_hooks"

definition example_begun :: "ref_world hooks" where
  "example_begun = snd (begin_kernel example_context (Some ''l'') 0 example_told)"

lemma c_string_l [simp]: "c_string ''l'' = ''l''"
  by (simp add: c_string_def)

lemma example_answer: "hooks_answer (c_string ''l'') example_hooks"
  by (simp add: hooks_answer_def krepe_kernel_dump_next_invocation_will_dump_def Let_def
    should_dump_views_for_invocation_def should_dump_views_for_label_def invocations_def
    example_hooks_def initial_hooks_def)

lemma example_snapshot_taken: "launch_snapshot example_context data_of None example_hooks = example_snapshot"
  by (simp add: launch_snapshot_def example_context_def example_build_def snapshot_def registered_def
    example_hooks_def record_allocation_def empty_tracker_def example_snapshot_def example_allocation_def
    push_allocations_def push_allocation_def entry_def Let_def)

lemma example_launch_world: "launch_world 0 example_hooks = ref_start"
  by (simp add: launch_world_def call_fence_def example_hooks_def initial_hooks_def)

lemma example_extracted:
  "extract_parallel_for capture_linkage example_extractor_build (rb_nvcc_hdl_workaround example_replay)
     (plugin_prologue capture_linkage (\<lambda>_. 0) None) (\<lambda>_. 7) (begins example_context 0) ''l'' (Kokkos_Scalar 4)
     (fc_type byte_functor) 0x900 (example_hooks, initial_extractor) =
   (Inr (), (example_begun, hooks_tool.loaded))"
  using extract_tells [OF example_answer, of example_extractor_build "Kokkos_Scalar 4" "E_Scalar_Policy 4" False
      "\<lambda>_. 0" None "\<lambda>_. 7" "begins example_context 0" "Plain 1 1" "0x900"]
  by (simp add: example_replay_def byte_functor_def begins_def kokkosp_begin_parallel_for_def example_begun_def
    example_told_def)

lemma example_fields:
  "metadata_of example_hooks = [(''k'', ''v'')]" "next_kernel_id example_hooks = 1"
  "invocations example_hooks label = 0" "world example_hooks = ref_start" "tool_fence example_hooks = None"
  by (simp_all add: example_hooks_def initial_hooks_def invocations_def)

lemma example_told_facts:
  "functor_data example_told = [7]" "nvcc_inner_lambda_data example_told = []"
  "metadata_of example_told = [(''k'', ''v'')]" "policy_of example_told = Scalar_Policy 4"
  "next_kernel_id example_told = 1" "invocations example_told ''l'' = 0"
  "fst (snapshot False (tracker_of example_told)) = example_snapshot" "launch_world 0 example_told = ref_start"
  "should_dump_views_for_invocation example_told ''l'' 1"
proof -
  have c: "policy_call example_extractor_build (Kokkos_Scalar 4) = Some (E_Scalar_Policy 4)" by simp
  note facts = told_facts [OF c example_told_def]
    and sel = told_selected [OF c example_answer, of False "\<lambda>_. 0" None "\<lambda>_. 7" "Plain 1 1" "0x900",
      folded example_told_def, unfolded c_string_l]
  show "functor_data example_told = [7]" "nvcc_inner_lambda_data example_told = []"
    "metadata_of example_told = [(''k'', ''v'')]" "policy_of example_told = Scalar_Policy 4"
    "next_kernel_id example_told = 1" "invocations example_told ''l'' = 0"
    using facts(1-4) sel by (simp_all add: read_bytes_def captured_closures_def hook_defs example_fields upt_rec)
  show "should_dump_views_for_invocation example_told ''l'' 1" using sel(1) by (simp add: example_fields)
  show "fst (snapshot False (tracker_of example_told)) = example_snapshot"
    using example_snapshot_taken [of "\<lambda>_. 0"] facts(8)
    by (simp add: launch_snapshot_def example_context_def example_build_def)
  show "launch_world 0 example_told = ref_start"
    using facts(5,6) by (simp add: launch_world_def call_fence_def example_fields)
qed

lemma example_begins:
  "world example_begun = snd example_dump"
  "kernel_states example_begun 1 =
     Some \<lparr>ks_device_id = 0, ks_invocation = 1, ks_dump_path = vr_filename (fst example_dump)\<rparr>"
proof -
  have "should_dump_views_for_invocation example_told ''l'' (invocations example_told ''l'' + 1)"
    by (simp add: example_told_facts)
  from begin_kernel_dumps [OF this refl refl, of example_context 0] obtain r w1 where
    "create_kernel_dump example_build example_env ref_api Inr example_snapshot [7] [] [(''k'', ''v'')]
       (Scalar_Policy 4) ''l'' 1 1 ref_start = (r, w1)"
    and begun: "world example_begun = w1" "kernel_states example_begun 1 = Some \<lparr>ks_device_id = 0,
       ks_invocation = 1, ks_dump_path = (if vr_ok r then vr_filename r else [])\<rparr>"
    unfolding example_begun_def [symmetric]
    by (auto simp: example_told_facts example_context_def example_build_def)
  then have "r = fst example_dump" "w1 = snd example_dump"
    using example_run by (metis fst_conv, metis snd_conv)
  then show "world example_begun = snd example_dump"
    "kernel_states example_begun 1 =
       Some \<lparr>ks_device_id = 0, ks_invocation = 1, ks_dump_path = vr_filename (fst example_dump)\<rparr>"
    using begun example_dump_ok by simp_all
qed

text \<open>The launch on the replay side.\<close>

lemma byte_functor_acts: "acts_on_memory (byte_functor :: 'o functor_class)"
  by (auto simp: acts_on_memory_def byte_functor_def) (metis with_host_simps(3))


end
