(* ===== verification/Replay_Query.thy ===== *)
theory Replay_Query
  imports Replayer
begin

text \<open>
  Looking the restored allocations up and comparing them with the captured outputs
  (\<open>check_replay_allocations\<close> to \<open>validate_comparison\<close> in
  \<open>src/krepe/replay/kernel_replayer.cpp\<close>, \<open>compare_views\<close> in \<open>kernel_replayer.hpp\<close>).
\<close>

section \<open>Look-ups\<close>

text \<open>
  The allocations of the active guard in one kind of memory.  The order in which the
  multimap is iterated is unspecified: \<open>order\<close> is a parameter that permutes a list.  The
  functions only read the state, and throw or return.
\<close>

definition active_allocations :: "'o replayer \<Rightarrow> memory_space_type \<Rightarrow> stored_allocation list" where
  "active_allocations s space =
     (case rp_replay_allocations s of
        None \<Rightarrow> []
      | Some g \<Rightarrow> List.map snd (filter (\<lambda>(sp, st). sp = space) (sg_allocations (guard_of g s))))"

abbreviation key_of :: "stored_allocation \<Rightarrow> string" where
  "key_of st \<equiv> ra_label (st_descriptor st)"

definition check_replay_allocations ::
  "device_backend \<Rightarrow> memory_space_type \<Rightarrow> 'o replayer \<Rightarrow> exn + unit" where
  "check_replay_allocations backend memory_space s =
     (if \<not> has_device_space backend \<and> memory_space = DEVICE
      then Inl (Std_Exception ''Trying to access device allocations but no device space is enabled'')
      else if rp_replay_allocations s = None
      then Inl (Std_Exception ''No active KREPE replay allocations'')
      else Inr ())"

definition get_allocations ::
  "device_backend \<Rightarrow> (stored_allocation list \<Rightarrow> stored_allocation list) \<Rightarrow> memory_space_type \<Rightarrow>
   string option \<Rightarrow> 'o replayer \<Rightarrow> exn + replay_allocation list" where
  "get_allocations backend order memory_space label s =
     (case check_replay_allocations backend memory_space s of
        Inl e \<Rightarrow> Inl e
      | Inr _ \<Rightarrow>
          let space_allocations = active_allocations s memory_space in
          if space_allocations = [] then Inr []
          else case label of
            Some l \<Rightarrow> Inr (List.map st_descriptor (filter (\<lambda>st. key_of st = l) (order space_allocations)))
          | None \<Rightarrow> Inr (List.map st_descriptor (order space_allocations)))"

definition get_allocations_for_space_name ::
  "device_backend \<Rightarrow> (stored_allocation list \<Rightarrow> stored_allocation list) \<Rightarrow> string \<Rightarrow> string option \<Rightarrow>
   'o replayer \<Rightarrow> exn + replay_allocation list" where
  "get_allocations_for_space_name backend order memory_space label s =
     (case get_allocations backend order (memory_space_type_from_string memory_space) label s of
        Inl e \<Rightarrow> Inl e
      | Inr allocations \<Rightarrow> Inr (filter (\<lambda>a. ra_memory_space a = memory_space) allocations))"

definition get_unique_allocation ::
  "device_backend \<Rightarrow> memory_space_type \<Rightarrow> string \<Rightarrow> 'o replayer \<Rightarrow> exn + replay_allocation option" where
  "get_unique_allocation backend memory_space label s =
     (case check_replay_allocations backend memory_space s of
        Inl e \<Rightarrow> Inl e
      | Inr _ \<Rightarrow>
          let space_allocations = active_allocations s memory_space in
          if space_allocations = [] then Inr None
          else case filter (\<lambda>st. key_of st = label) space_allocations of
            [] \<Rightarrow> Inr None
          | [st] \<Rightarrow> Inr (Some (st_descriptor st))
          | _ \<Rightarrow> Inl (Std_Exception (''Ambiguous allocation label '' @ quoted label @
                    '': use get_allocations to select a descriptor'')))"

definition get_allocation ::
  "device_backend \<Rightarrow> memory_space_type \<Rightarrow> string \<Rightarrow> 'o replayer \<Rightarrow> exn + addr" where
  "get_allocation backend memory_space label s =
     (case get_unique_allocation backend memory_space label s of
        Inl e \<Rightarrow> Inl e
      | Inr None \<Rightarrow> Inr nullptr
      | Inr (Some allocation) \<Rightarrow> Inr (ra_data allocation))"

definition get_out_allocation ::
  "device_backend \<Rightarrow> memory_space_type \<Rightarrow> string \<Rightarrow> 'o replayer \<Rightarrow> exn + addr" where
  "get_out_allocation backend memory_space label s =
     (case get_unique_allocation backend memory_space label s of
        Inl e \<Rightarrow> Inl e
      | Inr None \<Rightarrow> Inr nullptr
      | Inr (Some allocation) \<Rightarrow> Inr (ra_reference_data allocation))"

definition has_out_allocation ::
  "device_backend \<Rightarrow> memory_space_type \<Rightarrow> string \<Rightarrow> 'o replayer \<Rightarrow> exn + bool" where
  "has_out_allocation backend memory_space label s =
     (case get_unique_allocation backend memory_space label s of
        Inl e \<Rightarrow> Inl e
      | Inr None \<Rightarrow> Inr False
      | Inr (Some allocation) \<Rightarrow> Inr (ra_has_reference allocation))"

text \<open>The templates of the interface, with the name of their memory space.\<close>

definition get_allocation_in :: "device_backend \<Rightarrow> string \<Rightarrow> string \<Rightarrow> 'o replayer \<Rightarrow> exn + addr" where
  "get_allocation_in backend space_name label s =
     get_allocation backend (memory_space_type_from_string space_name) label s"

definition get_out_allocation_in :: "device_backend \<Rightarrow> string \<Rightarrow> string \<Rightarrow> 'o replayer \<Rightarrow> exn + addr" where
  "get_out_allocation_in backend space_name label s =
     get_out_allocation backend (memory_space_type_from_string space_name) label s"

definition get_allocations_labelled ::
  "device_backend \<Rightarrow> (stored_allocation list \<Rightarrow> stored_allocation list) \<Rightarrow> string \<Rightarrow> string \<Rightarrow>
   'o replayer \<Rightarrow> exn + replay_allocation list" where
  "get_allocations_labelled backend order space_name label s =
     get_allocations_for_space_name backend order space_name (Some label) s"

definition get_all_allocations ::
  "device_backend \<Rightarrow> (stored_allocation list \<Rightarrow> stored_allocation list) \<Rightarrow> string \<Rightarrow>
   'o replayer \<Rightarrow> exn + replay_allocation list" where
  "get_all_allocations backend order space_name s =
     get_allocations_for_space_name backend order space_name None s"

section \<open>Comparing\<close>

text \<open>The names Kokkos gives to \<open>HostSpace\<close>, \<open>CudaSpace\<close> and \<open>HIPSpace\<close>.\<close>

definition validate_comparison :: "device_backend \<Rightarrow> replay_allocation \<Rightarrow> string \<Rightarrow> exn + unit" where
  "validate_comparison backend allocation memory_space =
     (if \<not> ra_has_input allocation
      then Inl (Std_Exception (''Input allocation '' @ quoted (ra_label allocation) @
        '' is not available in the kernel dump''))
      else if \<not> ra_has_reference allocation
      then Inl (Std_Exception (''Reference output for allocation '' @ quoted (ra_label allocation) @
        '' is not available in the kernel dump''))
      else
        let replay_space =
          (if ra_memory_space allocation = ''Host'' then Inr ''Host''
           else if backend = Cuda_Backend then Inr ''Cuda''
           else if backend = Hip_Backend then Inr ''HIP''
           else Inl (Std_Exception ''Trying to compare device allocations but no device space is enabled''))
        in case replay_space of
             Inl e \<Rightarrow> Inl e
           | Inr replay_space \<Rightarrow>
               if memory_space \<noteq> replay_space
               then Inl (Std_Exception (''Incompatible memory space for allocation '' @ quoted (ra_label allocation)))
               else if ra_size_bytes allocation \<noteq> ra_reference_size_bytes allocation
               then Inl (Std_Exception (''Incompatible byte counts for allocation '' @ quoted (ra_label allocation)))
               else if ra_size_bytes allocation \<noteq> 0 \<and>
                    (ra_data allocation = nullptr \<or> ra_reference_data allocation = nullptr)
               then Inl (Std_Exception (''Missing data for allocation '' @ quoted (ra_label allocation)))
               else Inr ())"

text \<open>
  \<open>compare_views\<close> for a label.  \<open>build\<close> makes an unmanaged view from a pointer and the
  arguments of the caller, \<open>f\<close> is the caller's comparison.
\<close>

definition compare_views ::
  "device_backend \<Rightarrow> string \<Rightarrow> string \<Rightarrow> (addr \<Rightarrow> 'view) \<Rightarrow> ('view \<Rightarrow> 'view \<Rightarrow> 'r) \<Rightarrow> 'o replayer \<Rightarrow> exn + 'r"
where
  "compare_views backend memory_space label build f s =
     (let missing = Inl (Std_Exception (''Reference output for view '' @ quoted label @
            '' is not available in the kernel dump''))
      in case get_unique_allocation backend (memory_space_type_from_string memory_space) label s of
           Inl e \<Rightarrow> Inl e
         | Inr None \<Rightarrow> missing
         | Inr (Some allocation) \<Rightarrow>
             if \<not> ra_has_reference allocation then missing
             else let actual = build (ra_data allocation);
                      expected = build (ra_reference_data allocation)
                  in Inr (f expected actual))"

text \<open>\<open>compare_views\<close> for a view takes the label from it.\<close>

definition compare_views_of_view ::
  "device_backend \<Rightarrow> string \<Rightarrow> ('view \<Rightarrow> string) \<Rightarrow> 'view \<Rightarrow> (addr \<Rightarrow> 'view) \<Rightarrow> ('view \<Rightarrow> 'view \<Rightarrow> 'r) \<Rightarrow>
   'o replayer \<Rightarrow> exn + 'r"
where
  "compare_views_of_view backend memory_space label_of view build f s =
     (let label = label_of view in compare_views backend memory_space label build f s)"

text \<open>
  \<open>compare_views\<close> for a descriptor, with the size of the elements and the number of elements
  a view spans.
\<close>

definition compare_views_of ::
  "device_backend \<Rightarrow> string \<Rightarrow> u64 \<Rightarrow> (addr \<Rightarrow> 'view) \<Rightarrow> ('view \<Rightarrow> u64) \<Rightarrow> ('view \<Rightarrow> 'view \<Rightarrow> 'r) \<Rightarrow>
   replay_allocation \<Rightarrow> exn + 'r"
where
  "compare_views_of backend memory_space value_size build span f allocation =
     (case validate_comparison backend allocation memory_space of
        Inl e \<Rightarrow> Inl e
      | Inr _ \<Rightarrow>
          let actual = build (ra_data allocation) in
          if span actual > ra_size_bytes allocation div value_size
          then Inl (Std_Exception (''Requested view exceeds allocation '' @ quoted (ra_label allocation)))
          else let expected = build (ra_reference_data allocation) in Inr (f expected actual))"

text \<open>The extent of a flat array is inferred from the size.\<close>

definition compare_flat_views ::
  "device_backend \<Rightarrow> string \<Rightarrow> u64 \<Rightarrow> (u64 \<Rightarrow> addr \<Rightarrow> 'view) \<Rightarrow> ('view \<Rightarrow> u64) \<Rightarrow> ('view \<Rightarrow> 'view \<Rightarrow> 'r) \<Rightarrow>
   replay_allocation \<Rightarrow> exn + 'r"
where
  "compare_flat_views backend memory_space value_size build span f allocation =
     (if ra_size_bytes allocation mod value_size \<noteq> 0
      then Inl (Std_Exception (''Incompatible byte counts for allocation '' @ quoted (ra_label allocation)))
      else compare_views_of backend memory_space value_size
             (build (ra_size_bytes allocation div value_size)) span f allocation)"

section \<open>The look-ups agree\<close>

lemma get_allocations_label:
  assumes "check_replay_allocations backend space s = Inr ()" and "\<forall>xs. mset (order xs) = mset xs"
  shows "get_allocations backend order space (Some label) s =
    Inr (List.map st_descriptor (filter (\<lambda>st. key_of st = label) (order (active_allocations s space))))"
proof -
  have "order [] = ([] :: stored_allocation list)" using spec [OF assms(2), of "[]"] by simp
  then show ?thesis using assms(1) by (simp add: get_allocations_def Let_def)
qed

lemma get_unique_cases:
  "get_unique_allocation backend space label s =
     (case check_replay_allocations backend space s of
        Inl e \<Rightarrow> Inl e
      | Inr _ \<Rightarrow>
          (case filter (\<lambda>st. key_of st = label) (active_allocations s space) of
             [] \<Rightarrow> Inr None
           | [st] \<Rightarrow> Inr (Some (st_descriptor st))
           | _ \<Rightarrow> Inl (Std_Exception (''Ambiguous allocation label '' @ quoted label @
                    '': use get_allocations to select a descriptor''))))"
  by (simp add: get_unique_allocation_def Let_def split: sum.split)

text \<open>
  Property C32.  \<open>get_unique_allocation\<close> against \<open>get_allocations\<close>: for any order the
  multimap is iterated in, it throws where that throws, and otherwise returns the only
  descriptor with the label, null if there is none, and the exception about an ambiguous
  label if there are several.
\<close>

theorem unique_allocation_is_the_only_one:
  assumes permutes: "\<forall>xs. mset (order xs) = mset xs"
  shows "get_unique_allocation backend space label s =
    (case get_allocations backend order space (Some label) s of
       Inl e \<Rightarrow> Inl e
     | Inr [] \<Rightarrow> Inr None
     | Inr [allocation] \<Rightarrow> Inr (Some allocation)
     | Inr _ \<Rightarrow> Inl (Std_Exception (''Ambiguous allocation label '' @ quoted label @
         '': use get_allocations to select a descriptor'')))"
proof (cases "check_replay_allocations backend space s")
  case (Inl e)
  then show ?thesis by (simp add: get_unique_allocation_def get_allocations_def)
next
  case (Inr u)
  let ?P = "\<lambda>st. key_of st = label" and ?as = "active_allocations s space"
  have same: "mset (filter ?P (order ?as)) = mset (filter ?P ?as)" using assms by (metis mset_filter)
  consider "filter ?P ?as = []" | st where "filter ?P ?as = [st]"
    | st st' sts where "filter ?P ?as = st # st' # sts"
    by (metis list.exhaust)
  then show ?thesis
  proof cases
    case 1
    then show ?thesis
      using same Inr by (simp add: get_unique_cases get_allocations_label [OF _ permutes])
  next
    case 2
    have "filter ?P (order ?as) = [st]" using same unfolding 2 by (simp del: mset_filter)
    with 2 show ?thesis
      using Inr by (simp add: get_unique_cases get_allocations_label [OF _ permutes])
  next
    case 3
    have "length (filter ?P (order ?as)) = Suc (Suc (length sts))"
      using arg_cong [OF same, of size] unfolding 3 by (simp del: mset_filter)
    then obtain x y zs where "filter ?P (order ?as) = x # y # zs"
      by (auto simp: length_Suc_conv)
    with 3 show ?thesis
      using Inr by (simp add: get_unique_cases get_allocations_label [OF _ permutes])
  qed
qed

theorem unique_allocation_is_the_only_one_witness:
  "get_unique_allocation No_Backend HOST ''v'' (initial_replayer \<lparr>mc_os = (), mc_host = \<lambda>_. 0, mc_device = \<lambda>_. 0\<rparr>) =
     Inl (Std_Exception ''No active KREPE replay allocations'')"
  using unique_allocation_is_the_only_one [of rev No_Backend HOST "''v''"
      "initial_replayer \<lparr>mc_os = (), mc_host = \<lambda>_. 0, mc_device = \<lambda>_. 0\<rparr>"]
  by (simp add: get_allocations_def check_replay_allocations_def initial_replayer_def)

section \<open>Comparisons stay inside the allocations\<close>

lemma validated:
  assumes "validate_comparison backend allocation space = Inr ()"
  shows "ra_has_input allocation" and "ra_has_reference allocation"
    and "ra_size_bytes allocation = ra_reference_size_bytes allocation"
    and "ra_size_bytes allocation \<noteq> 0 \<longrightarrow> ra_data allocation \<noteq> nullptr \<and> ra_reference_data allocation \<noteq> nullptr"
    and "space = (if ra_memory_space allocation = ''Host'' then ''Host''
      else if backend = Cuda_Backend then ''Cuda'' else ''HIP'')"
  using assms by (auto simp: validate_comparison_def Let_def split: if_splits sum.splits)

text \<open>
  Property C15.  \<open>compare_views\<close> on a descriptor never lets the comparison read outside an
  allocation: when the caller's comparison runs, it is given a view of the captured output
  and a view of the restored input, over pointers that are not null unless the allocation
  is empty, both allocations have the same number of bytes, and the elements the view spans
  fit in them; the view's memory space is the one the allocation was restored in.
\<close>

theorem compare_views_in_bounds:
  assumes "compare_views_of backend space value_size build span f allocation = Inr result"
  shows "result = f (build (ra_reference_data allocation)) (build (ra_data allocation)) \<and>
    ra_has_input allocation \<and> ra_has_reference allocation \<and>
    ra_size_bytes allocation = ra_reference_size_bytes allocation \<and>
    (ra_size_bytes allocation \<noteq> 0 \<longrightarrow> ra_data allocation \<noteq> nullptr \<and> ra_reference_data allocation \<noteq> nullptr) \<and>
    unat (span (build (ra_data allocation))) * unat value_size \<le> unat (ra_size_bytes allocation) \<and>
    space = (if ra_memory_space allocation = ''Host'' then ''Host''
      else if backend = Cuda_Backend then ''Cuda'' else ''HIP'')"
proof -
  obtain u where ok: "validate_comparison backend allocation space = Inr u"
    and fits: "\<not> span (build (ra_data allocation)) > ra_size_bytes allocation div value_size"
    and result: "result = f (build (ra_reference_data allocation)) (build (ra_data allocation))"
    using assms by (auto simp: compare_views_of_def Let_def split: sum.splits if_splits)
  have "unat (span (build (ra_data allocation))) \<le> unat (ra_size_bytes allocation) div unat value_size"
    using fits by (simp add: not_less word_le_nat_alt unat_div)
  then have "unat (span (build (ra_data allocation))) * unat value_size \<le>
      unat (ra_size_bytes allocation) div unat value_size * unat value_size" by (rule mult_le_mono1)
  also have "\<dots> \<le> unat (ra_size_bytes allocation)" by (rule div_times_less_eq_dividend)
  finally show ?thesis using validated [of backend allocation space] ok result by simp
qed

theorem compare_views_in_bounds_witness:
  "\<exists>result. compare_views_of No_Backend ''Host'' 8 (\<lambda>p. (p, 2 :: u64)) snd (\<lambda>e a. (fst e, fst a))
     \<lparr>ra_label = ''v'', ra_memory_space = ''Host'', ra_data = 0x1000, ra_size_bytes = 20,
      ra_reference_data = 0x2000, ra_reference_size_bytes = 20, ra_has_input = True,
      ra_has_reference = True\<rparr> = Inr result \<and> result = (0x2000, 0x1000)"
proof -
  let ?a = "\<lparr>ra_label = ''v'', ra_memory_space = ''Host'', ra_data = 0x1000, ra_size_bytes = 20,
      ra_reference_data = 0x2000, ra_reference_size_bytes = 20, ra_has_input = True, ra_has_reference = True\<rparr>"
  have "compare_views_of No_Backend ''Host'' 8 (\<lambda>p. (p, 2 :: u64)) snd (\<lambda>e a. (fst e, fst a)) ?a = Inr (0x2000, 0x1000)"
    by (simp add: compare_views_of_def validate_comparison_def word_less_nat_alt)
  then show ?thesis
    using compare_views_in_bounds [of No_Backend "''Host''" 8 "\<lambda>p. (p, 2 :: u64)" snd "\<lambda>e a. (fst e, fst a)" ?a]
    by auto
qed

end
