(* ===== verification/Query_Roundtrip.thy ===== *)
theory Query_Roundtrip
  imports Capture_Replay Replay_Query
begin

text \<open>
  What a program that replays a dump finds with \<open>get_allocations\<close>: the captured
  allocations of a memory space, as the capture tool recorded them.
\<close>

section \<open>The descriptors of captured allocations\<close>

definition captured_descriptor :: "active_allocation \<Rightarrow> replay_allocation" where
  "captured_descriptor a =
     \<lparr>ra_label = ar_label (aa_record a), ra_memory_space = ar_space (aa_record a),
      ra_data = (if ar_size (aa_record a) \<noteq> 0 then ar_p_data (aa_record a) else nullptr),
      ra_size_bytes = ar_size (aa_record a), ra_reference_data = nullptr, ra_reference_size_bytes = 0,
      ra_has_input = True, ra_has_reference = False\<rparr>"

definition asked_for :: "string \<Rightarrow> string option \<Rightarrow> active_allocation \<Rightarrow> bool" where
  "asked_for space label a \<longleftrightarrow>
     ar_space (aa_record a) = space \<and> (\<forall>l. label = Some l \<longrightarrow> ar_label (aa_record a) = l)"

lemma captured_descriptor_simps [simp]:
  "ra_label (captured_descriptor a) = ar_label (aa_record a)"
  "ra_memory_space (captured_descriptor a) = ar_space (aa_record a)"
  by (simp_all add: captured_descriptor_def)

lemma stored_descriptor [simp]: "st_descriptor (snd (stored_input (captured_entry b env a))) = captured_descriptor a"
  by (simp add: stored_input_def captured_entry_def restored_descriptor_def captured_descriptor_def)

lemma stored_space [simp]:
  "fst (stored_input (captured_entry b env a)) = memory_space_type_from_string (ar_space (aa_record a))"
  by (simp add: stored_input_def captured_entry_def)

lemma active_after_replay:
  assumes "rp_replay_allocations s = Some g" and "rp_guards s g = Some sg"
    and "sg_allocations sg = List.map (\<lambda>a. stored_input (captured_entry b env a)) as"
  shows "active_allocations s space = List.map (\<lambda>a. snd (stored_input (captured_entry b env a)))
    (filter (\<lambda>a. memory_space_type_from_string (ar_space (aa_record a)) = space) as)"
  using assms by (simp add: active_allocations_def guard_of_def filter_map comp_def case_prod_beta')

lemma get_for_space:
  assumes "check_replay_allocations backend (memory_space_type_from_string space) s = Inr ()"
    and permutes: "\<forall>xs. mset (order xs) = mset xs"
    and active: "active_allocations s (memory_space_type_from_string space) = List.map stored as"
    and desc: "\<And>a. st_descriptor (stored a) = captured_descriptor a"
  shows "\<exists>ds. get_allocations_for_space_name backend order space label s = Inr ds \<and>
    mset ds = image_mset captured_descriptor (filter_mset (asked_for space label) (mset as))"
proof -
  have nil: "order [] = ([] :: stored_allocation list)" using spec [OF permutes, of "[]"] by simp
  let ?P = "\<lambda>st. \<forall>l. label = Some l \<longrightarrow> key_of st = l"
  let ?ds = "filter (\<lambda>a. ra_memory_space a = space) (List.map st_descriptor (filter ?P (order (List.map stored as))))"
  have run: "get_allocations_for_space_name backend order space label s = Inr ?ds"
    using assms(1) nil
    by (cases label) (simp_all add: get_allocations_for_space_name_def get_allocations_def active Let_def)
  have "mset ?ds = image_mset st_descriptor (filter_mset (\<lambda>st. ra_memory_space (st_descriptor st) = space \<and> ?P st)
      (mset (order (List.map stored as))))"
    by (simp add: filter_map comp_def filter_filter_mset conj_commute)
  then have "mset ?ds = image_mset st_descriptor (filter_mset (\<lambda>st. ra_memory_space (st_descriptor st) = space \<and> ?P st)
      (image_mset stored (mset as)))"
    by (simp only: spec [OF permutes] mset_map)
  also have "\<dots> = image_mset captured_descriptor (filter_mset (asked_for space label) (mset as))"
    by (induction as) (simp_all add: desc asked_for_def)
  finally show ?thesis using run by (intro exI conjI)
qed


end
