(* ===== verification/Output_Replay.thy ===== *)
theory Output_Replay
  imports Capture_Replay Replay_Buffers
begin

text \<open>
  The reference outputs: what the last pass of the constructor of \<open>ScopeGuard\<close>
  (\<open>allocate_output\<close>, \<open>src/krepe/replay/kernel_replayer.cpp\<close>) leaves in the guard when the
  dump holds the output \<open>append_kernel_output\<close> added.
\<close>

section \<open>Entries with a reference\<close>

text \<open>What a platform and two snapshots need for the outputs to be loaded.\<close>

definition staged :: "'o platform \<Rightarrow> active_allocation \<Rightarrow> bool" where
  "staged pf a \<longleftrightarrow> (ar_size (aa_record a) \<noteq> 0 \<longrightarrow>
     allocate_host_buffer pf (ar_size (aa_record a)) (space_of a) = Inr True)"

definition same_allocation :: "active_allocation \<Rightarrow> active_allocation \<Rightarrow> bool" where
  "same_allocation a a' \<longleftrightarrow> aa_ptr a = aa_ptr a' \<and> ar_space (aa_record a) = ar_space (aa_record a')"

definition outputs_ready ::
  "capture_build \<Rightarrow> capture_env \<Rightarrow> 'o platform \<Rightarrow> allocation_snapshot \<Rightarrow> allocation_snapshot \<Rightarrow> bool" where
  "outputs_ready b env pf sn out \<longleftrightarrow>
     (\<forall>a' \<in> set (sn_allocations out). (\<exists>bytes. fully_dumped b env a' bytes) \<and> staged pf a' \<and>
        (\<exists>a \<in> set (sn_allocations sn). same_allocation a a' \<and> ar_label (aa_record a) = ar_label (aa_record a'))) \<and>
     distinct (List.map (captured_key b env) (sn_allocations out))"

definition output_bytes :: "active_allocation list \<Rightarrow> nat" where
  "output_bytes as = sum_list (List.map (\<lambda>a. unat (ar_size (aa_record a))) as)"

lemma output_bytes_mset: "output_bytes as = sum_mset (image_mset (\<lambda>a. unat (ar_size (aa_record a))) (mset as))"
  by (simp add: output_bytes_def flip: sum_mset_sum_list)

lemma permuted_outputs:
  assumes "mset as = mset as'"
  shows "set as = set as'" and "distinct (List.map f as) = distinct (List.map f as')"
    and "output_bytes as = output_bytes as'"
proof -
  show "set as = set as'" using assms by (metis set_mset_mset)
  have "mset (List.map f as) = mset (List.map f as')" by (simp only: mset_map assms)
  then show "distinct (List.map f as) = distinct (List.map f as')" by (rule mset_eq_imp_distinct_iff)
  show "output_bytes as = output_bytes as'" by (simp only: output_bytes_mset assms)
qed

text \<open>The entry of an allocation that has captured output.\<close>

definition without_reference :: "stored_allocation \<Rightarrow> stored_allocation" where
  "without_reference st = st\<lparr>st_output_seen := False, st_reference := None, st_descriptor := (st_descriptor st)
     \<lparr>ra_reference_data := nullptr, ra_reference_size_bytes := 0, ra_has_reference := False\<rparr>\<rparr>"

definition has_output ::
  "(memory_space_type \<Rightarrow> 'o \<Rightarrow> addr set) \<Rightarrow> capture_build \<Rightarrow> capture_env \<Rightarrow> 'o machine \<Rightarrow>
   active_allocation \<Rightarrow> stored_allocation \<Rightarrow> bool"
where
  "has_output used b env mc a st \<longleftrightarrow>
     st_output_seen st \<and> ra_has_reference (st_descriptor st) \<and>
     ra_reference_size_bytes (st_descriptor st) = ar_size (aa_record a) \<and>
     (if ar_size (aa_record a) = 0
      then ra_reference_data (st_descriptor st) = nullptr \<and> st_reference st = None
      else st_reference st = Some (space_of a, ra_reference_data (st_descriptor st)) \<and>
        holds_buffer used (space_of a) mc (ra_reference_data (st_descriptor st)) (captured_bytes b env a))"

text \<open>
  The entry of a captured allocation after the outputs \<open>outs\<close>: the descriptor of the input,
  and a reference if there is an output of the allocation.
\<close>

definition restored_entry ::
  "(memory_space_type \<Rightarrow> 'o \<Rightarrow> addr set) \<Rightarrow> capture_build \<Rightarrow> capture_env \<Rightarrow> capture_build \<Rightarrow> capture_env \<Rightarrow>
   active_allocation set \<Rightarrow> 'o machine \<Rightarrow> active_allocation \<Rightarrow> memory_space_type \<times> stored_allocation \<Rightarrow> bool"
where
  "restored_entry used b env b' env' outs mc a x \<longleftrightarrow>
     fst x = space_of a \<and>
     without_reference (snd x) = snd (stored_input (captured_entry b env a)) \<and>
     (\<forall>a' \<in> outs. same_allocation a a' \<longrightarrow> has_output used b' env' mc a' (snd x)) \<and>
     ((\<forall>a' \<in> outs. \<not> same_allocation a a') \<longrightarrow> snd x = snd (stored_input (captured_entry b env a)))"

lemma has_output_grows:
  "has_output used b env mc a st \<Longrightarrow> grows used mc mc' \<Longrightarrow> has_output used b env mc' a st"
  by (auto simp: has_output_def intro: holds_buffer_grows)

lemma restored_entry_grows:
  "restored_entry used b env b' env' outs mc a x \<Longrightarrow> grows used mc mc' \<Longrightarrow>
   restored_entry used b env b' env' outs mc' a x"
  by (auto simp: restored_entry_def intro: has_output_grows)

lemma key_same: "captured_key b env a = captured_key b' env' a' \<longleftrightarrow> same_allocation a a'"
  by (auto simp: captured_entry_def same_allocation_def)

lemma restored_input_entry: "restored_entry used b env b' env' {} mc a (stored_input (captured_entry b env a))"
  by (simp add: restored_entry_def without_reference_def stored_input_def restored_descriptor_def
    captured_entry_def space_of_def)

text \<open>An output of another allocation does not matter, one of the same completes the entry.\<close>

lemma restored_entry_other:
  "restored_entry used b env b' env' outs mc a x \<Longrightarrow> \<not> same_allocation a a' \<Longrightarrow>
   restored_entry used b env b' env' (insert a' outs) mc a x"
  by (simp add: restored_entry_def)

lemma restored_entry_same:
  assumes entry: "restored_entry used b env b' env' outs mc a x"
    and new: "\<forall>a'' \<in> outs. \<not> same_allocation a a''" and same: "same_allocation a a'"
    and has: "has_output used b' env' mc a' st" and st: "without_reference st = without_reference (snd x)"
  shows "restored_entry used b env b' env' (insert a' outs) mc a (fst x, st)"
  using assms by (auto simp: restored_entry_def)

lemma index_of_slot:
  assumes keys: "distinct (List.map (captured_key b env) as)" and there: "a \<in> set as" "same_allocation a a'"
  obtains slot where "slot < length as" and "as ! slot = a"
    and "index_of b env as (captured_key b' env' a') = Some slot"
    and "\<forall>i < length as. same_allocation (as ! i) a' \<longrightarrow> i = slot"
proof -
  obtain slot where slot: "slot < length as" "as ! slot = a" using there(1) by (metis in_set_conv_nth)
  have key: "captured_key b env (as ! slot) = captured_key b' env' a'" using there(2) slot(2) by (simp only: key_same)
  have inj: "i = slot" if "i < length as" "same_allocation (as ! i) a'" for i
  proof -
    have "captured_key b env (as ! i) = captured_key b env (as ! slot)"
      using that(2) by (simp only: key key_same)
    then show ?thesis using keys that(1) slot(1) by (simp add: distinct_conv_nth) (metis)
  qed
  have "index_of b env as (captured_key b env (as ! slot)) = Some slot"
    unfolding index_of_def
    by (rule map_of_is_SomeI) (use keys slot(1) in \<open>auto simp: in_set_conv_nth\<close>)
  then have "index_of b env as (captured_key b' env' a') = Some slot" by (simp only: key)
  with slot inj show thesis by (intro that) auto
qed


section \<open>The last pass\<close>

lemma achieves_on_stored:
  "P () (moved_to g mc (sg\<lparr>sg_allocations := (sg_allocations sg)
      [slot := (fst (sg_allocations sg ! slot), f (snd (sg_allocations sg ! slot)))]\<rparr>) s) \<Longrightarrow>
   achieves view v (moved_to g mc sg s) (on_stored g slot f) P"
  unfolding on_stored_def by (rule achieves_moved_guard)

text \<open>The buffer for the bytes of an output.\<close>

abbreviation new_buffer ::
  "'o platform \<Rightarrow> memory_space_type \<Rightarrow> u64 \<Rightarrow> byte list \<Rightarrow> ('w, 'o, addr) replay_prog" where
  "new_buffer pf space n bytes \<equiv>
     if space = HOST then on_machine (regular_host_allocate pf n bytes)
     else if \<not> has_device_space (pf_backend pf)
     then throw (Std_Exception ''Trying to access device allocations but no device space is enabled'')
     else on_machine (regular_device_allocate pf n bytes)"

context buffer_heap
begin

lemma achieves_buffer:
  assumes d: "fully_dumped b env a bytes" and staged: "staged pf a" and n: "ar_size (aa_record a) \<noteq> 0"
    and room: "unat (ar_size (aa_record a)) \<le> room (mc_os mc)"
    and post: "\<And>p mc'. grows used mc mc' \<Longrightarrow> holds_buffer used (space_of a) mc' p bytes \<Longrightarrow>
      room (mc_os mc) \<le> room (mc_os mc') + unat (ar_size (aa_record a)) \<Longrightarrow> P p (moved_to g mc' sg s)"
  shows "achieves view v (moved_to g mc sg s)
    (new_buffer pf (space_of a) (ar_size (aa_record a)) bytes) P"
proof (cases "space_of a")
  case HOST
  obtain p mc' where b: "regular_host_allocate pf (ar_size (aa_record a)) bytes mc = (Inr p, mc')"
      "grows used mc mc'" "holds_buffer used HOST mc' p bytes"
      "room (mc_os mc) \<le> room (mc_os mc') + unat (ar_size (aa_record a))"
    using host_buffer [OF n room] d unfolding fully_dumped_def by blast
  have "achieves view v (moved_to g mc sg s) (on_machine (regular_host_allocate pf (ar_size (aa_record a)) bytes)) P"
    by (rule achieves_moved_machine [of "regular_host_allocate pf (ar_size (aa_record a)) bytes" mc, OF b(1)]) (use HOST b in \<open>auto intro: post\<close>)
  with HOST show ?thesis by simp
next
  case DEVICE
  then have backend: "has_device_space (pf_backend pf)"
    using staged n by (auto simp: staged_def allocate_host_buffer_def split: if_splits)
  obtain p mc' where b: "regular_device_allocate pf (ar_size (aa_record a)) bytes mc = (Inr p, mc')"
      "grows used mc mc'" "holds_buffer used DEVICE mc' p bytes"
      "room (mc_os mc) \<le> room (mc_os mc') + unat (ar_size (aa_record a))"
    using device_buffer [OF backend n room] d unfolding fully_dumped_def by blast
  have "achieves view v (moved_to g mc sg s) (on_machine (regular_device_allocate pf (ar_size (aa_record a)) bytes)) P"
    by (rule achieves_moved_machine [of "regular_device_allocate pf (ar_size (aa_record a)) bytes" mc, OF b(1)]) (use DEVICE b in \<open>auto intro: post\<close>)
  with DEVICE backend show ?thesis by simp
qed

lemma achieves_allocate_output:
  assumes slot: "slot < length (sg_allocations sg)" "sg_allocations sg ! slot = (sp, st)"
    and fresh: "\<not> st_output_seen st" "st_reference st = None" "ra_reference_data (st_descriptor st) = nullptr"
    and label: "ra_label (st_descriptor st) = ar_label (aa_record a)"
    and d: "fully_dumped b env a bytes" and staged: "staged pf a"
    and room: "unat (ar_size (aa_record a)) \<le> room (mc_os mc)"
    and post: "\<And>mc' st'. grows used mc mc' \<Longrightarrow> room (mc_os mc) \<le> room (mc_os mc') + unat (ar_size (aa_record a)) \<Longrightarrow>
      has_output used b env mc' a st' \<Longrightarrow> without_reference st' = without_reference st \<Longrightarrow>
      P () (moved_to g mc' (sg\<lparr>sg_allocations := (sg_allocations sg)[slot := (sp, st')]\<rparr>) s)"
  shows "achieves view v (moved_to g mc sg s) (allocate_output pf g slot (captured_entry b env a)
    (if ar_size (aa_record a) = 0 then None else Some (captured_bytes b env a))) P"
proof -
  let ?e = "captured_entry b env a" and ?t = "moved_to g mc sg s"
  let ?sg = "\<lambda>st. sg\<lparr>sg_allocations := (sg_allocations sg)[slot := (sp, st)]\<rparr>" and ?seen = "reference_seen ?e st"
  have bytes: "captured_bytes b env a = bytes" using fully_dumped_copy [OF d] by (simp add: captured_bytes_def)
  note fields = fully_dumped_entry [OF d]
  have e: "sa_label ?e = ar_label (aa_record a)" "sa_size ?e = ar_size (aa_record a)"
      "memory_space_type_from_string (sa_space ?e) = space_of a"
    by (simp_all add: captured_entry_def space_of_def)
  have seen: "achieves view v ?t (on_stored g slot (reference_seen ?e)) (\<lambda>_ t. t = moved_to g mc (?sg ?seen) s)"
    by (rule achieves_on_stored) (simp add: slot)
  have same: "without_reference ?seen = without_reference st" "without_reference (reference_stored sp' p ?seen) = without_reference st"
    for sp' p by (simp_all add: without_reference_def reference_seen_def reference_stored_def)
  have rest: "achieves view v (moved_to g mc (?sg ?seen) s)
      (case if ar_size (aa_record a) = 0 then None else Some bytes of
         None \<Rightarrow> done_with ()
       | Some bytes \<Rightarrow> let space = memory_space_type_from_string (sa_space ?e) in
           and_then (new_buffer pf space (sa_size ?e) bytes)
           (\<lambda>ptr. on_stored g slot (reference_stored space ptr))) P"
  proof (cases "ar_size (aa_record a) = 0")
    case True
    have "has_output used b env mc a ?seen"
      using fresh fields True by (simp add: has_output_def reference_seen_def e)
    from post [OF grows_refl _ this same(1)] True show ?thesis by (simp add: achieves_done)
  next
    case False
    have stored: "achieves view v (moved_to g mc' (?sg ?seen) s) (on_stored g slot (reference_stored (space_of a) p)) P"
      if "grows used mc mc'" "holds_buffer used (space_of a) mc' p bytes"
        "room (mc_os mc) \<le> room (mc_os mc') + unat (ar_size (aa_record a))" for p mc'
    proof (rule achieves_on_stored)
      have "has_output used b env mc' a (reference_stored (space_of a) p ?seen)"
        using that(2) fields False by (simp add: has_output_def reference_seen_def reference_stored_def e bytes)
      from post [OF that(1,3) this same(2)]
      show "P () (moved_to g mc' (?sg ?seen\<lparr>sg_allocations := (sg_allocations (?sg ?seen))
          [slot := (fst (sg_allocations (?sg ?seen) ! slot),
             reference_stored (space_of a) p (snd (sg_allocations (?sg ?seen) ! slot)))]\<rparr>) s)"
        by (simp add: slot)
    qed
    have "achieves view v (moved_to g mc (?sg ?seen) s)
        (and_then (new_buffer pf (space_of a) (ar_size (aa_record a)) bytes)
           (\<lambda>ptr. on_stored g slot (reference_stored (space_of a) ptr))) P"
      by (rule achieves_and_then [OF achieves_buffer [OF d staged False room,
            where P = "\<lambda>p t. \<exists>mc'. grows used mc mc' \<and> holds_buffer used (space_of a) mc' p bytes \<and>
              room (mc_os mc) \<le> room (mc_os mc') + unat (ar_size (aa_record a)) \<and> t = moved_to g mc' (?sg ?seen) s"]])
        (use stored in blast)+
    then show ?thesis by (simp only: False if_False option.case Let_def e)
  qed
  show ?thesis
    unfolding allocate_output_def
  proof (rule achieves_and_then [OF achieves_reading [where P = "\<lambda>x t. x = st \<and> t = ?t"]])
    fix x t assume xt: "x = st \<and> t = ?t"
    then have no: "\<not> (st_output_seen x \<or> ra_label (st_descriptor x) \<noteq> sa_label ?e)" and t: "t = ?t"
      using fresh(1) label by (simp_all add: e)
    show "achieves view v t (if st_output_seen x \<or> ra_label (st_descriptor x) \<noteq> sa_label ?e
        then throw (Std_Exception (''Duplicate or inconsistent output allocation '' @ quoted (sa_label ?e)))
        else and_then (on_stored g slot (reference_seen ?e)) (\<lambda>_.
          case if ar_size (aa_record a) = 0 then None else Some (captured_bytes b env a) of
            None \<Rightarrow> done_with ()
          | Some bytes \<Rightarrow> let space = memory_space_type_from_string (sa_space ?e) in
              and_then (new_buffer pf space (sa_size ?e) bytes)
              (\<lambda>ptr. on_stored g slot (reference_stored space ptr)))) P"
      unfolding if_not_P [OF no] bytes t by (rule achieves_and_then [OF seen]) (simp only: rest)
  qed (simp add: slot)
qed

end


text \<open>All the entries, when one more output has been loaded.\<close>

lemma restored_entries_step:
  assumes entries: "list_all2 (restored_entry used b env b' env' outs mc) as sts" and grows: "grows used mc mc'"
    and slot: "slot < length as" "same_allocation (as ! slot) a'"
    and only: "\<forall>i < length as. same_allocation (as ! i) a' \<longrightarrow> i = slot"
    and new: "\<forall>a'' \<in> outs. \<not> same_allocation (as ! slot) a''"
    and has: "has_output used b' env' mc' a' st" and st: "without_reference st = without_reference (snd (sts ! slot))"
  shows "list_all2 (restored_entry used b env b' env' (insert a' outs) mc') as
    (sts[slot := (fst (sts ! slot), st)])"
  unfolding list_all2_conv_all_nth
proof (intro conjI allI impI)
  show "length as = length (sts[slot := (fst (sts ! slot), st)])" using entries by (simp add: list_all2_conv_all_nth)
  fix i assume i: "i < length as"
  have old: "restored_entry used b env b' env' outs mc' (as ! i) (sts ! i)"
    using entries i grows by (auto simp: list_all2_conv_all_nth intro: restored_entry_grows)
  show "restored_entry used b env b' env' (insert a' outs) mc' (as ! i) (sts[slot := (fst (sts ! slot), st)] ! i)"
  proof (cases "i = slot")
    case True
    have "slot < length sts" using entries slot(1) by (simp add: list_all2_conv_all_nth)
    with True show ?thesis using restored_entry_same [OF old [unfolded True] new slot(2) has st] by simp
  next
    case False
    then have "\<not> same_allocation (as ! i) a'" using only i by blast
    then show ?thesis using restored_entry_other [OF old] False by simp
  qed
qed

lemma same_allocation_trans:
  "same_allocation a a' \<Longrightarrow> same_allocation a a'' \<Longrightarrow> captured_key b env a' = captured_key b env a''"
  by (simp add: captured_entry_def same_allocation_def)

lemma no_output_yet:
  assumes "distinct (List.map (captured_key b env) (xs @ a' # ys))" and "same_allocation a a'"
  shows "\<forall>a'' \<in> set xs. \<not> same_allocation a a''"
proof clarify
  fix a'' assume a'': "a'' \<in> set xs" "same_allocation a a''"
  have "captured_key b env a' = captured_key b env a''" by (rule same_allocation_trans [OF assms(2) a''(2)])
  then have "captured_key b env a' \<in> captured_key b env ` set xs" using a''(1) by (rule image_eqI)
  moreover have "captured_key b env a' \<notin> captured_key b env ` set xs"
    using assms(1) unfolding map_append list.map distinct_append set_map by auto
  ultimately show False by contradiction
qed

text \<open>The entries of the guard and the memory after the pass.\<close>

definition outputs_restored ::
  "(memory_space_type \<Rightarrow> 'o \<Rightarrow> addr set) \<Rightarrow> capture_build \<Rightarrow> capture_env \<Rightarrow> capture_build \<Rightarrow> capture_env \<Rightarrow>
   bool \<Rightarrow> allocation_snapshot \<Rightarrow> allocation_snapshot \<Rightarrow> 'o machine \<Rightarrow> scope_guard \<Rightarrow> bool"
where
  "outputs_restored used b env b' env' enabled sn out mc sg \<longleftrightarrow>
     restored b env sn mc \<and>
     (\<exists>as. mset as = mset (sn_allocations sn) \<and>
        describes b env enabled sn
          (sg\<lparr>sg_allocations := List.map (\<lambda>a. stored_input (captured_entry b env a)) as\<rparr>) \<and>
        list_all2 (restored_entry used b env b' env' (set (sn_allocations out)) mc) as (sg_allocations sg))"

text \<open>The state of the platform before the pass: the inputs are in use, and the outputs fit.\<close>

definition room_for_outputs ::
  "(memory_space_type \<Rightarrow> 'o \<Rightarrow> addr set) \<Rightarrow> ('o \<Rightarrow> nat) \<Rightarrow> allocation_snapshot \<Rightarrow> allocation_snapshot \<Rightarrow> 'o \<Rightarrow> bool" where
  "room_for_outputs used room sn out os \<longleftrightarrow>
     (\<forall>a \<in> set (sn_allocations sn).
        cells (ar_p_data (aa_record a)) (unat (ar_size (aa_record a))) \<subseteq> used (space_of a) os) \<and>
     output_bytes (sn_allocations out) \<le> room os"

lemma restored_grows:
  assumes "restored b env sn mc" and "room_for_outputs used room sn out (mc_os mc)" and "grows used mc mc'"
  shows "restored b env sn mc'"
  using assms grows_read [OF assms(3) _ size_in_range] by (simp add: restored_def room_for_outputs_def)

context hdf5_reader
begin

lemma achieves_link_there:
  assumes l: "place v root = Some (f, [])" and F: "h5_disk v f = Some F"
    and there: "butlast (split_path obj) \<in> fl_groups F" "split_path obj \<in> fl_groups F"
  shows "achieves view v s (check_link (api_beside api) root obj) (\<lambda>x s'. x \<and> s' = s)"
proof (rule achievesI)
  fix w assume w: "view w = v"
  obtain st w' where "H5Lexists api root obj w = (st, w')" "0 \<le> st" "view w' = v" "0 < st"
    using Lexists [of w root f "[]" F obj] l F there w by auto
  then show "\<exists>x w' s'. check_link (api_beside api) root obj (w, s) = (Inr x, (w', s')) \<and>
      view w' = v \<and> x \<and> s' = s"
    by (auto simp: check_link_def api_beside_def beside_def check_call_def and_then_def done_with_def)
qed

lemma achieves_output:
  fixes s :: "'o replayer"
  assumes heap: "buffer_heap pf used room"
    and l: "place v i = Some (f, p)" and F: "h5_disk v f = Some F"
    and ok: "loadable b' env' F p n a'" and staged: "staged pf a'"
    and keys: "distinct (List.map (captured_key b env) as)"
    and input: "a \<in> set as" "same_allocation a a'" "ar_label (aa_record a) = ar_label (aa_record a')"
    and entries: "list_all2 (restored_entry used b env b' env' outs mc) as (sg_allocations sg)"
    and new: "\<forall>a'' \<in> outs. \<not> same_allocation a a''"
    and room: "unat (ar_size (aa_record a')) \<le> room (mc_os mc)"
    and post: "\<And>mc' sts. grows used mc mc' \<Longrightarrow> room (mc_os mc) \<le> room (mc_os mc') + unat (ar_size (aa_record a')) \<Longrightarrow>
      list_all2 (restored_entry used b env b' env' (insert a' outs) mc') as sts \<Longrightarrow>
      P () (moved_to g mc' (sg\<lparr>sg_allocations := sts\<rparr>) s)"
  shows "achieves view v (moved_to g mc sg s) (allocate_hdf5_dataset (api_beside api) (allocate_host_buffer pf)
    (allocate_wrapper pf g (index_of b env as)) i n u) P"
proof (rule achieves_allocation [OF l F ok])
  let ?e = "captured_entry b' env' a'"
  obtain bytes where d: "fully_dumped b' env' a' bytes" using ok by (auto simp: loadable_def)
  obtain slot where slot: "slot < length as" "as ! slot = a" "index_of b env as (entry_key ?e) = Some slot"
    and only: "\<forall>i < length as. same_allocation (as ! i) a' \<longrightarrow> i = slot"
    by (rule index_of_slot [where b' = b' and env' = env', OF keys input(1,2)])
  have len: "slot < length (sg_allocations sg)" using entries slot(1) by (simp add: list_all2_lengthD [symmetric])
  obtain sp st where x: "sg_allocations sg ! slot = (sp, st)" by fastforce
  have "restored_entry used b env b' env' outs mc a (sp, st)"
    using list_all2_nthD [OF entries slot(1)] by (simp add: slot(2) x)
  then have "st = snd (stored_input (captured_entry b env a))" using new by (simp add: restored_entry_def)
  then have st: "\<not> st_output_seen st" "st_reference st = None" "ra_reference_data (st_descriptor st) = nullptr"
      "ra_label (st_descriptor st) = ar_label (aa_record a')"
    by (simp_all add: stored_input_def restored_descriptor_def captured_entry_def input(3))
  have step: "list_all2 (restored_entry used b env b' env' (insert a' outs) mc') as
      ((sg_allocations sg)[slot := (sp, st')])"
    if "grows used mc mc'" "has_output used b' env' mc' a' st'" "without_reference st' = without_reference st" for mc' st'
    using restored_entries_step [OF entries that(1) slot(1) _ only _ that(2)] that(3) input(2) new
    by (simp add: slot(2) x)
  show "achieves view v (moved_to g mc sg s) (allocate_wrapper pf g (index_of b env as) ?e
      (if ar_size (aa_record a') = 0 then None else Some (captured_bytes b' env' a')) u) P"
    unfolding allocate_wrapper_def slot(3) option.case
    by (rule buffer_heap.achieves_allocate_output [OF heap len x st d staged room])
      (use step in \<open>blast intro: post\<close>)
qed (use staged in \<open>simp add: staged_def space_of_def\<close>)

text \<open>The outputs, in the order of the visit.\<close>

lemma achieves_outputs:
  fixes s :: "'o replayer"
  assumes heap: "buffer_heap pf used room" and c: "captured_group b' env' v root f F ''out'' xs"
    and outs: "List.map snd xs = sn_allocations out" and ready: "outputs_ready b' env' pf sn out"
    and keys: "distinct (List.map (captured_key b env) as)" and as: "set as = set (sn_allocations sn)"
    and start: "sg_allocations sg = List.map (\<lambda>a. stored_input (captured_entry b env a)) as"
    and room: "output_bytes (sn_allocations out) \<le> room (mc_os mc)"
  shows "achieves view v (moved_to g mc sg s) (iterate_allocations (api_beside api) root ''out/views''
      (allocate_hdf5_dataset (api_beside api) (allocate_host_buffer pf) (allocate_wrapper pf g (index_of b env as))) ())
    (\<lambda>_ s'. \<exists>mc' sts. grows used mc mc' \<and>
       list_all2 (restored_entry used b env b' env' (set (sn_allocations out)) mc') as sts \<and>
       s' = moved_to g mc' (sg\<lparr>sg_allocations := sts\<rparr>) s)"
proof (rule achieves_captured [OF c])
  fix i ps
  assume i: "h5_refs v i = None" and ps: "mset ps = mset xs"
    and all: "list_all (\<lambda>(m, a). loadable b' env' F [''out'', ''views''] m a) ps"
  let ?v = "new_ref i (Group_Ref f [''out'', ''views'']) v"
  have l: "place ?v i = Some (f, [''out'', ''views''])" and d: "h5_disk ?v f = Some F"
    using c by (simp_all add: place_def captured_group_def)
  have same: "mset (List.map snd ps) = mset (sn_allocations out)" by (simp only: mset_map ps flip: outs)
  note set = permuted_outputs(1) [OF same] and total = permuted_outputs(3) [OF same]
  have dist: "distinct (List.map (captured_key b' env') (List.map snd ps))"
    using ready by (simp only: permuted_outputs(2) [OF same] outputs_ready_def)
  define I where "I ns u s' \<longleftrightarrow> (\<exists>ys mc' sts. ns = List.map fst ys \<and> ys = take (length ys) ps \<and> grows used mc mc' \<and>
      output_bytes (sn_allocations out) \<le> room (mc_os mc') + output_bytes (List.map snd ys) \<and>
      list_all2 (restored_entry used b env b' env' (set (List.map snd ys)) mc') as sts \<and>
      s' = moved_to g mc' (sg\<lparr>sg_allocations := sts\<rparr>) s)" for ns and u :: unit and s'
  have entries: "list_all2 (restored_entry used b env b' env' {} mc) as (sg_allocations sg)"
    unfolding start list_all2_map2 by (simp add: list_all2_same restored_input_entry)
  have begin_I: "I [] () (moved_to g mc sg s)"
    unfolding I_def by (rule exI [of _ "[]"], rule exI [of _ mc], rule exI [of _ "sg_allocations sg"])
      (simp add: room entries trans_le_add1)
  have "achieves view ?v (moved_to g mc sg s) (fold_each (allocate_hdf5_dataset (api_beside api)
      (allocate_host_buffer pf) (allocate_wrapper pf g (index_of b env as)) i) (List.map fst ps) ())
      (I (List.map fst ps))"
  proof (rule achieves_fold_each [where I = I, OF _ begin_I])
    fix ns n ms u s'
    assume visit: "List.map fst ps = ns @ n # ms" and inv: "I ns u s'"
    obtain ys mc' sts where ys: "ns = List.map fst ys" "ys = take (length ys) ps" and grows: "grows used mc mc'"
      and left: "output_bytes (sn_allocations out) \<le> room (mc_os mc') + output_bytes (List.map snd ys)"
      and entries: "list_all2 (restored_entry used b env b' env' (set (List.map snd ys)) mc') as sts"
      and s': "s' = moved_to g mc' (sg\<lparr>sg_allocations := sts\<rparr>) s"
      using inv unfolding I_def by blast
    have "length ys < length ps" using arg_cong [OF visit, of length] by (simp add: ys(1))
    then obtain m a' zs where split: "ps = ys @ (m, a') # zs"
      using id_take_nth_drop [of "length ys" ps] ys(2) by (cases "ps ! length ys") simp
    have n: "m = n" using visit by (simp add: split ys(1))
    have ok: "loadable b' env' F [''out'', ''views''] n a'" using all by (simp add: split n)
    have "a' \<in> set (sn_allocations out)" unfolding set [symmetric] by (simp add: split)
    then obtain a where a: "a \<in> set as" "same_allocation a a'" "ar_label (aa_record a) = ar_label (aa_record a')"
      and staged: "staged pf a'" using ready unfolding outputs_ready_def as by blast
    have new: "\<forall>a'' \<in> set (List.map snd ys). \<not> same_allocation a a''"
      by (rule no_output_yet [where b = b' and env = env' and ys = "List.map snd zs", OF _ a(2)])
        (use dist in \<open>simp add: split\<close>)
    have size: "output_bytes (List.map snd ps) = output_bytes (List.map snd ys) + unat (ar_size (aa_record a')) +
        output_bytes (List.map snd zs)" by (simp add: split output_bytes_def)
    show "achieves view ?v s' (allocate_hdf5_dataset (api_beside api) (allocate_host_buffer pf)
        (allocate_wrapper pf g (index_of b env as)) i n u) (I (ns @ [n]))"
      unfolding s'
    proof (rule achieves_output [OF heap l d ok staged keys a _ new])
      show "list_all2 (restored_entry used b env b' env' (set (List.map snd ys)) mc') as
          (sg_allocations (sg\<lparr>sg_allocations := sts\<rparr>))" using entries by simp
      show "unat (ar_size (aa_record a')) \<le> room (mc_os mc')" using left size total by simp
    next
      fix mc2 sts2
      assume g2: "grows used mc' mc2" and r2: "room (mc_os mc') \<le> room (mc_os mc2) + unat (ar_size (aa_record a'))"
        and e2: "list_all2 (restored_entry used b env b' env' (insert a' (set (List.map snd ys))) mc2) as sts2"
      show "I (ns @ [n]) () (moved_to g mc2 (sg\<lparr>sg_allocations := sts, sg_allocations := sts2\<rparr>) s)"
        unfolding I_def
        by (intro exI [of _ "ys @ [(m, a')]"] exI [of _ mc2] exI [of _ sts2] conjI)
          (use grows_trans [OF grows g2] left r2 e2 in \<open>simp_all add: ys(1) n split output_bytes_def\<close>)
    qed
  qed
  then show "achieves view ?v (moved_to g mc sg s) (fold_each (allocate_hdf5_dataset (api_beside api)
      (allocate_host_buffer pf) (allocate_wrapper pf g (index_of b env as)) i) (List.map fst ps) ())
      (\<lambda>_ s'. \<exists>mc' sts. grows used mc mc' \<and>
       list_all2 (restored_entry used b env b' env' (set (sn_allocations out)) mc') as sts \<and>
       s' = moved_to g mc' (sg\<lparr>sg_allocations := sts\<rparr>) s)"
  proof (rule achieves_mono)
    fix u s' assume "I (List.map fst ps) u s'"
    then obtain ys mc' sts where ys: "List.map fst ps = List.map fst ys" "ys = take (length ys) ps"
      and r: "grows used mc mc'" "list_all2 (restored_entry used b env b' env' (set (List.map snd ys)) mc') as sts"
        "s' = moved_to g mc' (sg\<lparr>sg_allocations := sts\<rparr>) s"
      unfolding I_def by blast
    have "length ys = length ps" using arg_cong [OF ys(1), of length] by simp
    then have "ys = ps" using ys(2) by simp
    then show "\<exists>mc' sts. grows used mc mc' \<and>
        list_all2 (restored_entry used b env b' env' (set (sn_allocations out)) mc') as sts \<and>
        s' = moved_to g mc' (sg\<lparr>sg_allocations := sts\<rparr>) s"
      using r set by auto
  qed
qed simp

lemma achieves_restore_outputs:
  assumes l: "place v root = Some (f, [])" and F: "h5_disk v f = Some F" and top: "[] \<in> fl_groups F"
    and snap: "holds_snapshot b' env' F [''out''] out" and ready: "outputs_ready b' env' pf sn out"
    and heap: "buffer_heap pf used room" and keys: "distinct (List.map (captured_key b env) (sn_allocations sn))"
    and inputs: "inputs_copied b env enabled sn (room_for_outputs used room sn out) as mc sg"
  shows "achieves view v (moved_to g mc sg s) (restore_outputs (api_beside api) pf g (index_of b env as) root)
    (\<lambda>_ s'. \<exists>mc' sg'. outputs_restored used b env b' env' enabled sn out mc' sg' \<and> s' = moved_to g mc' sg' s)"
proof -
  let ?s = "moved_to g mc sg s"
  have there: "[''out''] \<in> fl_groups F" "[''out'', ''views''] \<in> fl_groups F"
    using snap by (simp_all add: holds_snapshot_def)
  have full: "\<forall>a \<in> set (sn_allocations out). \<exists>bytes. fully_dumped b' env' a bytes"
    using ready by (simp add: outputs_ready_def)
  have c: "captured_group b' env' v root f F ''out'' (named_allocations out)"
    by (rule captured_group_in [OF snap full l F])
  have as: "mset as = mset (sn_allocations sn)" and room: "room_for_outputs used room sn out (mc_os mc)"
    and restored: "restored b env sn mc" and describes: "describes b env enabled sn sg"
    and start: "sg_allocations sg = List.map (\<lambda>a. stored_input (captured_entry b env a)) as"
    using inputs by (simp_all add: inputs_copied_def)
  have keys_as: "distinct (List.map (captured_key b env) as)" using keys by (simp only: permuted_outputs(2) [OF as])
  have fits: "output_bytes (sn_allocations out) \<le> room (mc_os mc)" using room by (simp add: room_for_outputs_def)
  note pass = achieves_outputs [OF heap c named_allocations_snd ready keys_as permuted_outputs(1) [OF as] start fits]
  have result: "outputs_restored used b env b' env' enabled sn out mc' (sg\<lparr>sg_allocations := sts\<rparr>)"
    if "grows used mc mc'" "list_all2 (restored_entry used b env b' env' (set (sn_allocations out)) mc') as sts" for mc' sts
    unfolding outputs_restored_def
    by (intro conjI restored_grows [OF restored room that(1)] exI [of _ as])
      (use as describes that(2) in \<open>simp_all flip: start\<close>)
  have views: "split_path ''out/views'' = [''out'', ''views'']" "split_path ''out'' = [''out'']" by code_simp+
  have link: "achieves view v ?s (check_link (api_beside api) root ''out'') (\<lambda>x s'. x \<and> s' = ?s)"
    "achieves view v ?s (check_link (api_beside api) root ''out/views'') (\<lambda>x s'. x \<and> s' = ?s)"
    using achieves_link_there [OF l F, of "''out''" ?s] achieves_link_there [OF l F, of "''out/views''" ?s] top there
    by (simp_all add: views)
  show ?thesis
    unfolding restore_outputs_def
  proof (rule achieves_and_then [OF link(1)])
    fix x t assume "x \<and> t = ?s"
    then show "achieves view v t (and_then (if x then check_link (api_beside api) root ''out/views'' else done_with False)
        (\<lambda>has_output. if has_output then iterate_allocations (api_beside api) root ''out/views''
            (allocate_hdf5_dataset (api_beside api) (allocate_host_buffer pf)
              (allocate_wrapper pf g (index_of b env as))) ()
          else done_with ()))
        (\<lambda>_ s'. \<exists>mc' sg'. outputs_restored used b env b' env' enabled sn out mc' sg' \<and> s' = moved_to g mc' sg' s)"
      by simp (rule achieves_and_then [OF link(2)], simp, rule achieves_mono [OF pass], use result in blast)
  qed
qed

lemma construct_with_outputs:
  fixes s :: "'o replayer"
  assumes F: "h5_disk (view w) fn = Some F" "[] \<in> fl_groups F"
    and dump: "holds_dump b env F sn fd nd metadata policy label kid num"
    and out: "holds_snapshot b' env' F [''out''] out" "outputs_ready b' env' pf sn out"
    and heap: "buffer_heap pf used room" and ready: "replay_ready b env rb pf sn"
    and pages: "grants_pages_with (room_for_outputs used room sn out) rb pf sn (rp_machine s)"
    and expected: "expected_policy rb policy = Some pv" and new: "\<not> rp_initialized s"
    and args: "replay_arguments argc argv = (enabled, Some fn, argc', argv')"
  shows "\<exists>w' mc sg. construct_ScopeGuard (api_beside api) rb pf argc argv (w, s) =
      (Inr (rp_next_guard s), (w', guard_published rb fd nd metadata pv enabled mc sg s)) \<and>
      view w' = view w \<and> outputs_restored used b env b' env' enabled sn out mc sg"
proof (rule construct_loads [OF F(1) dump ready pages _ expected new args])
  show "memcpy_keeps pf (room_for_outputs used room sn out)"
    using buffer_heap.memcpy_uses [OF heap] unfolding memcpy_keeps_def room_for_outputs_def by metis
next
  fix i as mc sg and t :: "'o replayer"
  assume inputs: "inputs_copied b env enabled sn (room_for_outputs used room sn out) as mc sg"
  have keys: "distinct (List.map (captured_key b env) (sn_allocations sn))" using ready by (simp add: replay_ready_def)
  show "achieves view (new_ref i (File_Ref fn) (view w)) (moved_to (rp_next_guard s) mc sg t)
      (restore_outputs (api_beside api) pf (rp_next_guard s) (index_of b env as) i)
      (\<lambda>_ s'. \<exists>mc' sg'. outputs_restored used b env b' env' enabled sn out mc' sg' \<and>
         s' = moved_to (rp_next_guard s) mc' sg' t)"
    by (rule achieves_restore_outputs [where f = fn, OF _ _ F(2) out heap keys inputs]) (simp_all add: place_def F(1))
qed

text \<open>A dump to which the output was added.\<close>

lemma dump_with_output_replays:
  fixes s :: "'o replayer"
  assumes run: "create_kernel_dump b env api absolute sn fd nd metadata policy label kid num w0 = (r, w1)" and ok: "vr_ok r"
    and run2: "append_kernel_output b' env' api out (vr_filename r) w1 = (r2, w2)" and ok2: "vr_ok r2"
    and out: "outputs_ready b' env' pf sn out"
    and heap: "buffer_heap pf used room" and ready: "replay_ready b env rb pf sn"
    and pages: "grants_pages_with (room_for_outputs used room sn out) rb pf sn (rp_machine s)"
    and expected: "expected_policy rb policy = Some pv" and new: "\<not> rp_initialized s"
    and args: "replay_arguments argc argv = (enabled, Some (vr_filename r), argc', argv')"
  shows "\<exists>w3 mc sg. construct_ScopeGuard (api_beside api) rb pf argc argv (w2, s) =
      (Inr (rp_next_guard s), (w3, guard_published rb fd nd metadata pv enabled mc sg s)) \<and>
      view w3 = view w2 \<and> outputs_restored used b env b' env' enabled sn out mc sg"
proof -
  let ?F = "image_dump b env sn fd nd metadata policy label kid num empty_file"
  let ?G = "image_snapshot b' env' [''out''] out ?F"
  note w1 = create_kernel_dump_view(2) [OF run ok]
  have "h5_disk (view w1) (vr_filename r) \<noteq> None" by (simp add: w1)
  note w2 = append_kernel_output_view [OF run2 ok2 this]
  have "h5_disk (view w2) (vr_filename r) = Some ?G" by (simp add: w2 w1 on_file_def)
  moreover have "[] \<in> fl_groups ?G"
    using same_at_root [OF dump_parts_under(4), of _ _ _ _ ?F] image_dump_root by (simp add: same_at_def)
  ultimately show ?thesis
    using construct_with_outputs [OF _ _ output_added [OF image_dump_holds] out heap ready pages expected new args]
    by blast
qed

end

text \<open>
  Property C4.  The reference outputs.  When the tool created a dump and appended the output of
  the kernel to it, and the replayer is started on the file on a system with room for the
  outputs, then the constructor of \<open>ScopeGuard\<close> succeeds with no handle left open and no file
  changed; every captured allocation is back at its address with the bytes it had before the
  kernel, and the guard has one descriptor for each of them.  The descriptor of an allocation
  with a captured output says so, with the size, and points to a buffer of its own that holds
  exactly the bytes the allocation had after the kernel (or is null for an empty one), all of
  them at the same time as the inputs.  The descriptors of the other allocations have no
  reference.
\<close>

theorem captured_outputs_available:
  fixes s :: "'o replayer"
  assumes "hdf5_reader api view" and "buffer_heap pf used room"
    and "create_kernel_dump b env api absolute sn fd nd metadata policy label kid num w0 = (r, w1)" and "vr_ok r"
    and "append_kernel_output b' env' api out (vr_filename r) w1 = (r2, w2)" and "vr_ok r2"
    and "replay_ready b env rb pf sn" and "outputs_ready b' env' pf sn out"
    and "grants_pages_with (room_for_outputs used room sn out) rb pf sn (rp_machine s)"
    and "expected_policy rb policy = Some pv" and "\<not> rp_initialized s"
    and "replay_arguments argc argv = (enabled, Some (vr_filename r), argc', argv')"
  shows "\<exists>w3 mc sg. construct_ScopeGuard (api_beside api) rb pf argc argv (w2, s) =
      (Inr (rp_next_guard s), (w3, guard_published rb fd nd metadata pv enabled mc sg s)) \<and>
      view w3 = view w2 \<and> outputs_restored used b env b' env' enabled sn out mc sg"
  by (rule hdf5_reader.dump_with_output_replays [OF assms(1,3-6,8,2,7,9-12)])

end
