(* ===== verification/Output_Query.thy ===== *)
theory Output_Query
  imports Output_Replay Replay_Query
begin

text \<open>
  What \<open>compare_views\<close> (\<open>src/krepe/replay/kernel_replayer.hpp\<close>) compares after a dump with
  outputs was loaded.
\<close>

lemma filter_corresponding:
  assumes "list_all2 R as xs" and "\<And>a x. R a x \<Longrightarrow> P x = Q a"
  shows "list_all2 R (filter Q as) (filter P xs)"
  using assms(1) by (induction rule: list_all2_induct) (simp_all add: assms(2))

lemma filter_only:
  assumes "distinct as" and "a \<in> set as" and "\<And>x. x \<in> set as \<Longrightarrow> Q x \<longleftrightarrow> x = a"
  shows "filter Q as = [a]"
proof -
  have only: "filter Q as = filter (\<lambda>x. x = a) as" by (rule filter_cong) (simp_all add: assms(3))
  have "length (filter (\<lambda>x. x = a) as) = 1"
    using assms(1,2) by (simp add: distinct_length_filter Collect_conv_if)
  then obtain y where y: "filter (\<lambda>x. x = a) as = [y]" by (auto simp: length_Suc_conv)
  have "set (filter (\<lambda>x. x = a) as) \<subseteq> {a}" by auto
  then have "y = a" unfolding y by simp
  then show ?thesis by (simp only: only y)
qed

lemma restored_entry_descriptor:
  assumes "restored_entry used b env b' env' outs mc a x"
  shows "key_of (snd x) = ar_label (aa_record a)" and "fst x = space_of a"
    and "ra_data (st_descriptor (snd x)) = (if ar_size (aa_record a) \<noteq> 0 then ar_p_data (aa_record a) else nullptr)"
proof -
  have st: "without_reference (snd x) = snd (stored_input (captured_entry b env a))" and sp: "fst x = space_of a"
    using assms by (simp_all add: restored_entry_def)
  show "fst x = space_of a" by (rule sp)
  show "key_of (snd x) = ar_label (aa_record a)"
    using arg_cong [OF st, of key_of]
    by (simp add: without_reference_def stored_input_def restored_descriptor_def captured_entry_def)
  show "ra_data (st_descriptor (snd x)) = (if ar_size (aa_record a) \<noteq> 0 then ar_p_data (aa_record a) else nullptr)"
    using arg_cong [OF st, of "\<lambda>st. ra_data (st_descriptor st)"]
    by (simp add: without_reference_def stored_input_def restored_descriptor_def captured_entry_def)
qed

text \<open>The descriptor of an allocation whose label is its own in its kind of memory.\<close>

definition sole_label :: "allocation_snapshot \<Rightarrow> active_allocation \<Rightarrow> bool" where
  "sole_label sn a \<longleftrightarrow> distinct (sn_allocations sn) \<and> a \<in> set (sn_allocations sn) \<and>
     (\<forall>x \<in> set (sn_allocations sn). space_of x = space_of a \<and> ar_label (aa_record x) = ar_label (aa_record a) \<longrightarrow> x = a)"

lemma unique_after_outputs:
  fixes s :: "'o replayer"
  assumes s: "rp_replay_allocations s = Some g" "rp_guards s g = Some sg"
    and out: "outputs_restored used b env b' env' enabled sn out mc sg" and sole: "sole_label sn a"
    and backend: "space_of a = DEVICE \<longrightarrow> has_device_space backend"
  shows "\<exists>x. get_unique_allocation backend (space_of a) (ar_label (aa_record a)) s = Inr (Some (st_descriptor (snd x))) \<and>
    restored_entry used b env b' env' (set (sn_allocations out)) mc a x"
proof -
  let ?R = "restored_entry used b env b' env' (set (sn_allocations out)) mc"
  let ?Q = "\<lambda>x. space_of x = space_of a \<and> ar_label (aa_record x) = ar_label (aa_record a)"
  let ?P = "\<lambda>x. fst x = space_of a \<and> key_of (snd x) = ar_label (aa_record a)"
  obtain as where as: "mset as = mset (sn_allocations sn)" and entries: "list_all2 ?R as (sg_allocations sg)"
    using out by (auto simp: outputs_restored_def)
  have set: "set as = set (sn_allocations sn)" by (rule permuted_outputs(1) [OF as])
  have "distinct as" using sole mset_eq_imp_distinct_iff [OF as] by (simp add: sole_label_def)
  then have "filter ?Q as = [a]" by (rule filter_only) (use sole in \<open>auto simp: sole_label_def set\<close>)
  moreover have "list_all2 ?R (filter ?Q as) (filter ?P (sg_allocations sg))"
    by (rule filter_corresponding [OF entries]) (simp add: restored_entry_descriptor)
  ultimately obtain x where x: "filter ?P (sg_allocations sg) = [x]" "?R a x" by (auto simp: list_all2_Cons1)
  have "filter (\<lambda>st. key_of st = ar_label (aa_record a)) (active_allocations s (space_of a)) =
      List.map snd (filter ?P (sg_allocations sg))"
    using s by (simp add: active_allocations_def guard_of_def filter_map comp_def case_prod_beta' conj_commute)
  also have "\<dots> = [snd x]" by (simp add: x(1))
  finally have sole_entry: "filter (\<lambda>st. key_of st = ar_label (aa_record a)) (active_allocations s (space_of a)) = [snd x]" .
  have "check_replay_allocations backend (space_of a) s = Inr ()"
    using s backend by (auto simp: check_replay_allocations_def)
  with sole_entry x(2) show ?thesis by (intro exI [of _ x]) (simp add: get_unique_cases)
qed

text \<open>
  Property C3.  \<open>compare_views\<close> compares with the captured output.  While the guard of a dump
  with outputs is active, whatever the program has done to the memory since,
  \<open>compare_views\<close> with the label of a captured allocation (that no other allocation of the kind of memory
  has) hands the caller's comparison two views: the actual one, at the address the
  application used, and the expected one, over the buffer the constructor filled
  with the bytes the allocation had after the captured kernel.
\<close>

theorem comparison_with_captured_output:
  fixes s :: "'o replayer"
  assumes "rp_replay_allocations s = Some g" and "rp_guards s g = Some sg"
    and "outputs_restored used b env b' env' enabled sn out mc sg"
    and "sole_label sn a" and "a' \<in> set (sn_allocations out)" and "same_allocation a a'"
    and "memory_space_type_from_string memory_space = space_of a"
    and "space_of a = DEVICE \<longrightarrow> has_device_space backend"
  shows "\<exists>p. compare_views backend memory_space (ar_label (aa_record a)) build f s =
      Inr (f (build p) (build (if ar_size (aa_record a) \<noteq> 0 then ar_p_data (aa_record a) else nullptr))) \<and>
    (if ar_size (aa_record a') = 0 then p = nullptr
     else holds_buffer used (space_of a) mc p (captured_bytes b' env' a'))"
proof -
  obtain x where x: "get_unique_allocation backend (space_of a) (ar_label (aa_record a)) s =
        Inr (Some (st_descriptor (snd x)))"
      "restored_entry used b env b' env' (set (sn_allocations out)) mc a x"
    using unique_after_outputs [OF assms(1-4,8)] by blast
  have has: "has_output used b' env' mc a' (snd x)" using x(2) assms(5,6) by (auto simp: restored_entry_def)
  have "space_of a' = space_of a" using assms(6) by (simp add: same_allocation_def space_of_def)
  then show ?thesis
    using has x(1) restored_entry_descriptor(3) [OF x(2)]
    by (intro exI [of _ "ra_reference_data (st_descriptor (snd x))"])
      (auto simp: compare_views_def Let_def assms(7) has_output_def)
qed

end
