(* ===== verification/Reference_Output.thy ===== *)
theory Reference_Output
  imports Reference_Capture Output_Query
begin

text \<open>
  The concrete capture of \<open>Reference_Capture\<close> with an output: a kernel that adds one to each
  byte of the allocation.
\<close>

definition example_env_after :: capture_env where
  "example_env_after = example_env\<lparr>host_memory := (\<lambda>x. ucast x + 1)\<rparr>"

definition example_output :: "view_dump_result \<times> ref_world" where
  "example_output = append_kernel_output example_build example_env_after ref_api example_snapshot
     ''krepe_l_1.h5'' (snd example_dump)"

lemma example_output_ok: "vr_ok (fst example_output)"
  by code_simp

lemma example_appended:
  "append_kernel_output example_build example_env_after ref_api example_snapshot (vr_filename (fst example_dump))
     (snd example_dump) = (fst example_output, snd example_output)"
  using example_dump_ok by (simp add: example_output_def)

lemma example_bytes_after: "captured_bytes example_build example_env_after example_allocation = [1, 2]"
  and example_dumped_after: "fully_dumped example_build example_env_after example_allocation [1, 2]"
proof -
  show d: "fully_dumped example_build example_env_after example_allocation [1, 2]"
    by (simp add: fully_dumped_def dumpable_def machine_bytes_def example_allocation_def example_env_after_def
      example_env_def is_host_accessible_space_def read_bytes_def upt_rec)
  show "captured_bytes example_build example_env_after example_allocation = [1, 2]"
    using fully_dumped_copy [OF d] by (simp add: captured_bytes_def)
qed

lemma example_outputs_ready:
  "outputs_ready example_build example_env_after (ref_platform No_Backend) example_snapshot example_snapshot"
  using example_dumped_after
  by (auto simp: outputs_ready_def example_snapshot_def staged_def allocate_host_buffer_def space_of_def
    memory_space_type_from_string_def same_allocation_def example_allocation_def)

lemma example_room:
  "grants_pages_with (room_for_outputs ref_used ref_room example_snapshot example_snapshot) example_replay
     (ref_platform No_Backend) example_snapshot (rp_machine (initial_replayer ref_machine))"
proof -
  have "cells 0x10100 2 \<subseteq> ref_used space \<lparr>ro_maps = [Region 0x10000 0x1000], ro_heap = 0x100000\<rparr>" for space
    by (auto simp: ref_used_def cells_def extent_def unat_sub_if')
  then have "room_for_outputs ref_used ref_room example_snapshot example_snapshot
      \<lparr>ro_maps = [Region 0x10000 0x1000], ro_heap = 0x100000\<rparr>"
    by (simp add: room_for_outputs_def example_snapshot_def example_allocation_def output_bytes_def ref_room_def
      below_def)
  then show ?thesis
    by (simp add: grants_pages_with_def example_pages_for construct_allocation_def host_allocate_def and_then_def
      os_do_def ref_mmap_def fits_def ref_machine_def host_pages_def done_with_def device_init_def
      has_device_space_def initial_replayer_def)
qed

lemma example_allocation_fields:
  "space_of example_allocation = HOST" "ar_size (aa_record example_allocation) = 2"
  "ar_p_data (aa_record example_allocation) = 0x10100" "aa_ptr example_allocation = 0x500"
  "ar_label (aa_record example_allocation) = ''x''"
  by (simp_all add: space_of_def memory_space_type_from_string_def example_allocation_def)

text \<open>The replayer's state after the dump with the output was loaded.\<close>

lemma example_outputs:
  "\<exists>mc sg. outputs_restored ref_used example_build example_env example_build example_env_after True example_snapshot
     example_snapshot mc sg"
  using hdf5_reader.dump_with_output_replays [OF ref_reader.hdf5_reader_axioms example_run example_conditions(1)
      example_appended example_output_ok example_outputs_ready ref_heap.buffer_heap_axioms example_ready(1) example_room
      example_conditions(2,3,6)] by blast

theorem captured_outputs_available_witness:
  "\<exists>w3 s' mc sg st. construct_ScopeGuard (api_beside ref_api) example_replay (ref_platform No_Backend) 4 example_argv
      (snd example_output, initial_replayer ref_machine) = (Inr 0, (w3, s')) \<and> rp_machine s' = mc \<and>
      rp_guards s' 0 = Some sg \<and> sg_allocations sg = [(HOST, st)] \<and> read_bytes (mc_host mc) 0x10100 2 = [0, 1] \<and>
      ra_data (st_descriptor st) = 0x10100 \<and> ra_has_reference (st_descriptor st) \<and>
      read_bytes (mc_host mc) (ra_reference_data (st_descriptor st)) 2 = [1, 2]"
proof -
  from captured_outputs_available [OF ref_reader.hdf5_reader_axioms ref_heap.buffer_heap_axioms example_run
      example_conditions(1) example_appended example_output_ok example_ready(1) example_outputs_ready example_room
      example_conditions(2,3,6)]
  obtain w3 mc sg where run: "construct_ScopeGuard (api_beside ref_api) example_replay (ref_platform No_Backend) 4
      example_argv (snd example_output, initial_replayer ref_machine) = (Inr 0, (w3,
        guard_published example_replay [7] [] [(''k'', ''v'')] (Replay_Scalar 4) True mc sg (initial_replayer ref_machine)))"
    and out: "outputs_restored ref_used example_build example_env example_build example_env_after True example_snapshot
      example_snapshot mc sg"
    unfolding example_conditions(4) by blast
  note fields = example_allocation_fields
  obtain x where sg: "sg_allocations sg = [x]" and x: "restored_entry ref_used example_build example_env example_build
      example_env_after {example_allocation} mc example_allocation x"
    using out by (auto simp: outputs_restored_def example_snapshot_def list_all2_Cons1)
  then have st: "fst x = HOST" "without_reference (snd x) = snd (stored_input (captured_entry example_build example_env
        example_allocation))" "has_output ref_used example_build example_env_after mc example_allocation (snd x)"
    by (simp_all add: restored_entry_def fields same_allocation_def)
  have "restored example_build example_env example_snapshot mc" using out by (simp add: outputs_restored_def)
  then have "read_bytes (mc_host mc) 0x10100 2 = [0, 1]"
    using restored_host [of example_build example_env example_snapshot mc example_allocation]
    by (simp add: example_snapshot_def example_allocation_def example_env_def read_bytes_def upt_rec)
  moreover have "ra_data (st_descriptor (snd x)) = 0x10100"
    using arg_cong [OF st(2), of "\<lambda>st. ra_data (st_descriptor st)"]
    by (simp add: without_reference_def stored_input_def restored_descriptor_def captured_entry_def fields)
  moreover have "ra_has_reference (st_descriptor (snd x))"
      "read_bytes (mc_host mc) (ra_reference_data (st_descriptor (snd x))) 2 = [1, 2]"
    using st(3) by (simp_all add: has_output_def fields holds_buffer_def example_bytes_after memory_of_def numeral_2_eq_2)
  ultimately show ?thesis
    using run sg st(1)
    by (intro exI [of _ w3] exI [of _ "guard_published example_replay [7] [] [(''k'', ''v'')] (Replay_Scalar 4) True mc sg
        (initial_replayer ref_machine)"] exI [of _ mc] exI [of _ sg] exI [of _ "snd x"])
      (simp add: guard_published_def moved_to_def initial_replayer_def prod_eq_iff)
qed

theorem comparison_with_captured_output_witness:
  "\<exists>(s :: ref_os replayer) mc p. rp_scope_guard s = Some 0 \<and>
     compare_views No_Backend ''Host'' ''x'' (\<lambda>q. q) (\<lambda>e a. (e, a)) s = Inr (p, 0x10100) \<and>
     read_bytes (mc_host (mc :: ref_os machine)) p 2 = [1, 2]"
proof -
  obtain mc sg where out: "outputs_restored ref_used example_build example_env example_build example_env_after True
      example_snapshot example_snapshot mc sg" using example_outputs by blast
  let ?s = "guard_published example_replay [7] [] [] (Replay_Scalar 4) True mc sg (initial_replayer ref_machine)"
  have s: "rp_replay_allocations ?s = Some 0" "rp_guards ?s 0 = Some sg" "rp_scope_guard ?s = Some 0"
    by (simp_all add: guard_published_def moved_to_def loaded_dump_def with_policy_def with_functor_def
      with_metadata_def initial_replayer_def)
  have sole: "sole_label example_snapshot example_allocation" by (simp add: sole_label_def example_snapshot_def)
  have "memory_space_type_from_string ''Host'' = space_of example_allocation"
    by (simp add: example_allocation_fields memory_space_type_from_string_def)
  from comparison_with_captured_output [OF s(1,2) out sole _ _ this, of example_allocation No_Backend "\<lambda>q. q" "\<lambda>e a. (e, a)"]
  obtain p where "compare_views No_Backend ''Host'' ''x'' (\<lambda>q. q) (\<lambda>e a. (e, a)) ?s = Inr (p, 0x10100)"
    "holds_buffer ref_used HOST mc p [1, 2]"
    by (auto simp: example_allocation_fields example_snapshot_def same_allocation_def example_bytes_after)
  then show ?thesis
    using s(3) by (intro exI [of _ ?s] exI [of _ mc] exI [of _ p]) (simp add: holds_buffer_def memory_of_def numeral_2_eq_2)
qed

end
