(* ===== verification/Plugin_Version.thy ===== *)
theory Plugin_Version
  imports Cpp_Text
begin

text \<open>
  The check the GCC plugin makes when it is loaded (\<open>plugin_init\<close>,
  \<open>get_configuration_target\<close> and \<open>get_version_without_patch\<close> in
  \<open>src/krepe/compiler_plugins/gcc.cpp\<close>): the compiler must have the major and minor version
  and the target of the headers the plugin was built with.
\<close>

section \<open>Parts of strings\<close>

text \<open>
  \<open>std::string_view\<close>: positions have 64 bits and \<open>npos\<close> is the largest one; \<open>find\<close>,
  \<open>find_last_of\<close> a character, and \<open>substr\<close>, which throws for a start past the end.
\<close>

definition npos :: u64 where
  "npos = -1"

definition find_from :: "string \<Rightarrow> string \<Rightarrow> u64 \<Rightarrow> u64" where
  "find_from s pattern pos =
     (case List.find (\<lambda>i. starts_with (drop i s) pattern) [unat pos..<Suc (length s)] of
        None \<Rightarrow> npos
      | Some i \<Rightarrow> of_nat i)"

definition find_last_of :: "string \<Rightarrow> char \<Rightarrow> u64" where
  "find_last_of s c =
     (case List.find (\<lambda>i. s ! i = c) (rev [0..<length s]) of None \<Rightarrow> npos | Some i \<Rightarrow> of_nat i)"

definition substr :: "string \<Rightarrow> u64 \<Rightarrow> u64 \<Rightarrow> exn + string" where
  "substr s pos count =
     (if length s < unat pos then Inl (Std_Exception ''basic_string_view::substr'')
      else Inr (take (unat count) (drop (unat pos) s)))"

section \<open>The check\<close>

definition target_flag :: string where
  "target_flag = ''--target=''"

definition get_configuration_target :: "string \<Rightarrow> exn + string" where
  "get_configuration_target configuration_args =
     (let flag_start = find_from configuration_args target_flag 0;
          arg_start = flag_start + of_nat (length target_flag);
          arg_end = find_from configuration_args '' '' arg_start
      in substr configuration_args arg_start (arg_end - arg_start))"

definition get_version_without_patch :: "string \<Rightarrow> exn + string" where
  "get_version_without_patch version_string =
     substr version_string 0 (find_last_of version_string CHR ''.'')"

record gcc_version =
  gv_basever :: string
  gv_configuration_arguments :: string

record plugin_info =
  pi_version :: string
  pi_help :: string

text \<open>
  \<open>plugin_init\<close>: the value it returns, what it stores in \<open>plugin_info\<close>, and whether it has
  registered its callback.  The targets are compared only if the versions are the same.
\<close>

definition plugin_init ::
  "nat \<Rightarrow> nat \<Rightarrow> gcc_version \<Rightarrow> gcc_version \<Rightarrow> plugin_info \<Rightarrow> exn + (nat \<times> plugin_info \<times> bool)" where
  "plugin_init errorcount sorrycount version headers info =
     (if errorcount \<noteq> 0 \<or> sorrycount \<noteq> 0 then Inr (1, info, False)
      else
        let info' = info\<lparr>pi_version := ''0.0.1'', pi_help := ''''\<rparr> in
        case (get_version_without_patch (gv_basever version),
              get_version_without_patch (gv_basever headers)) of
          (Inr v1, Inr v2) \<Rightarrow>
            if v1 \<noteq> v2 then Inr (1, info', False)
            else (case (get_configuration_target (gv_configuration_arguments version),
                        get_configuration_target (gv_configuration_arguments headers)) of
                (Inr t1, Inr t2) \<Rightarrow>
                  if t1 \<noteq> t2 then Inr (1, info', False) else Inr (0, info', True)
              | (Inl e, _) \<Rightarrow> Inl e
              | (_, Inl e) \<Rightarrow> Inl e)
        | (Inl e, _) \<Rightarrow> Inl e
        | (_, Inl e) \<Rightarrow> Inl e)"

section \<open>What the parts are\<close>

lemma find_over_append:
  "List.find P (xs @ ys) = (case List.find P xs of None \<Rightarrow> List.find P ys | Some x \<Rightarrow> Some x)"
  by (induction xs) simp_all

lemma upt_split: "a \<le> k \<Longrightarrow> k < b \<Longrightarrow> [a..<b] = [a..<k] @ k # [Suc k..<b]"
  by (metis le_add_diff_inverse less_imp_le_nat upt_add_eq_append upt_conv_Cons)

lemma find_upt_Some:
  assumes "a \<le> k" and "k < b" and "P k" and "\<forall>i. a \<le> i \<and> i < k \<longrightarrow> \<not> P i"
  shows "List.find P [a..<b] = Some k"
proof -
  have "List.find P [a..<k] = None" using assms(4) by (simp add: find_None_iff)
  then show ?thesis unfolding upt_split [OF assms(1,2)] using assms(3) by (simp add: find_over_append)
qed

lemma find_upt_None: "\<forall>i. a \<le> i \<and> i < b \<longrightarrow> \<not> P i \<Longrightarrow> List.find P [a..<b] = None"
  by (simp add: find_None_iff)

lemma unat_of_nat63: "k < 2 ^ 63 \<Longrightarrow> unat (of_nat k :: u64) = k"
  by (simp add: unat_of_nat)

text \<open>
  A version \<open>mm.patch\<close>, and arguments with one flag \<open>--target=\<close> whose value ends at a blank
  or at the end.
\<close>

definition names_version :: "string \<Rightarrow> string \<Rightarrow> bool" where
  "names_version s mm \<longleftrightarrow> (\<exists>patch. s = mm @ CHR ''.'' # patch \<and> CHR ''.'' \<notin> set patch) \<and> length s < 2 ^ 63"

definition names_target :: "string \<Rightarrow> string \<Rightarrow> bool" where
  "names_target s target \<longleftrightarrow>
     (\<exists>before rest. s = before @ target_flag @ target @ rest \<and>
        (\<forall>i < length before. \<not> starts_with (drop i s) target_flag) \<and>
        CHR '' '' \<notin> set target \<and> (rest = [] \<or> hd rest = CHR '' '')) \<and> length s < 2 ^ 63"

lemma version_without_patch:
  assumes "names_version s mm"
  shows "get_version_without_patch s = Inr mm"
proof -
  obtain patch where s: "s = mm @ CHR ''.'' # patch" "CHR ''.'' \<notin> set patch" and n: "length s < 2 ^ 63"
    using assms by (auto simp: names_version_def)
  have "List.find (\<lambda>i. s ! i = CHR ''.'') (rev [0..<length s]) = Some (length mm)"
  proof -
    have "rev [0..<length s] = rev [Suc (length mm)..<length s] @ length mm # rev [0..<length mm]"
      using upt_split [of 0 "length mm" "length s"] s(1) by simp
    moreover have "List.find (\<lambda>i. s ! i = CHR ''.'') (rev [Suc (length mm)..<length s]) = None"
    proof -
      have "s ! i \<noteq> CHR ''.''" if "length mm < i" "i < length s" for i
      proof -
        have "s ! i = patch ! (i - Suc (length mm))" using s(1) that by (simp add: nth_append)
        moreover have "i - Suc (length mm) < length patch" using s(1) that by simp
        ultimately show ?thesis using s(2) nth_mem by metis
      qed
      then show ?thesis by (auto simp: find_None_iff)
    qed
    ultimately show ?thesis using s(1) by (simp add: find_over_append)
  qed
  moreover have "unat (of_nat (length mm) :: u64) = length mm"
    using s(1) n by (intro unat_of_nat63) simp
  ultimately show ?thesis
    using s(1) by (simp add: get_version_without_patch_def find_last_of_def substr_def)
qed

lemma target_of_configuration:
  assumes "names_target s target"
  shows "get_configuration_target s = Inr target"
proof -
  obtain before rest where s: "s = before @ target_flag @ target @ rest"
    and first: "\<forall>i < length before. \<not> starts_with (drop i s) target_flag"
    and blank: "CHR '' '' \<notin> set target" and rest: "rest = [] \<or> hd rest = CHR '' ''"
    and short: "length s < 2 ^ 63"
    using assms unfolding names_target_def by blast
  let ?b = "length before" and ?f = "length target_flag" and ?t = "length target"
  have "List.find (\<lambda>i. starts_with (drop i s) target_flag) [0..<Suc (length s)] = Some ?b"
    by (rule find_upt_Some) (use first s in \<open>auto simp: starts_with_def\<close>)
  then have start: "find_from s target_flag 0 = of_nat ?b" by (simp add: find_from_def)
  have n: "unat (of_nat k :: u64) = k" if "k \<le> length s" for k
    using that short by (intro unat_of_nat63) simp
  have len: "length s = ?b + ?f + ?t + length rest" using s by simp
  have arg: "of_nat ?b + of_nat ?f = (of_nat (?b + ?f) :: u64)" by simp
  have get: "get_configuration_target s =
      substr s (of_nat (?b + ?f)) (find_from s '' '' (of_nat (?b + ?f)) - of_nat (?b + ?f))"
    by (simp only: get_configuration_target_def Let_def start arg)
  have tail: "drop (?b + ?f) s = target @ rest" using s by simp
  have char: "starts_with (drop i s) '' '' \<longleftrightarrow> i < length s \<and> s ! i = CHR '' ''" for i
    by (cases "i < length s") (simp_all add: starts_with_def Cons_nth_drop_Suc [symmetric])
  have inside: "\<not> starts_with (drop i s) '' ''" if "?b + ?f \<le> i" "i < ?b + ?f + ?t" for i
  proof -
    have short: "i - (?b + ?f) < ?t" using that by simp
    have "s = (before @ target_flag) @ target @ rest" using s by simp
    then have "s ! i = (target @ rest) ! (i - (?b + ?f))"
      using that by (simp add: nth_append del: append_assoc)
    then have "s ! i = target ! (i - (?b + ?f))" using short by (simp add: nth_append)
    moreover note short
    ultimately show ?thesis unfolding char using blank nth_mem by metis
  qed
  show ?thesis
  proof (cases rest)
    case Nil
    have "List.find (\<lambda>i. starts_with (drop i s) '' '') [?b + ?f..<Suc (length s)] = None"
      by (rule find_upt_None) (use inside char len Nil in \<open>auto simp: less_Suc_eq\<close>)
    then have stop: "find_from s '' '' (of_nat (?b + ?f)) = npos"
      using n [of "?b + ?f"] len by (simp add: find_from_def)
    have "unat (npos - of_nat (?b + ?f)) = unat npos - unat (of_nat (?b + ?f) :: u64)"
      by (rule unat_sub_le) (simp add: npos_def)
    moreover have "unat npos = 2 ^ 64 - 1" by (simp add: npos_def unsigned_minus_1_eq_mask mask_eq_exp_minus_1)
    ultimately have "?t \<le> unat (npos - of_nat (?b + ?f))"
      using n [of "?b + ?f"] len short by simp
    then show ?thesis
      unfolding get stop substr_def using n [of "?b + ?f"] len Nil tail by (simp del: of_nat_add)
  next
    case (Cons c cs)
    have "List.find (\<lambda>i. starts_with (drop i s) '' '') [?b + ?f..<Suc (length s)] = Some (?b + ?f + ?t)"
    proof (rule find_upt_Some)
      show "starts_with (drop (?b + ?f + ?t) s) '' ''"
        using s rest Cons by (simp add: starts_with_def)
    qed (use inside len Cons in auto)
    then have stop: "find_from s '' '' (of_nat (?b + ?f)) = of_nat (?b + ?f + ?t)"
      using n [of "?b + ?f"] len by (simp add: find_from_def)
    have "of_nat (?b + ?f + ?t) - of_nat (?b + ?f) = (of_nat ?t :: u64)" by simp
    then show ?thesis
      unfolding get stop substr_def using n [of "?b + ?f"] n [of ?t] len tail by (simp del: of_nat_add)
  qed
qed

text \<open>
  Property C33.  \<open>plugin_init\<close> on a compiler and headers whose version strings are
  \<open>mm.patch\<close> and whose configuration arguments have a flag \<open>--target=\<close>: it accepts the
  compiler, and registers its callback, exactly if no error was reported before and the
  versions agree up to the patch level and the targets agree; no string operation throws.
\<close>

theorem plugin_init_accepts:
  assumes "names_version (gv_basever version) mm1" and "names_version (gv_basever headers) mm2"
    and "names_target (gv_configuration_arguments version) target1"
    and "names_target (gv_configuration_arguments headers) target2"
  shows "\<exists>r info'. plugin_init errorcount sorrycount version headers info = Inr (r, info', r = 0) \<and>
    (r = 0 \<longleftrightarrow> errorcount = 0 \<and> sorrycount = 0 \<and> mm1 = mm2 \<and> target1 = target2)"
  using version_without_patch [OF assms(1)] version_without_patch [OF assms(2)]
    target_of_configuration [OF assms(3)] target_of_configuration [OF assms(4)]
  by (auto simp: plugin_init_def Let_def)

theorem plugin_init_accepts_witness:
  "\<exists>r info'. plugin_init 0 0
      \<lparr>gv_basever = ''13.2.1'', gv_configuration_arguments = ''c --target=x86_64-linux''\<rparr>
      \<lparr>gv_basever = ''13.2.0'', gv_configuration_arguments = ''--target=x86_64-linux --enable-shared''\<rparr>
      \<lparr>pi_version = '''', pi_help = ''''\<rparr> = Inr (r, info', r = 0) \<and> r = 0"
proof -
  let ?v = "\<lparr>gv_basever = ''13.2.1'', gv_configuration_arguments = ''c --target=x86_64-linux''\<rparr>"
    and ?h = "\<lparr>gv_basever = ''13.2.0'', gv_configuration_arguments = ''--target=x86_64-linux --enable-shared''\<rparr>"
  have "names_version (gv_basever ?v) ''13.2''" "names_version (gv_basever ?h) ''13.2''"
    by (simp_all add: names_version_def)
  moreover have "names_target (gv_configuration_arguments ?v) ''x86_64-linux''"
    unfolding names_target_def
    by (intro conjI exI [of _ "''c ''"] exI [of _ "''''"])
      (simp_all add: target_flag_def starts_with_def All_less_Suc)
  moreover have "names_target (gv_configuration_arguments ?h) ''x86_64-linux''"
    unfolding names_target_def
    by (intro conjI exI [of _ "''''"] exI [of _ "'' --enable-shared''"]) (simp_all add: target_flag_def)
  ultimately show ?thesis
    using plugin_init_accepts [of ?v "''13.2''" ?h "''13.2''" "''x86_64-linux''" "''x86_64-linux''" 0 0] by simp
qed

end
