(* ===== verification/Spec2Isabelle.thy ===== *)
theory Spec2Isabelle
  imports Capture_History Capture_Tracking Capture_Replay Reference_Capture Kernel_Example Query_Roundtrip
    Reference_Output Plugin_Version
begin

text \<open>
  Verification of KREPE (Kokkos Replay, \<open>src/krepe\<close>): a kernel of a Kokkos application is
  captured, with the memory it works on, into an HDF5 file, and replayed from this file in a
  program of its own.

  \<^bold>\<open>The program.\<close>  Five parts work together.
  \<^item> The \<^emph>\<open>compiler plugins\<close> (\<open>compiler_plugins/gcc.cpp\<close>, \<open>clang.cpp\<close>) put statements into
    each \<open>krepe::replay_functor\<close> that tell the extractor which views the functor holds.
  \<^item> The \<^emph>\<open>extractor\<close> (\<open>extract/kernel_extractor.hpp\<close>, \<open>.cpp\<close>) is linked into the application;
    it copies the functor, describes the execution policy, and forwards both to the capture
    tool, which it looks up with \<open>dlsym\<close>.
  \<^item> The \<^emph>\<open>capture tool\<close> (\<open>capture/\<close>) is a Kokkos Tools library.  Its hooks follow the
    application's allocations, count the invocations of the kernel the user asked for, and
    write its input (and, when it ends, its output) to a dump.
  \<^item> The \<^emph>\<open>replayer\<close> (\<open>replay/\<close>) reads a dump, maps the pages at the captured addresses, fills
    them with the captured bytes, and lets a program launch the captured functor and compare
    its results with the captured output.
  \<^item> \<open>common/\<close> holds what several parts share: the HDF5 wrappers and the traversal of the
    closures of NVCC's extended lambdas.

  \<^bold>\<open>The theories\<close>, in the order of the data's way from the application to the replay.

  \<^item> \<open>Prelude\<close>: names of machine types, C++ computations that may throw (a state and an error
    as a value of a sum type), association lists for \<open>std::unordered_map\<close>, and the locale
    \<open>simulation\<close>, which every refinement here instantiates.  \<open>Cpp_Text\<close>: \<open>to_string\<close>,
    \<open>from_chars\<close>, \<open>stoull\<close> and the printing of pointers, with their round trips.
  \<^item> \<open>View_Registration\<close>, \<open>Plugin_Version\<close>: the two plugins, on an abstract syntax of types
    and functions; the version check when GCC loads the plugin.
  \<^item> \<open>Extended_Lambda\<close> (\<open>common/extended_lambda_utils.hpp\<close>): memory as a function from addresses
    to bytes, functors and closures as places in it.
  \<^item> \<open>Extractor\<close>, \<open>Extract_Policy\<close>: the ten function pointers with their one-time
    initialization, every function that calls through them, \<open>register_bounds\<close> for the four
    kinds of policies and \<open>parallel_for\<close>.  \<open>Extractor_Contract\<close>: the locale \<open>dump_tool\<close> of what
    the extractor expects of a tool, interpreted on the hooks of the capture tool.
  \<^item> \<open>Alloc_Tracker\<close> (\<open>capture/allocation_tracker.cpp\<close>), \<open>Memory_Copy\<close>
    (\<open>capture/memory_copy.cpp\<close>), \<open>Kokkos_Hooks\<close> (\<open>capture/kokkos_hooks.cpp\<close>): the tracker's two
    maps, the copy of an allocation's bytes, and the state of the tool with all entry points.
    \<open>Capture_History\<close> and \<open>Capture_Tracking\<close> relate any history of hook calls to abstract
    specifications: of the captures the tool announces, and of the memory it sees.
  \<^item> \<open>Hdf5\<close> (\<open>common/hdf5_utils.hpp\<close>): the library as a record of functions on an arbitrary
    state, \<open>check_call\<close>, \<open>check_id\<close>, \<open>ScopedHandle\<close>.  \<open>View_Dump\<close> (\<open>capture/view_dump.cpp\<close>): the
    writer, call for call.  \<open>Handle_Discipline\<close>: no handle stays open.  \<open>Hdf5_Store\<close>: what the
    contents of files are and how the calls change them; \<open>Reference_Store\<close>, a library in memory
    that obeys these laws; \<open>Hdf5_Beside\<close>, a library beside the state of the program.
    \<open>Dump_Image\<close>, \<open>Dump_Contents\<close>: what the writer leaves in a file.
  \<^item> \<open>Dump_Reader\<close>, \<open>Replay_Layout\<close>, \<open>Raw_Allocation\<close>, \<open>Cli\<close>, \<open>Replayer\<close>
    (\<open>replay/kernel_replayer.cpp\<close>, \<open>.hpp\<close>, \<open>allocation.hpp\<close>, \<open>host_allocation.hpp\<close>,
    \<open>cuda_allocation.hpp\<close>, \<open>hip_allocation.hpp\<close>): reading a dump, merging the pages to map,
    taking memory from the system, the command line, and the session: the global variables,
    \<open>ScopeGuard\<close>, \<open>initialize\<close>, \<open>finalize\<close>, \<open>reset_inputs\<close>.
    \<open>Dump_Roundtrip\<close>, \<open>Allocation_Roundtrip\<close>: the readers on what the writer wrote.
    \<open>Replay_Logic\<close>, \<open>Replay_Restore\<close>, \<open>Capture_Replay\<close>, \<open>Output_Replay\<close>: total correctness of the
    constructor of \<open>ScopeGuard\<close> on a captured dump, without and with the kernel's output.
    \<open>Replay_Buffers\<close>: the locale \<open>buffer_heap\<close> of what the allocators of the host and the device
    document.  \<open>Replay_Mappings\<close>: who unmaps what, with the locale
    \<open>host_mappings\<close> of what \<open>mmap\<close> and \<open>munmap\<close> document; \<open>Reference_Platform\<close>, a system that does
    it.  \<open>Replay_Session\<close>: sequences of calls.
  \<^item> \<open>Replay_Policy\<close>, \<open>Functor_Replay\<close>, \<open>Replay_Launch\<close>, \<open>Replay_Query\<close> (\<open>kernel_replayer.hpp\<close>
    and \<open>.cpp\<close>): the policy made of the dump's numbers, \<open>FunctorRestoreGuard\<close> and
    \<open>replay_functor\<close> on raw memory, the replayer's \<open>parallel_for\<close>, the look-ups and
    \<open>compare_views\<close>.
  \<^item> \<open>Policy_Roundtrip\<close>, \<open>Query_Roundtrip\<close>, \<open>Output_Query\<close>, \<open>Kernel_Roundtrip\<close>: from the
    application to the replay.  \<open>Reference_Capture\<close>, \<open>Reference_Output\<close> and \<open>Kernel_Example\<close> run a
    concrete one.

  \<^bold>\<open>State and data.\<close>  The tool's \<open>State\<close>, the tracker, the replayer's globals and \<open>ScopeGuard\<close> are
  records with the fields of the source; an object behind a pointer lives in a map from
  object numbers (\<open>rp_guards\<close>), so that a dangling pointer is a number outside its domain.
  \<open>uint64_t\<close>, \<open>size_t\<close> and addresses are 64-bit words, device ids 32-bit words; wrap-around is
  kept.  An \<open>std::unordered_map\<close> is an association list and the order of its iteration, like
  that of a \<open>std::unordered_multimap\<close>, is arbitrary in the theorems.  An exception, an abort and
  an error return are values.  Every loop of the program runs over a finite container, a
  string, the fields of a type or the links HDF5 lists, so all definitions recurse structurally
  or with a measure; nothing has fuel and every function is total.  Code guarded by a mutex is
  one step of a history.

  \<^bold>\<open>Parameters.\<close>  Code outside the repository is an argument of the definitions: the HDF5 functions
  (\<open>hdf5_api\<close>), the allocator, \<open>mmap\<close>, and the CUDA and HIP calls (\<open>capture_env\<close>, \<open>platform\<close>), \<open>dlsym\<close>
  (\<open>linkage\<close>), the functor's copy constructor and destructor, Kokkos's construction of a view
  from a pointer, and what Kokkos answers about a policy.  Documented behaviour is assumed in the locales
  \<open>hdf5_handles\<close>, \<open>hdf5_store\<close>, \<open>hdf5_reader\<close>, \<open>host_mappings\<close> and \<open>buffer_heap\<close>, each interpreted on a
  reference implementation, on which the witnesses are evaluated.  The build options (plugins,
  backend, Kokkos version) are parameters too.

  \<^bold>\<open>What is shown.\<close>
  \<^item> End to end: \<open>capture_then_replay\<close>, \<open>kernel_survives\<close>, \<open>functor_revived\<close>,
    \<open>captured_outputs_available\<close>, \<open>comparison_with_captured_output\<close>,
    \<open>captured_allocations_found\<close>, \<open>captured_functor_launched\<close>, \<open>launched_policy_well_typed\<close>.
  \<^item> The capture decides and sees what it should: \<open>captured_exactly_once\<close>,
    \<open>outputs_at_most_captures\<close>, \<open>will_dump_predicts_capture\<close>, \<open>hooks_refine_capture_tool\<close>,
    \<open>snapshot_of_history\<close>, \<open>snapshot_matches_hook_history\<close>, \<open>extractor_forwards\<close>,
    \<open>get_functor_views_correct\<close>, \<open>plugins_agree\<close>, \<open>plugin_init_accepts\<close>.
  \<^item> The dump: \<open>dump_holds_capture\<close>, \<open>dump_names_safe\<close>, \<open>copy_allocation_bytes_correct\<close>,
    \<open>validated_data_size_in_bounds\<close>.
  \<^item> Resources and errors: \<open>no_handle_leaks\<close>, \<open>host_pages_released\<close>, \<open>session_pointers_safe\<close>,
    \<open>finalized_once\<close>, \<open>guard_undoes\<close>, \<open>replay_functor_outcome\<close>.
  \<^item> Replay: \<open>compute_allocations_correct\<close>, \<open>get_allocation_address_covers\<close>, \<open>reset_after_replay\<close>,
    \<open>compare_views_in_bounds\<close>, \<open>unique_allocation_is_the_only_one\<close>, \<open>cli_lookup_correct\<close>.

  \<^bold>\<open>Not modelled\<close>: CMake, the tests, examples and scripts; the insides of Kokkos, HDF5, CUDA, HIP
  and the compilers, and with the last the construction of the compilers' own expression nodes
  and the registration of the plugins; the text of messages on standard output and error where
  nothing depends on it; the C++ type machinery that fixes the sizes and offsets of closures
  (\<open>host_capture_size\<close>), which is data of a functor's type here; races between threads inside
  Kokkos's own callbacks.
\<close>

section \<open>Capture and replay\<close>






section \<open>Contents of the dump\<close>

text \<open>
  Property C8.  What a capture leaves on disk.  When \<open>create_kernel_dump\<close> reports success,
  the file it names holds the snapshot, the functor, the metadata, the policy and the
  kernel's label, id and invocation, and nothing else on the disk or among the open handles
  has changed; a successful \<open>append_kernel_output\<close> to it adds the output snapshot and
  leaves everything the file held of the input.
\<close>

theorem dump_holds_capture:
  assumes "hdf5_store api view"
    and "create_kernel_dump b env api absolute sn fd nd metadata policy label kid num w = (r, w1)" and "vr_ok r"
  shows "\<exists>F. view w1 = (view w)\<lparr>h5_disk := (h5_disk (view w))(vr_filename r \<mapsto> F)\<rparr> \<and>
    holds_dump b env F sn fd nd metadata policy label kid num \<and>
    (\<forall>b' env' out r2 w2. append_kernel_output b' env' api out (vr_filename r) w1 = (r2, w2) \<and> vr_ok r2 \<longrightarrow>
      (\<exists>G. view w2 = (view w)\<lparr>h5_disk := (h5_disk (view w))(vr_filename r \<mapsto> G)\<rparr> \<and>
         holds_dump b env G sn fd nd metadata policy label kid num \<and> holds_snapshot b' env' G [''out''] out))"
proof -
  let ?F = "image_dump b env sn fd nd metadata policy label kid num empty_file"
  note w1 = hdf5_store.create_kernel_dump_view(2) [OF assms]
  have app: "\<exists>G. view w2 = (view w)\<lparr>h5_disk := (h5_disk (view w))(vr_filename r \<mapsto> G)\<rparr> \<and>
      holds_dump b env G sn fd nd metadata policy label kid num \<and> holds_snapshot b' env' G [''out''] out"
    if "append_kernel_output b' env' api out (vr_filename r) w1 = (r2, w2)" "vr_ok r2" for b' env' out r2 w2
  proof (intro exI conjI)
    have "h5_disk (view w1) (vr_filename r) \<noteq> None" by (simp add: w1)
    note w2 = hdf5_store.append_kernel_output_view [OF assms(1) that this]
    show "view w2 = (view w)\<lparr>h5_disk := (h5_disk (view w))(vr_filename r \<mapsto> image_snapshot b' env' [''out''] out ?F)\<rparr>"
      by (simp add: w2 w1 on_file_def)
  qed (rule output_added [OF image_dump_holds])+
  show ?thesis using w1 image_dump_holds(1) app by blast
qed

theorem dump_holds_capture_witness:
  "\<exists>F. h5_disk (ref_view (snd example_dump)) (vr_filename (fst example_dump)) = Some F \<and>
     holds_dump example_build example_env F example_snapshot [7] [] [(''k'', ''v'')] (Scalar_Policy 4) ''l'' 1 1"
proof -
  from dump_holds_capture [OF ref_store.hdf5_store_axioms example_run example_conditions(1)]
  obtain F where "ref_view (snd example_dump) =
      (ref_view ref_start)\<lparr>h5_disk := (h5_disk (ref_view ref_start))(vr_filename (fst example_dump) \<mapsto> F)\<rparr>"
    and dump: "holds_dump example_build example_env F example_snapshot [7] [] [(''k'', ''v'')] (Scalar_Policy 4) ''l'' 1 1"
    by blast
  then have "h5_disk (ref_view (snd example_dump)) (vr_filename (fst example_dump)) = Some F" by simp
  with dump show ?thesis by blast
qed

section \<open>Handles, pages and sessions\<close>

text \<open>
  Property C7.  No HDF5 handle leaks: \<open>create_kernel_dump\<close>, \<open>append_kernel_output\<close> and the
  constructor of \<open>ScopeGuard\<close> leave exactly the handles open that were open before, whatever
  calls fail on the way, for any library that opens and closes handles as documented.
\<close>

theorem no_handle_leaks:
  assumes "hdf5_handles api hs"
  shows "hs (snd (create_kernel_dump b env api absolute sn fd nd metadata policy label kid num w)) = hs w \<and>
    hs (snd (append_kernel_output b env api sn path w)) = hs w \<and>
    hs (fst (snd (construct_ScopeGuard (api_beside api) rb pf argc argv ws))) = hs (fst ws)"
  using hdf5_observed.create_kernel_dump_balanced [OF hdf5_handles.is_observed [OF assms]]
    hdf5_observed.append_kernel_output_balanced [OF hdf5_handles.is_observed [OF assms]]
    construct_handles [OF assms]
  by (intro conjI)

theorem no_handle_leaks_witness:
  "ref_handles (snd example_dump) = ref_handles ref_start"
  unfolding example_dump_def using no_handle_leaks [OF ref_lib.hdf5_handles_axioms] by blast

text \<open>Concrete inputs of the properties of \<open>Replay_Session\<close> and \<open>Replay_Mappings\<close>.\<close>

theorem session_pointers_safe_witness: "session_ok (snd (snd example_replayed))"
proof (rule session_pointers_safe)
  show "replay_reachable ref_api example_replay (ref_platform No_Backend) (snd example_replayed)"
  proof (rule reachable_step [OF example_reachable], rule construct_step)
    show "construct_ScopeGuard (api_beside ref_api) example_replay (ref_platform No_Backend) 4 example_argv
        example_start = (fst example_replayed, snd example_replayed)"
      by (simp add: example_replayed_def)
    have "fst example_replayed = Inr 0" using example_replays by (metis fst_conv)
    then show "fst example_replayed \<noteq> Inl Abort" by simp
  qed
qed

theorem finalized_once_witness:
  "\<exists>ws1 ws2. initialize (api_beside ref_api) example_replay (ref_platform No_Backend) 4 example_argv example_start =
     (Inr (), ws1) \<and> finalize (ref_platform No_Backend) ws1 = (Inr (), ws2) \<and>
     rp_guards (snd ws2) = Map.empty \<and> fst (finalize (ref_platform No_Backend) ws2) =
       Inl (Std_Exception ''Trying to call krepe::finalize, but krepe has already been finalized'')"
proof -
  obtain ws1 ws2 where run:
    "initialize (api_beside ref_api) example_replay (ref_platform No_Backend) 4 example_argv example_start = (Inr (), ws1)"
    "finalize (ref_platform No_Backend) ws1 = (Inr (), ws2)"
    using example_initialized by blast
  have "(Inr () :: exn + unit) \<noteq> Inl Abort" by simp
  from finalized_once [OF example_reachable run this] run show ?thesis
    by (intro exI [of _ ws1] exI [of _ ws2]) (simp del: split_paired_Ex)
qed

theorem host_pages_released_witness:
  "\<exists>ws1. example_replayed = (Inr 0, ws1) \<and> (\<forall>u ws2. destroy_ScopeGuard (ref_platform No_Backend) 0 ws1 = (Inr u, ws2) \<longrightarrow>
     ref_mapped (mc_os (rp_machine (snd ws2))) = {})"
proof -
  obtain ws1 where run: "example_replayed = (Inr 0, ws1)" using example_replays by blast
  have "ref_mapped (mc_os (rp_machine (snd example_start))) = {}"
    by (simp add: example_start_def initial_replayer_def ref_machine_def ref_mapped_def)
  then show ?thesis
    using run host_pages_released [OF ref_maps.host_mappings_axioms run [unfolded example_replayed_def]]
    by (intro exI [of _ ws1]) simp
qed

end
